(* ===== verification/Dmap_Prelude.thy ===== *)
theory Dmap_Prelude
  imports Main "HOL-Library.Word"
begin

text \<open>
  Shared vocabulary of the DMAP development: the byte type, Python strings as
  lists of code points, Python's negative list indexing, the little-endian
  integer layout that \<open>struct\<close> and \<open>numpy\<close> use on the x86-64 hosts the
  code runs on, the UTF-8 codec behind \<open>str.encode\<close> and \<open>bytes.decode\<close>,
  and the \<open>OrderedDict\<close> insertion that builds a record.  The collection
  \<open>codec_simps\<close> gathers the equations that evaluate these codecs on a
  concrete input; the round-trip lemmas are the facts the decoder and encoder
  proofs share.
\<close>

named_theorems codec_simps "equations of the byte codecs, for evaluation"

type_synonym byte = "8 word"

text \<open>A Python \<open>str\<close> is a sequence of code points.\<close>

type_synonym pystr = "int list"

abbreviation py :: "string \<Rightarrow> pystr" where
  "py s \<equiv> map (\<lambda>c. of_char c) s"

section \<open>Python indexing\<close>

text \<open>\<open>xs[i]\<close>: a negative index counts from the end; out of range is
  \<open>IndexError\<close>, here \<open>None\<close>.\<close>

definition py_index :: "'a list \<Rightarrow> int \<Rightarrow> 'a option" where
  "py_index xs i =
     (let n = int (length xs); j = (if i < 0 then n + i else i)
      in if 0 \<le> j \<and> j < n then Some (xs ! nat j) else None)"

lemma py_index_Some_less: "py_index xs i = Some x \<Longrightarrow> i < int (length xs)"
  by (auto simp: py_index_def Let_def split: if_splits)

lemma py_index_nonneg [codec_simps]:
  "0 \<le> i \<Longrightarrow> py_index xs i = (if i < int (length xs) then Some (xs ! nat i) else None)"
  by (simp add: py_index_def)

section \<open>Little-endian integers\<close>

text \<open>\<open>le_bytes n v\<close> is the \<open>n\<close>-byte two's-complement little-endian image
  of \<open>v\<close> (the value modulo \<open>2^(8n)\<close>), as \<open>struct.pack\<close> with a native
  integer format writes it; \<open>le_uint\<close> and \<open>le_sint\<close> read a byte list back
  as an unsigned and a signed integer.\<close>

fun le_bytes :: "nat \<Rightarrow> int \<Rightarrow> byte list" where
  "le_bytes 0 v = []"
| "le_bytes (Suc n) v = word_of_int v # le_bytes n (v div 256)"

fun le_uint :: "byte list \<Rightarrow> int" where
  "le_uint [] = 0"
| "le_uint (b # bs) = uint b + 256 * le_uint bs"

definition le_sint :: "byte list \<Rightarrow> int" where
  "le_sint bs =
     (let u = le_uint bs; m = 2 ^ (8 * length bs) in if m \<le> 2 * u then u - m else u)"

declare le_bytes.simps [codec_simps] le_uint.simps [codec_simps] le_sint_def [codec_simps]

lemma length_le_bytes [simp]: "length (le_bytes n v) = n"
  by (induction n arbitrary: v) auto

lemma le_uint_le_bytes: "le_uint (le_bytes n v) = v mod 2 ^ (8 * n)"
proof (induction n arbitrary: v)
  case 0
  then show ?case by simp
next
  case (Suc n)
  have "v mod (256 * 2 ^ (8 * n)) = 256 * (v div 256 mod 2 ^ (8 * n)) + v mod 256"
    by (rule zmod_zmult2_eq) simp
  then show ?case
    using Suc by (simp add: uint_word_of_int power_add)
qed

lemma le_uint_bounds: "0 \<le> le_uint bs \<and> le_uint bs < 2 ^ (8 * length bs)"
proof (induction bs)
  case Nil
  then show ?case by simp
next
  case (Cons b bs)
  have "uint b < 256"
    using uint_bounded [of b] by simp
  then show ?case
    using Cons by (auto simp: power_add)
qed

lemma byte_256_eq_0: "(256::byte) = 0"
  by simp

lemma le_bytes_le_uint: "le_bytes (length bs) (le_uint bs) = bs"
proof (induction bs)
  case Nil
  then show ?case by simp
next
  case (Cons b bs)
  have "0 \<le> uint b" "uint b < 256"
    using uint_bounded [of b] by simp_all
  then have "(uint b + 256 * le_uint bs) div 256 = le_uint bs"
    by simp
  moreover have "(word_of_int (uint b + 256 * le_uint bs) :: byte) = b"
    by (simp add: byte_256_eq_0)
  ultimately show ?case
    using Cons by simp
qed

lemma le_uint_le_bytes_id:
  "0 \<le> v \<Longrightarrow> v < 2 ^ (8 * n) \<Longrightarrow> le_uint (le_bytes n v) = v"
  by (simp add: le_uint_le_bytes)

lemma le_sint_le_bytes:
  assumes "0 < n" and "- (2 ^ (8 * n - 1)) \<le> v" and "v < 2 ^ (8 * n - 1)"
  shows "le_sint (le_bytes n v) = v"
proof -
  have m: "(2::int) ^ (8 * n) = 2 * 2 ^ (8 * n - 1)"
    using assms(1) by (simp add: power_Suc [symmetric])
  show ?thesis
  proof (cases "0 \<le> v")
    case True
    with assms m have "v mod 2 ^ (8 * n) = v" by simp
    with True assms(3) m show ?thesis
      by (simp add: le_sint_def le_uint_le_bytes Let_def)
  next
    case False
    have "0 \<le> v + 2 ^ (8 * n)" "v + 2 ^ (8 * n) < 2 ^ (8 * n)"
      using False assms(2) m by linarith+
    then have "(v + 2 ^ (8 * n)) mod 2 ^ (8 * n) = v + 2 ^ (8 * n)"
      by (rule mod_pos_pos_trivial)
    then have "v mod 2 ^ (8 * n) = v + 2 ^ (8 * n)"
      by simp
    with False assms(2) m show ?thesis
      by (simp add: le_sint_def le_uint_le_bytes Let_def)
  qed
qed

lemma le_bytes_mod: "le_bytes n (v mod 2 ^ (8 * n)) = le_bytes n v"
proof -
  have "le_bytes n (v mod 2 ^ (8 * n)) = le_bytes (length (le_bytes n v)) (le_uint (le_bytes n v))"
    by (simp add: le_uint_le_bytes)
  then show ?thesis
    by (simp only: le_bytes_le_uint)
qed

section \<open>UTF-8\<close>

text \<open>\<open>str.encode('utf-8')\<close> on one code point: surrogates do not encode
  (\<open>UnicodeEncodeError\<close>, here \<open>None\<close>).\<close>

definition utf8_encode_cp :: "int \<Rightarrow> byte list option" where
  "utf8_encode_cp v =
     (if v < 0 \<or> 1114112 \<le> v then None
      else if v < 128 then Some [word_of_int v]
      else if v < 2048 then Some [word_of_int (192 + v div 64), word_of_int (128 + v mod 64)]
      else if 55296 \<le> v \<and> v \<le> 57343 then None
      else if v < 65536 then
        Some [word_of_int (224 + v div 4096), word_of_int (128 + v div 64 mod 64),
              word_of_int (128 + v mod 64)]
      else
        Some [word_of_int (240 + v div 262144), word_of_int (128 + v div 4096 mod 64),
              word_of_int (128 + v div 64 mod 64), word_of_int (128 + v mod 64)])"

fun utf8_encode :: "pystr \<Rightarrow> byte list option" where
  "utf8_encode [] = Some []"
| "utf8_encode (c # cs) =
     (case utf8_encode_cp c of
        None \<Rightarrow> None
      | Some b \<Rightarrow> map_option (\<lambda>r. b @ r) (utf8_encode cs))"

text \<open>\<open>bytes.decode('utf-8')\<close> in CPython's strict mode: overlong forms,
  surrogates and code points beyond U+10FFFF are rejected
  (\<open>UnicodeDecodeError\<close>, here \<open>None\<close>).\<close>

definition byte_in :: "int \<Rightarrow> int \<Rightarrow> byte \<Rightarrow> bool" where
  "byte_in lo hi b \<longleftrightarrow> lo \<le> uint b \<and> uint b \<le> hi"
text \<open>Decoding one character from its lead byte.\<close>

definition utf8_step :: "byte \<Rightarrow> byte list \<Rightarrow> (int \<times> byte list) option" where
  "utf8_step b bs =
     (let x = uint b in
      if x < 128 then Some (x, bs)
      else if 194 \<le> x \<and> x \<le> 223 then
        (case bs of
           c1 # rest \<Rightarrow>
             if byte_in 128 191 c1 then Some ((x - 192) * 64 + (uint c1 - 128), rest) else None
         | _ \<Rightarrow> None)
      else if 224 \<le> x \<and> x \<le> 239 then
        (case bs of
           c1 # c2 # rest \<Rightarrow>
             if byte_in (if x = 224 then 160 else 128) (if x = 237 then 159 else 191) c1
                \<and> byte_in 128 191 c2
             then Some ((x - 224) * 4096 + (uint c1 - 128) * 64 + (uint c2 - 128), rest)
             else None
         | _ \<Rightarrow> None)
      else if 240 \<le> x \<and> x \<le> 244 then
        (case bs of
           c1 # c2 # c3 # rest \<Rightarrow>
             if byte_in (if x = 240 then 144 else 128) (if x = 244 then 143 else 191) c1
                \<and> byte_in 128 191 c2 \<and> byte_in 128 191 c3
             then Some ((x - 240) * 262144 + (uint c1 - 128) * 4096
                        + (uint c2 - 128) * 64 + (uint c3 - 128), rest)
             else None
         | _ \<Rightarrow> None)
      else None)"
text \<open>One character: the code point and the bytes after it.\<close>

lemma utf8_step_shorter: "utf8_step b bs = Some (c, rest) \<Longrightarrow> length rest \<le> length bs"
  by (auto simp: utf8_step_def Let_def split: if_splits list.splits)
function utf8_decode :: "byte list \<Rightarrow> pystr option" where
  "utf8_decode [] = Some []"
| "utf8_decode (b # bs) =
     (case utf8_step b bs of
        None \<Rightarrow> None
      | Some (c, rest) \<Rightarrow> map_option (Cons c) (utf8_decode rest))"
  by pat_completeness auto
termination
  by (relation "measure length") (auto dest: utf8_step_shorter)

declare utf8_encode_cp_def [codec_simps] byte_in_def [codec_simps] utf8_step_def [codec_simps]

definition is_ascii :: "pystr \<Rightarrow> bool" where
  "is_ascii s \<longleftrightarrow> (\<forall>c \<in> set s. 0 \<le> c \<and> c < 128)"

lemma utf8_encode_ascii:
  "is_ascii s \<Longrightarrow> utf8_encode s = Some (map word_of_int s)"
  by (induction s) (auto simp: is_ascii_def utf8_encode_cp_def)

lemma uint_byte_small: "0 \<le> c \<Longrightarrow> c < 256 \<Longrightarrow> uint (word_of_int c :: byte) = c"
  by (simp add: uint_word_of_int)

lemma utf8_decode_ascii:
  "is_ascii s \<Longrightarrow> utf8_decode (map word_of_int s) = Some s"
  by (induction s) (auto simp: is_ascii_def uint_byte_small utf8_step_def)

corollary utf8_ascii_roundtrip:
  "is_ascii s \<Longrightarrow> Option.bind (utf8_encode s) utf8_decode = Some s"
  by (simp add: utf8_encode_ascii utf8_decode_ascii)

lemma length_utf8_encode_ascii:
  "is_ascii s \<Longrightarrow> utf8_encode s = Some bs \<Longrightarrow> length bs = length s"
  by (auto simp: utf8_encode_ascii)

section \<open>Decimal text of an integer\<close>

text \<open>\<open>str(i)\<close> and \<open>"{0}".format(i)\<close> for a Python \<open>int\<close>: decimal digits,
  a minus sign for a negative number, no padding.\<close>

fun dec_digits :: "nat \<Rightarrow> pystr" where
  "dec_digits n = (if n < 10 then [48 + int n] else dec_digits (n div 10) @ [48 + int (n mod 10)])"

definition py_str_int :: "int \<Rightarrow> pystr" where
  "py_str_int i = (if i < 0 then 45 # dec_digits (nat (- i)) else dec_digits (nat i))"

section \<open>OrderedDict\<close>

text \<open>\<open>d[k] = v\<close> on an \<open>OrderedDict\<close>: an existing key keeps its position
  and takes the new value; a new key goes to the end.\<close>

fun od_set :: "('k \<times> 'v) list \<Rightarrow> 'k \<Rightarrow> 'v \<Rightarrow> ('k \<times> 'v) list" where
  "od_set [] k v = [(k, v)]"
| "od_set ((k', v') # kvs) k v =
     (if k' = k then (k, v) # kvs else (k', v') # od_set kvs k v)"

lemma od_set_fresh: "k \<notin> set (map fst kvs) \<Longrightarrow> od_set kvs k v = kvs @ [(k, v)]"
  by (induction kvs) auto

lemma set_od_set: "set (od_set kvs k v) \<subseteq> set kvs \<union> {(k, v)}"
  by (induction kvs) (auto split: if_splits)

lemma od_set_keys:
  "map fst (od_set kvs k v) = (if k \<in> set (map fst kvs) then map fst kvs else map fst kvs @ [k])"
  by (induction kvs) force+

lemma distinct_od_set: "distinct (map fst kvs) \<Longrightarrow> distinct (map fst (od_set kvs k v))"
  by (simp add: od_set_keys)

lemma map_of_od_set: "map_of (od_set kvs k v) = (map_of kvs)(k \<mapsto> v)"
  by (induction kvs) (auto simp: fun_eq_iff)

end
