(* ===== verification/Dmap_Types.thy ===== *)
theory Dmap_Types
  imports Dmap_Prelude
begin

text \<open>
  The data model shared by reader and writer (\<open>src/pydarn/pydmap/io.py\<close>):
  the table \<open>DMAP_DATA_TYPES\<close> from wire type codes to \<open>struct\<close> format and
  byte width, the Python values a field holds, the \<open>DmapScalar\<close> and
  \<open>DmapArray\<close> named tuples, a record as an \<open>OrderedDict\<close>, the exceptions
  the module raises, and the two library services the module calls for its
  byte work: \<open>struct\<close> (\<open>pack\<close>, \<open>unpack_from\<close>) and \<open>numpy\<close>
  (\<open>frombuffer\<close>, \<open>np.array\<close>, \<open>tostring\<close>).  The library models follow
  CPython's and numpy's documented behaviour on a little-endian 64-bit host.
\<close>

section \<open>Wire types\<close>

text \<open>The \<open>struct\<close> format characters the table uses; \<open>Fnone\<close> is the
  empty format \<open>''\<close> of the reserved type \<open>DMAP = 0\<close>.\<close>

datatype fmt = Fnone | Fc | Fh | Fi | Ff | Fd | Fs | Fq | FB | FH | FI | FQ

text \<open>\<open>DMAP_DATA_TYPES\<close>: wire code \<open>\<mapsto>\<close> (format, byte width).\<close>

definition dmap_data_types :: "int \<rightharpoonup> fmt \<times> nat" where
  "dmap_data_types = map_of
     [(0, (Fnone, 0)), (1, (Fc, 1)), (2, (Fh, 2)), (3, (Fi, 4)), (4, (Ff, 4)),
      (8, (Fd, 8)), (9, (Fs, 1)), (10, (Fq, 8)), (16, (FB, 1)), (17, (FH, 2)),
      (18, (FI, 4)), (19, (FQ, 8))]"

text \<open>\<open>struct.calcsize\<close> of a one-item format.\<close>

fun fmt_size :: "fmt \<Rightarrow> nat" where
  "fmt_size Fnone = 0"
| "fmt_size Fc = 1"
| "fmt_size Fh = 2"
| "fmt_size Fi = 4"
| "fmt_size Ff = 4"
| "fmt_size Fd = 8"
| "fmt_size Fs = 1"
| "fmt_size Fq = 8"
| "fmt_size FB = 1"
| "fmt_size FH = 2"
| "fmt_size FI = 4"
| "fmt_size FQ = 8"

text \<open>The integer formats: signedness and the range \<open>struct.pack\<close> accepts.\<close>

fun int_fmt :: "fmt \<Rightarrow> bool option" where
  "int_fmt Fh = Some True"
| "int_fmt Fi = Some True"
| "int_fmt Fq = Some True"
| "int_fmt FB = Some False"
| "int_fmt FH = Some False"
| "int_fmt FI = Some False"
| "int_fmt FQ = Some False"
| "int_fmt _ = None"

definition int_range :: "bool \<Rightarrow> nat \<Rightarrow> int \<Rightarrow> bool" where
  "int_range is_signed n v \<longleftrightarrow>
     (if is_signed then - (2 ^ (8 * n - 1)) \<le> v \<and> v < 2 ^ (8 * n - 1)
      else 0 \<le> v \<and> v < 2 ^ (8 * n))"

lemma dmap_data_types_width:
  "dmap_data_types t = Some (f, w) \<Longrightarrow> w = fmt_size f"
  by (auto simp: dmap_data_types_def split: if_splits)

section \<open>Values\<close>

text \<open>
  A Python value as the module meets it: an \<open>int\<close>, a \<open>float\<close>, a \<open>str\<close> or a
  \<open>bytes\<close>.  A float is kept as the IEEE bit pattern of the width it was
  read at (\<open>PFloat32\<close> for format \<open>f\<close>, \<open>PFloat64\<close> for \<open>d\<close>); packing it at
  that width gives the bytes back, and the model does not compute the
  conversion between the two widths (see \<open>OutsideModel\<close>).
\<close>

datatype pyval = PInt int | PFloat32 "32 word" | PFloat64 "64 word" | PStr pystr
  | PBytes "byte list"

fun int_of :: "pyval \<Rightarrow> int" where
  "int_of (PInt i) = i"
| "int_of _ = 0"

fun str_of :: "pyval \<Rightarrow> pystr" where
  "str_of (PStr s) = s"
| "str_of _ = []"

text \<open>
  A numpy array: its dtype and its raw buffer for numeric dtypes (what
  \<open>frombuffer\<close> views and \<open>tostring\<close> returns), or its elements for a
  unicode (\<open><U\<close>) array.
\<close>

datatype ndarray = NdNum fmt "byte list" | NdStr "pystr list"

text \<open>The named tuples \<open>DmapScalar(name, value, data_type, data_type_fmt)\<close>
  and \<open>DmapArray(name, value, data_type, data_type_fmt, dimension, shape)\<close>.\<close>

record dmap_scalar =
  s_name :: pystr
  s_value :: pyval
  s_data_type :: int
  s_data_type_fmt :: fmt

record dmap_array =
  a_name :: pystr
  a_value :: ndarray
  a_data_type :: int
  a_data_type_fmt :: fmt
  a_dimension :: int
  a_shape :: "int list"

datatype dmap_field = Scalar dmap_scalar | Array dmap_array

text \<open>A record is an \<open>OrderedDict\<close> from field name to field.\<close>

type_synonym dmap_record = "(pystr \<times> dmap_field) list"

fun field_fmt :: "dmap_field \<Rightarrow> fmt" where
  "field_fmt (Scalar s) = s_data_type_fmt s"
| "field_fmt (Array a) = a_data_type_fmt a"

fun is_scalar_field :: "dmap_field \<Rightarrow> bool" where
  "is_scalar_field (Scalar _) = True"
| "is_scalar_field (Array _) = False"

fun field_name :: "dmap_field \<Rightarrow> pystr" where
  "field_name (Scalar s) = s_name s"
| "field_name (Array a) = a_name a"

section \<open>Errors\<close>

text \<open>
  The exceptions of \<open>pydmap_exceptions\<close>, \<open>superdarn_exceptions\<close> and the
  built-in ones the code lets escape.  \<open>CursorError\<close>, \<open>ZeroByteError\<close>,
  \<open>NegativeByteError\<close> and \<open>MismatchByteError\<close> carry the cursor;
  \<open>DmapDataTypeError\<close> the field name, the type code and the cursor; the
  writer's errors the record number and the offending fields.
  \<open>OutsideModel\<close> is not an exception of the program: it marks the two
  float conversions the model does not compute (packing a float at the other
  width, formatting a float as text).
\<close>

datatype error =
    EmptyFileError
  | CursorError int
  | ZeroByteError int
  | NegativeByteError int
  | MismatchByteError int
  | DmapDataTypeError pystr int int
  | DmapDataError
  | IndexError
  | KeyError
  | StructError
  | ValueError
  | UnicodeDecodeError
  | UnicodeEncodeError
  | AttributeError
  | TypeError
  | SuperDARNFieldExtra nat "pystr set"
  | SuperDARNFieldMissing nat "pystr set"
  | SuperDARNDataFormatError "(pystr \<times> fmt) list" nat
  | DmapTypeError
  | FilenameRequiredError
  | DmapFileFormatType
  | OutsideModel
  | NameError
  | BorealisFileTypeError pystr pystr

section \<open>The struct module\<close>

text \<open>\<open>unpack_from(fmt, buffer, offset)\<close>: a negative offset counts from the
  end; too little data after the offset is \<open>struct.error\<close>.  The result is
  the tuple of unpacked items (empty for the empty format).\<close>

definition unpack_offset :: "nat \<Rightarrow> int \<Rightarrow> nat \<Rightarrow> error + nat" where
  "unpack_offset len off sz =
     (let p = (if off < 0 then off + int len else off)
      in if p < 0 then Inl StructError
         else if int len - p < int sz then Inl StructError
         else Inr (nat p))"

fun struct_unpack :: "fmt \<Rightarrow> byte list \<Rightarrow> pyval list" where
  "struct_unpack Fnone bs = []"
| "struct_unpack Fc bs = [PBytes bs]"
| "struct_unpack Fs bs = [PBytes bs]"
| "struct_unpack Ff bs = [PFloat32 (word_of_int (le_uint bs))]"
| "struct_unpack Fd bs = [PFloat64 (word_of_int (le_uint bs))]"
| "struct_unpack f bs = [PInt (if int_fmt f = Some True then le_sint bs else le_uint bs)]"

definition unpack_from :: "fmt \<Rightarrow> byte list \<Rightarrow> int \<Rightarrow> error + pyval list" where
  "unpack_from f buf off =
     (case unpack_offset (length buf) off (fmt_size f) of
        Inl e \<Rightarrow> Inl e
      | Inr p \<Rightarrow> Inr (struct_unpack f (take (fmt_size f) (drop p buf))))"

text \<open>\<open>unpack_from('%ds' % n, buffer, offset)\<close>: the \<open>n\<close> bytes there.\<close>

definition unpack_from_s :: "nat \<Rightarrow> byte list \<Rightarrow> int \<Rightarrow> error + byte list" where
  "unpack_from_s n buf off =
     (case unpack_offset (length buf) off n of
        Inl e \<Rightarrow> Inl e
      | Inr p \<Rightarrow> Inr (take n (drop p buf)))"

text \<open>\<open>pack('%ds' % n, b)\<close>: truncated or NUL-padded to exactly \<open>n\<close> bytes.\<close>

definition pack_s :: "nat \<Rightarrow> byte list \<Rightarrow> byte list" where
  "pack_s n bs = take n bs @ replicate (n - length bs) 0"

text \<open>\<open>pack(fmt, v)\<close> for a one-item format.\<close>

fun struct_pack :: "fmt \<Rightarrow> pyval \<Rightarrow> error + byte list" where
  "struct_pack Fnone v = Inl StructError"
| "struct_pack Fc (PBytes bs) = (if length bs = 1 then Inr bs else Inl StructError)"
| "struct_pack Fc v = Inl StructError"
| "struct_pack Fs (PBytes bs) = Inr (pack_s 1 bs)"
| "struct_pack Fs v = Inl StructError"
| "struct_pack Ff (PFloat32 w) = Inr (le_bytes 4 (uint w))"
| "struct_pack Ff (PFloat64 w) = Inl OutsideModel"
| "struct_pack Ff (PInt i) = Inl OutsideModel"
| "struct_pack Ff v = Inl StructError"
| "struct_pack Fd (PFloat64 w) = Inr (le_bytes 8 (uint w))"
| "struct_pack Fd (PFloat32 w) = Inl OutsideModel"
| "struct_pack Fd (PInt i) = Inl OutsideModel"
| "struct_pack Fd v = Inl StructError"
| "struct_pack f (PInt i) =
     (case int_fmt f of
        Some is_signed \<Rightarrow> if int_range is_signed (fmt_size f) i then Inr (le_bytes (fmt_size f) i)
                       else Inl StructError
      | None \<Rightarrow> Inl StructError)"
| "struct_pack f v = Inl StructError"

section \<open>numpy\<close>

text \<open>\<open>np.frombuffer(buffer, dtype, count, offset)\<close>: a negative count takes
  every whole item after the offset.\<close>

definition np_frombuffer :: "byte list \<Rightarrow> fmt \<Rightarrow> int \<Rightarrow> int \<Rightarrow> error + ndarray" where
  "np_frombuffer buf f count off =
     (let len = int (length buf); size = int (fmt_size f) in
      if off < 0 \<or> len < off \<or> size = 0 then Inl ValueError
      else
        (let s = len - off in
         if count < 0 then
           (if s mod size \<noteq> 0 then Inl ValueError
            else Inr (NdNum f (drop (nat off) buf)))
         else if s < count * size then Inl ValueError
         else Inr (NdNum f (take (nat (count * size)) (drop (nat off) buf)))))"

text \<open>\<open>np.array(list)\<close> on the elements \<open>read_string_array\<close> collects: a
  list of ints is an \<open>int64\<close> array, a list of strs a unicode array, and
  the empty list a \<open>float64\<close> array.\<close>

definition np_array :: "pyval list \<Rightarrow> ndarray" where
  "np_array vs =
     (case vs of
        [] \<Rightarrow> NdNum Fd []
      | PStr _ # _ \<Rightarrow> NdStr (map str_of vs)
      | _ \<Rightarrow> NdNum Fq (concat (map (\<lambda>v. le_bytes 8 (int_of v)) vs)))"

text \<open>\<open>ndarray.tostring()\<close>: the raw buffer; a unicode array stores every
  element as UCS-4 code units padded to the longest element (at least one).\<close>

fun np_tostring :: "ndarray \<Rightarrow> byte list" where
  "np_tostring (NdNum f bs) = bs"
| "np_tostring (NdStr ss) =
     (let w = max 1 (fold max (map length ss) 0) in
      concat (map (\<lambda>s. concat (map (le_bytes 4) s) @ replicate (4 * (w - length s)) 0) ss))"

section \<open>A sample record\<close>

text \<open>A sample block: one \<open>int\<close> scalar \<open>a = 7\<close> and one \<open>int\<close> array
  \<open>b = [5, 6]\<close>, 42 bytes, as the witnesses of the reader and the writer use it.\<close>

abbreviation sample_block :: "byte list" where
  "sample_block \<equiv> le_bytes 4 65537 @ le_bytes 4 42 @ le_bytes 4 1 @ le_bytes 4 1
     @ [97, 0, 3] @ le_bytes 4 7
     @ [98, 0, 3] @ le_bytes 4 1 @ le_bytes 4 2 @ le_bytes 4 5 @ le_bytes 4 6"

text \<open>The record the sample block encodes.\<close>

abbreviation sample_record :: dmap_record where
  "sample_record \<equiv>
     [(py ''a'', Scalar \<lparr>s_name = py ''a'', s_value = PInt 7, s_data_type = 3, s_data_type_fmt = Fi\<rparr>),
      (py ''b'', Array \<lparr>a_name = py ''b'', a_value = NdNum Fi (le_bytes 4 5 @ le_bytes 4 6),
                         a_data_type = 3, a_data_type_fmt = Fi, a_dimension = 1, a_shape = [2]\<rparr>)]"

section \<open>Lemmas on the library models\<close>

lemma unpack_offset_nonneg [codec_simps]:
  "0 \<le> off \<Longrightarrow> unpack_offset len off sz =
     (if int len - off < int sz then Inl StructError else Inr (nat off))"
  by (simp add: unpack_offset_def)

lemma unpack_from_nonneg:
  "0 \<le> off \<Longrightarrow> int (fmt_size f) \<le> int (length buf) - off \<Longrightarrow>
   unpack_from f buf off = Inr (struct_unpack f (take (fmt_size f) (drop (nat off) buf)))"
  by (simp add: unpack_from_def unpack_offset_nonneg)

lemma struct_pack_int:
  "int_fmt f = Some is_signed \<Longrightarrow> int_range is_signed (fmt_size f) i \<Longrightarrow>
   struct_pack f (PInt i) = Inr (le_bytes (fmt_size f) i)"
  by (cases f) auto

lemma struct_pack_length:
  "struct_pack f v = Inr bs \<Longrightarrow> length bs = fmt_size f"
  by (induction f v rule: struct_pack.induct)
     (auto simp: pack_s_def split: if_splits option.splits)

text \<open>Unpacking what \<open>pack\<close> wrote at a numeric format gives the value back:
  the round trip of one \<open>struct\<close> item.\<close>

lemma struct_unpack_pack_int:
  assumes "int_fmt f = Some is_signed" and "struct_pack f (PInt i) = Inr bs"
  shows "struct_unpack f bs = [PInt i]"
proof -
  have "int_range is_signed (fmt_size f) i \<and> bs = le_bytes (fmt_size f) i"
    using assms by (cases f) (auto split: if_splits)
  then have r: "int_range is_signed (fmt_size f) i" and bs: "bs = le_bytes (fmt_size f) i"
    by simp_all
  have pos: "0 < fmt_size f"
    using assms(1) by (cases f) auto
  show ?thesis
  proof (cases is_signed)
    case True
    with r pos bs have "le_sint bs = i"
      by (simp add: int_range_def le_sint_le_bytes)
    with True assms(1) show ?thesis
      by (cases f) auto
  next
    case False
    with r bs have "le_uint bs = i"
      by (simp add: int_range_def le_uint_le_bytes_id)
    with False assms(1) show ?thesis
      by (cases f) auto
  qed
qed

lemma struct_unpack_pack_float:
  "struct_pack Ff (PFloat32 w) = Inr bs \<Longrightarrow> struct_unpack Ff bs = [PFloat32 w]"
  "struct_pack Fd (PFloat64 d) = Inr bs \<Longrightarrow> struct_unpack Fd bs = [PFloat64 d]"
  using uint_bounded [of w] uint_bounded [of d]
  by (auto simp: le_uint_le_bytes_id)

end
