(* ===== verification/Dmap_Read.thy ===== *)
theory Dmap_Read
  imports Dmap_Types
begin

text \<open>
  The reader \<open>DmapRead\<close> of \<open>src/pydarn/pydmap/io.py\<close> in its stream mode.
  Its state is the record \<open>dmap_read\<close>: the cursor, the buffer and its length,
  and the records read so far.  Every method is a function from the state to
  an error or a result with the next state; a raise is an \<open>Inl\<close>.  Loops over
  a count are \<open>repeat_read\<close>; the two loops over the buffer
  (\<open>read_records\<close> and \<open>test_initial_data_integrity\<close>) are functions whose
  termination follows from the checks the code makes on every block size.
\<close>

record dmap_read =
  cursor :: int
  dmap_end_bytes :: int
  dmap_bytearr :: "byte list"
  dmap_records :: "dmap_record list"

text \<open>A reader runs over the state: it raises, or returns a value and the
  next state.\<close>

type_synonym 'a reader = "dmap_read \<Rightarrow> error + ('a \<times> dmap_read)"

section \<open>Construction and checks\<close>

text \<open>\<open>DmapRead(stream, data_stream=True)\<close>.\<close>

definition dmap_read_stream :: "byte list \<Rightarrow> error + dmap_read" where
  "dmap_read_stream bs =
     (if length bs = 0 then Inl EmptyFileError
      else
        (let st = \<lparr>cursor = 0, dmap_end_bytes = int (length bs), dmap_bytearr = bs,
                   dmap_records = []\<rparr>
         in if dmap_end_bytes st = 0 then Inl EmptyFileError else Inr st))"

definition zero_negative_check :: "int \<Rightarrow> dmap_read \<Rightarrow> error + unit" where
  "zero_negative_check element st =
     (if element = 0 then Inl (ZeroByteError (cursor st))
      else if element < 0 then Inl (NegativeByteError (cursor st))
      else Inr ())"

definition bytes_check :: "int \<Rightarrow> int \<Rightarrow> dmap_read \<Rightarrow> error + unit" where
  "bytes_check element byte_check st =
     (if byte_check < element then Inl (MismatchByteError (cursor st)) else Inr ())"

definition check_data_type :: "int \<Rightarrow> pystr \<Rightarrow> dmap_read \<Rightarrow> error + unit" where
  "check_data_type data_type data_name st =
     (if data_type \<notin> dom dmap_data_types
      then Inl (DmapDataTypeError data_name data_type (cursor st)) else Inr ())"

section \<open>read_data\<close>

text \<open>The scan for the terminating NUL of a string:
  \<open>while bytearr[cursor + k] != 0 or cursor + k >= end: k += 1\<close>.
  Indexing past the buffer raises \<open>IndexError\<close>, so a string without a NUL
  ends in \<open>IndexError\<close>.\<close>

function scan_nul :: "byte list \<Rightarrow> int \<Rightarrow> int \<Rightarrow> int \<Rightarrow> error + int" where
  "scan_nul arr e c k =
     (case py_index arr (c + k) of
        None \<Rightarrow> Inl IndexError
      | Some b \<Rightarrow> if b \<noteq> 0 \<or> e \<le> c + k then scan_nul arr e c (k + 1) else Inr k)"
  by pat_completeness auto
termination
  by (relation "measure (\<lambda>(arr, e, c, k). nat (int (length arr) - (c + k)))")
     (auto dest: py_index_Some_less)

declare scan_nul.simps [simp del]

text \<open>\<open>read_data(fmt, nbytes)\<close>: the two cursor checks, then a byte
  (\<open>'c'\<close>), a NUL-terminated UTF-8 string (\<open>'s'\<close>) or one \<open>struct\<close> item.\<close>

definition read_data :: "fmt \<Rightarrow> nat \<Rightarrow> pyval reader" where
  "read_data f n st =
     (let c = cursor st; e = dmap_end_bytes st; arr = dmap_bytearr st in
      if e \<le> c then Inl (CursorError c)
      else if e - c < int n then Inl (CursorError c)
      else if f = Fc then
        (case py_index arr c of
           None \<Rightarrow> Inl IndexError
         | Some b \<Rightarrow> Inr (PInt (uint b), st\<lparr>cursor := c + int n\<rparr>))
      else if f = Fs then
        (case scan_nul arr e c 0 of
           Inl err \<Rightarrow> Inl err
         | Inr k \<Rightarrow>
             (case bytes_check (c + k) e st of
                Inl err \<Rightarrow> Inl err
              | Inr _ \<Rightarrow>
                  (case unpack_from_s (nat k) arr c of
                     Inl err \<Rightarrow> Inl err
                   | Inr bs \<Rightarrow>
                       (case utf8_decode bs of
                          None \<Rightarrow> Inl UnicodeDecodeError
                        | Some s \<Rightarrow> Inr (PStr s, st\<lparr>cursor := c + k + 1\<rparr>)))))
      else
        (case unpack_from f arr c of
           Inl err \<Rightarrow> Inl err
         | Inr [] \<Rightarrow> Inl IndexError
         | Inr (v # _) \<Rightarrow> Inr (v, st\<lparr>cursor := c + int n\<rparr>)))"

text \<open>A loop that runs a reader a given number of times and collects the
  results in order (\<open>for i in range(n)\<close>).\<close>

fun repeat_read :: "nat \<Rightarrow> 'a reader \<Rightarrow> 'a list reader" where
  "repeat_read 0 r st = Inr ([], st)"
| "repeat_read (Suc n) r st =
     (case r st of
        Inl e \<Rightarrow> Inl e
      | Inr (x, st') \<Rightarrow>
          (case repeat_read n r st' of
             Inl e \<Rightarrow> Inl e
           | Inr (xs, st'') \<Rightarrow> Inr (x # xs, st'')))"

section \<open>Scalars\<close>

text \<open>\<open>read_scalar()\<close>.  The test \<open>scalar_type_fmt != DMAP\<close> compares a
  format string with the integer \<open>0\<close> and always holds, so a scalar of the
  reserved type goes on to \<open>read_data('', 0)\<close>, which unpacks an empty
  tuple and raises \<open>IndexError\<close> at \<open>data[0]\<close>; the \<open>DmapDataError\<close> branch
  of the source is never taken.\<close>

definition read_scalar :: "dmap_scalar reader" where
  "read_scalar st =
     (case read_data Fs 1 st of
        Inl e \<Rightarrow> Inl e
      | Inr (nm, st1) \<Rightarrow>
          (case read_data Fc 1 st1 of
             Inl e \<Rightarrow> Inl e
           | Inr (ty, st2) \<Rightarrow>
               (case check_data_type (int_of ty) (str_of nm) st2 of
                  Inl e \<Rightarrow> Inl e
                | Inr _ \<Rightarrow>
                    (case dmap_data_types (int_of ty) of
                       None \<Rightarrow> Inl KeyError
                     | Some (f, w) \<Rightarrow>
                         (case read_data f w st2 of
                            Inl e \<Rightarrow> Inl e
                          | Inr (v, st3) \<Rightarrow>
                              Inr (\<lparr>s_name = str_of nm, s_value = v, s_data_type = int_of ty,
                                    s_data_type_fmt = f\<rparr>, st3))))))"

section \<open>Arrays\<close>

text \<open>\<open>read_string_array(shape, fmt, nbytes)\<close>: one element per unit of
  every dimension in turn, so \<open>sum(shape)\<close> elements (not their product),
  collected by \<open>np.array\<close>.\<close>

fun read_dims :: "int list \<Rightarrow> fmt \<Rightarrow> nat \<Rightarrow> pyval list reader" where
  "read_dims [] f w st = Inr ([], st)"
| "read_dims (d # ds) f w st =
     (case repeat_read (nat d) (read_data f w) st of
        Inl e \<Rightarrow> Inl e
      | Inr (xs, st') \<Rightarrow>
          (case read_dims ds f w st' of
             Inl e \<Rightarrow> Inl e
           | Inr (ys, st'') \<Rightarrow> Inr (xs @ ys, st'')))"

definition read_string_array :: "int list \<Rightarrow> fmt \<Rightarrow> nat \<Rightarrow> ndarray reader" where
  "read_string_array shape f w st =
     (case read_dims shape f w st of
        Inl e \<Rightarrow> Inl e
      | Inr (data, st') \<Rightarrow> Inr (np_array data, st'))"

text \<open>\<open>read_numerical_array(fmt, cells, nbytes)\<close>: a \<open>frombuffer\<close> view at
  the cursor, which then moves by \<open>cells * nbytes\<close>.\<close>

definition read_numerical_array :: "fmt \<Rightarrow> int \<Rightarrow> nat \<Rightarrow> ndarray reader" where
  "read_numerical_array f cells w st =
     (case np_frombuffer (dmap_bytearr st) f cells (cursor st) of
        Inl e \<Rightarrow> Inl e
      | Inr a \<Rightarrow> Inr (a, st\<lparr>cursor := cursor st + cells * int w\<rparr>))"

text \<open>The shape as the wire stores it, innermost dimension first.\<close>

definition read_shape :: "nat \<Rightarrow> int list reader" where
  "read_shape n st =
     (case repeat_read n (read_data Fi 4) st of
        Inl e \<Rightarrow> Inl e
      | Inr (vs, st') \<Rightarrow> Inr (map int_of vs, st'))"

text \<open>The checks \<open>read_array\<close> makes on a shape once it is read and reversed.
  The non-positive-entry branch formats its message template, which names
  \<open>{shape}\<close>, with the arguments \<open>dim=\<close> and \<open>cursor=\<close> only: \<open>str.format\<close>
  raises \<open>KeyError('shape')\<close> before the \<open>DmapDataError\<close> is built.\<close>

definition shape_check :: "pystr \<Rightarrow> int \<Rightarrow> int \<Rightarrow> int list \<Rightarrow> error + unit" where
  "shape_check name dim record_size shape =
     (if length shape \<noteq> nat dim then Inl DmapDataError
      else if (\<exists>x \<in> set shape. x \<le> 0) \<and> name \<noteq> py ''slist'' then Inl KeyError
      else if (\<exists>x \<in> set shape. record_size \<le> x) then Inl DmapDataError
      else Inr ())"

text \<open>The cell count of \<open>read_array\<close>: \<open>total_num_cells = 1; for i in
  array_shape: total_num_cells *= i\<close> (used by the code in place of
  \<open>np.prod\<close>, which computes in \<open>int64\<close>).\<close>

fun total_num_cells :: "int list \<Rightarrow> int \<Rightarrow> int" where
  "total_num_cells [] acc = acc"
| "total_num_cells (i # is) acc = total_num_cells is (acc * i)"

text \<open>\<open>read_array(record_size)\<close>: name, type, dimension count, the shape
  (reversed), the size checks, then the data.\<close>

definition read_array :: "int \<Rightarrow> dmap_array reader" where
  "read_array record_size st =
     (case read_data Fs 1 st of
        Inl e \<Rightarrow> Inl e
      | Inr (nm, st1) \<Rightarrow>
     (case read_data Fc 1 st1 of
        Inl e \<Rightarrow> Inl e
      | Inr (ty, st2) \<Rightarrow>
     (case check_data_type (int_of ty) (str_of nm) st2 of
        Inl e \<Rightarrow> Inl e
      | Inr _ \<Rightarrow>
     (case dmap_data_types (int_of ty) of
        None \<Rightarrow> Inl KeyError
      | Some (f, w) \<Rightarrow>
     (case read_data Fi 4 st2 of
        Inl e \<Rightarrow> Inl e
      | Inr (dv, st3) \<Rightarrow>
     (let dim = int_of dv in
     (case bytes_check dim record_size st3 of
        Inl e \<Rightarrow> Inl e
      | Inr _ \<Rightarrow>
     (case zero_negative_check dim st3 of
        Inl e \<Rightarrow> Inl e
      | Inr _ \<Rightarrow>
     (case read_shape (nat dim) st3 of
        Inl e \<Rightarrow> Inl e
      | Inr (wire_shape, st4) \<Rightarrow>
     (let shape = rev wire_shape in
     (case shape_check (str_of nm) dim record_size shape of
        Inl e \<Rightarrow> Inl e
      | Inr _ \<Rightarrow>
     (let cells = total_num_cells shape 1 in
     (case bytes_check cells record_size st4 of
        Inl e \<Rightarrow> Inl e
      | Inr _ \<Rightarrow>
     (case bytes_check (cells * int w) record_size st4 of
        Inl e \<Rightarrow> Inl e
      | Inr _ \<Rightarrow>
     (case (if f = Fs \<or> f = Fc then read_string_array shape f w st4
            else if int_of ty = 0 then Inl DmapDataError
            else read_numerical_array f cells w st4) of
        Inl e \<Rightarrow> Inl e
      | Inr (val, st5) \<Rightarrow>
          Inr (\<lparr>a_name = str_of nm, a_value = val, a_data_type = int_of ty,
                a_data_type_fmt = f, a_dimension = dim, a_shape = shape\<rparr>, st5))))))))))))))))"

section \<open>Records\<close>

text \<open>The two loops of \<open>read_record\<close>: each field read is stored under its
  name in the \<open>OrderedDict\<close>.\<close>

fun read_scalars :: "nat \<Rightarrow> dmap_record \<Rightarrow> dmap_record reader" where
  "read_scalars 0 r st = Inr (r, st)"
| "read_scalars (Suc n) r st =
     (case read_scalar st of
        Inl e \<Rightarrow> Inl e
      | Inr (s, st') \<Rightarrow> read_scalars n (od_set r (s_name s) (Scalar s)) st')"

fun read_arrays :: "nat \<Rightarrow> int \<Rightarrow> dmap_record \<Rightarrow> dmap_record reader" where
  "read_arrays 0 bsz r st = Inr (r, st)"
| "read_arrays (Suc n) bsz r st =
     (case read_array bsz st of
        Inl e \<Rightarrow> Inl e
      | Inr (a, st') \<Rightarrow> read_arrays n bsz (od_set r (a_name a) (Array a)) st')"

text \<open>\<open>read_record()\<close>: the 16-byte header with its checks, the scalars, the
  arrays, and the check that the cursor moved by exactly the block size.\<close>

definition read_record :: "dmap_record reader" where
  "read_record st =
     (let start = cursor st in
     (case read_data Fi 4 (st\<lparr>cursor := start + 4\<rparr>) of
        Inl e \<Rightarrow> Inl e
      | Inr (bv, st1) \<Rightarrow>
     (let block_size = int_of bv;
          remaining_bytes = dmap_end_bytes st1 - cursor st1 + 2 * 4 in
     (case bytes_check block_size remaining_bytes st1 of
        Inl e \<Rightarrow> Inl e
      | Inr _ \<Rightarrow>
     (case zero_negative_check block_size st1 of
        Inl e \<Rightarrow> Inl e
      | Inr _ \<Rightarrow>
     (case read_data Fi 4 st1 of
        Inl e \<Rightarrow> Inl e
      | Inr (sv, st2) \<Rightarrow>
     (case read_data Fi 4 st2 of
        Inl e \<Rightarrow> Inl e
      | Inr (av, st3) \<Rightarrow>
     (let num_scalars = int_of sv; num_arrays = int_of av in
     (case zero_negative_check num_scalars st3 of
        Inl e \<Rightarrow> Inl e
      | Inr _ \<Rightarrow>
     (case zero_negative_check num_arrays st3 of
        Inl e \<Rightarrow> Inl e
      | Inr _ \<Rightarrow>
     (case bytes_check (num_scalars + num_arrays) block_size st3 of
        Inl e \<Rightarrow> Inl e
      | Inr _ \<Rightarrow>
     (case read_scalars (nat num_scalars) [] st3 of
        Inl e \<Rightarrow> Inl e
      | Inr (r1, st4) \<Rightarrow>
     (case read_arrays (nat num_arrays) block_size r1 st4 of
        Inl e \<Rightarrow> Inl e
      | Inr (r2, st5) \<Rightarrow>
          if cursor st5 - start \<noteq> block_size then Inl (CursorError (cursor st5))
          else Inr (r2, st5))))))))))))))"

section \<open>Frame: a reader moves the cursor only\<close>

definition same_buffer :: "dmap_read \<Rightarrow> dmap_read \<Rightarrow> bool" where
  "same_buffer st st' \<longleftrightarrow> st' = st\<lparr>cursor := cursor st'\<rparr>"

definition cursor_only :: "'a reader \<Rightarrow> bool" where
  "cursor_only r \<longleftrightarrow> (\<forall>st x st'. r st = Inr (x, st') \<longrightarrow> same_buffer st st')"

text \<open>The type invariant of a \<open>DmapRead\<close>: \<open>dmap_end_bytes = len(dmap_bytearr)\<close>.\<close>

definition reader_wf :: "dmap_read \<Rightarrow> bool" where
  "reader_wf st \<longleftrightarrow> dmap_end_bytes st = int (length (dmap_bytearr st))"

named_theorems frame "readers that change the cursor only"

abbreviation sample_reader :: dmap_read where
  "sample_reader \<equiv> \<lparr>cursor = 0, dmap_end_bytes = 42, dmap_bytearr = sample_block,
                      dmap_records = []\<rparr>"

lemma total_num_cells_prod [simp]: "total_num_cells xs acc = acc * prod_list xs"
  by (induction xs arbitrary: acc) (simp_all add: mult.assoc)

lemma same_buffer_upd [simp]: "same_buffer st (st\<lparr>cursor := c\<rparr>)"
  by (simp add: same_buffer_def)

lemma same_buffer_refl [simp]: "same_buffer st st"
  by (simp add: same_buffer_def)

lemma same_buffer_trans [trans]: "same_buffer a b \<Longrightarrow> same_buffer b c \<Longrightarrow> same_buffer a c"
  by (simp add: same_buffer_def) (metis dmap_read.update_convs(1) dmap_read.surjective)

lemma same_buffer_fields:
  "same_buffer st st' \<Longrightarrow>
   dmap_end_bytes st' = dmap_end_bytes st \<and> dmap_bytearr st' = dmap_bytearr st
   \<and> dmap_records st' = dmap_records st"
  by (simp add: same_buffer_def) (metis dmap_read.select_convs(2,3,4) dmap_read.surjective dmap_read.update_convs(1))

lemma cursor_onlyD: "cursor_only r \<Longrightarrow> r st = Inr (x, st') \<Longrightarrow> same_buffer st st'"
  by (simp add: cursor_only_def)

lemma cursor_only_read_data [frame]: "cursor_only (read_data f n)"
  by (auto simp: cursor_only_def read_data_def Let_def split: if_splits option.splits sum.splits list.splits)

lemma cursor_only_repeat_read [frame]: "cursor_only r \<Longrightarrow> cursor_only (repeat_read n r)"
proof (induction n)
  case 0
  then show ?case by (simp add: cursor_only_def)
next
  case (Suc n)
  then show ?case
    unfolding cursor_only_def
    by (auto split: sum.splits prod.splits) (blast intro: same_buffer_trans)
qed

lemma cursor_only_read_scalar [frame]: "cursor_only read_scalar"
  unfolding cursor_only_def read_scalar_def
  by (auto split: sum.splits prod.splits option.splits dest!: cursor_onlyD [OF cursor_only_read_data])
     (blast intro: same_buffer_trans)+

lemma cursor_only_read_shape [frame]: "cursor_only (read_shape n)"
  using cursor_only_repeat_read [OF cursor_only_read_data, of n Fi 4]
  unfolding cursor_only_def read_shape_def
  by (auto split: sum.splits prod.splits)

lemma cursor_only_read_dims [frame]: "cursor_only (read_dims shape f w)"
proof (induction shape)
  case Nil
  then show ?case by (simp add: cursor_only_def)
next
  case (Cons d ds)
  show ?case
    using Cons cursor_only_repeat_read [OF cursor_only_read_data, of "nat d" f w]
    unfolding cursor_only_def
    by (auto split: sum.splits prod.splits) (blast intro: same_buffer_trans)
qed

lemma cursor_only_read_string_array [frame]: "cursor_only (read_string_array shape f w)"
  using cursor_only_read_dims [of shape f w]
  unfolding cursor_only_def read_string_array_def
  by (auto split: sum.splits prod.splits)

lemma cursor_only_read_numerical_array [frame]: "cursor_only (read_numerical_array f n w)"
  unfolding cursor_only_def read_numerical_array_def
  by (auto split: sum.splits)

lemma cursor_only_read_array [frame]: "cursor_only (read_array bsz)"
  unfolding cursor_only_def read_array_def Let_def
  by (auto split: sum.splits prod.splits option.splits if_splits
           dest!: cursor_onlyD [OF cursor_only_read_data] cursor_onlyD [OF cursor_only_read_shape]
                  cursor_onlyD [OF cursor_only_read_string_array]
                  cursor_onlyD [OF cursor_only_read_numerical_array])
     (blast intro: same_buffer_trans)+


lemma cursor_only_read_scalars [frame]: "cursor_only (read_scalars n r)"
proof (induction n arbitrary: r)
  case 0
  then show ?case by (simp add: cursor_only_def)
next
  case (Suc n)
  show ?case
    unfolding cursor_only_def
  proof (intro allI impI)
    fix st x st'
    assume "read_scalars (Suc n) r st = Inr (x, st')"
    then obtain s st1 where s: "read_scalar st = Inr (s, st1)"
      and rest: "read_scalars n (od_set r (s_name s) (Scalar s)) st1 = Inr (x, st')"
      by (auto split: sum.splits prod.splits)
    have "same_buffer st st1" using s by (rule cursor_onlyD [OF cursor_only_read_scalar])
    also have "same_buffer st1 st'" using rest by (rule cursor_onlyD [OF Suc.IH])
    finally show "same_buffer st st'" .
  qed
qed

lemma cursor_only_read_arrays [frame]: "cursor_only (read_arrays n bsz r)"
proof (induction n arbitrary: r)
  case 0
  then show ?case by (simp add: cursor_only_def)
next
  case (Suc n)
  show ?case
    unfolding cursor_only_def
  proof (intro allI impI)
    fix st x st'
    assume "read_arrays (Suc n) bsz r st = Inr (x, st')"
    then obtain a st1 where a: "read_array bsz st = Inr (a, st1)"
      and rest: "read_arrays n bsz (od_set r (a_name a) (Array a)) st1 = Inr (x, st')"
      by (auto split: sum.splits prod.splits)
    have "same_buffer st st1" using a by (rule cursor_onlyD [OF cursor_only_read_array])
    also have "same_buffer st1 st'" using rest by (rule cursor_onlyD [OF Suc.IH])
    finally show "same_buffer st st'" .
  qed
qed

lemma read_data_cursor:
  "f \<noteq> Fs \<Longrightarrow> read_data f n st = Inr (v, st') \<Longrightarrow> cursor st' = cursor st + int n"
  by (auto simp: read_data_def Let_def split: if_splits option.splits sum.splits list.splits)

lemma read_data_step:
  "read_data f n st = Inr (v, st') \<Longrightarrow> f \<noteq> Fs \<Longrightarrow> st' = st\<lparr>cursor := cursor st + int n\<rparr>"
  by (auto simp: read_data_def Let_def split: if_splits option.splits sum.splits list.splits)

lemma read_record_progress:
  assumes "read_record st = Inr (r, st')"
  shows "cursor st < cursor st' \<and> cursor st' \<le> dmap_end_bytes st \<and> same_buffer st st'"
proof -
  let ?st0 = "st\<lparr>cursor := cursor st + 4\<rparr>"
  from assms obtain bv st1 sv st2 av st3 r1 st4 where
        b: "read_data Fi 4 ?st0 = Inr (bv, st1)"
    and le: "\<not> dmap_end_bytes st1 - cursor st1 + 2 * 4 < int_of bv"
    and pos: "int_of bv \<noteq> 0" "\<not> int_of bv < 0"
    and s: "read_data Fi 4 st1 = Inr (sv, st2)"
    and a: "read_data Fi 4 st2 = Inr (av, st3)"
    and rs: "read_scalars (nat (int_of sv)) [] st3 = Inr (r1, st4)"
    and ra: "read_arrays (nat (int_of av)) (int_of bv) r1 st4 = Inr (r, st')"
    and eq: "cursor st' - cursor st = int_of bv"
    unfolding read_record_def Let_def bytes_check_def zero_negative_check_def
    by (auto split: sum.splits prod.splits if_splits)
  have c1: "cursor st1 = cursor st + 8"
    using read_data_cursor [OF _ b] by simp
  have "same_buffer st ?st0" by simp
  also have "same_buffer ?st0 st1" using b by (rule cursor_onlyD [OF cursor_only_read_data])
  finally have f1: "same_buffer st st1" .
  have "same_buffer st1 st2" using s by (rule cursor_onlyD [OF cursor_only_read_data])
  also have "same_buffer st2 st3" using a by (rule cursor_onlyD [OF cursor_only_read_data])
  also have "same_buffer st3 st4" using rs by (rule cursor_onlyD [OF cursor_only_read_scalars])
  also have "same_buffer st4 st'" using ra by (rule cursor_onlyD [OF cursor_only_read_arrays])
  finally have f2: "same_buffer st1 st'" .
  from f1 have "dmap_end_bytes st1 = dmap_end_bytes st"
    by (simp add: same_buffer_fields)
  with le pos eq c1 have "cursor st < cursor st' \<and> cursor st' \<le> dmap_end_bytes st"
    by simp
  moreover from f1 f2 have "same_buffer st st'" by (rule same_buffer_trans)
  ultimately show ?thesis by simp
qed

lemma read_record_header:
  "read_record st = Inr (r, st') \<Longrightarrow>
   \<exists>bv st1. read_data Fi 4 (st\<lparr>cursor := cursor st + 4\<rparr>) = Inr (bv, st1) \<and>
     cursor st' = cursor st + int_of bv"
  unfolding read_record_def Let_def bytes_check_def zero_negative_check_def
  by (auto split: sum.splits prod.splits if_splits)

text \<open>C1: A record that is read leaves the cursor exactly \<open>block_size\<close> bytes further
  on, the size read from the block header, with \<open>0 < block_size \<le> end - start\<close>:
  the cursor moves forward and stays inside the buffer, which is unchanged.\<close>

theorem read_record_advances:
  assumes "read_record st = Inr (r, st')"
  shows "(\<exists>bv st1. read_data Fi 4 (st\<lparr>cursor := cursor st + 4\<rparr>) = Inr (bv, st1) \<and>
            cursor st' = cursor st + int_of bv) \<and>
         cursor st < cursor st' \<and> cursor st' \<le> dmap_end_bytes st \<and> same_buffer st st'"
  using read_record_header [OF assms] read_record_progress [OF assms] by blast

lemma sample_read_record:
  "read_record sample_reader = Inr (sample_record, sample_reader\<lparr>cursor := 42\<rparr>)"
  by code_simp

theorem read_record_advances_witness:
  "cursor sample_reader < cursor (sample_reader\<lparr>cursor := 42\<rparr>)
   \<and> cursor (sample_reader\<lparr>cursor := 42\<rparr>) \<le> dmap_end_bytes sample_reader
   \<and> same_buffer sample_reader (sample_reader\<lparr>cursor := 42\<rparr>)"
  using read_record_advances [OF sample_read_record] by blast

lemma reader_wf_same_buffer: "same_buffer st st' \<Longrightarrow> reader_wf st \<Longrightarrow> reader_wf st'"
  by (simp add: reader_wf_def same_buffer_fields)

lemma reader_wf_cursor [simp]: "reader_wf (st\<lparr>cursor := c\<rparr>) = reader_wf st"
  by (simp add: reader_wf_def)

lemma dmap_read_stream_wf: "dmap_read_stream bs = Inr st \<Longrightarrow> reader_wf st \<and> cursor st = 0"
  by (auto simp: dmap_read_stream_def reader_wf_def Let_def split: if_splits)

text \<open>\<open>read_data\<close> at a numeric format, on a well-formed state with the cursor
  inside the buffer: it succeeds exactly when the item fits before the end, and
  then returns the item \<open>struct\<close> unpacks from the bytes at the cursor.\<close>

lemma struct_unpack_single:
  "f \<notin> {Fnone, Fc, Fs} \<Longrightarrow> \<exists>x. struct_unpack f bs = [x]"
  by (cases f) auto

lemma read_data_num:
  assumes "reader_wf st" and "0 \<le> cursor st" and "f \<notin> {Fnone, Fc, Fs}" and "n = fmt_size f"
  shows "read_data f n st = Inr (v, st') \<longleftrightarrow>
    cursor st + int n \<le> dmap_end_bytes st
    \<and> v = hd (struct_unpack f (take n (drop (nat (cursor st)) (dmap_bytearr st))))
    \<and> st' = st\<lparr>cursor := cursor st + int n\<rparr>"
proof -
  have pos: "0 < n" "f \<noteq> Fc" "f \<noteq> Fs"
    using assms(3,4) by (cases f; simp)+
  show ?thesis
    using assms(1,2) pos
      struct_unpack_single [OF assms(3), of "take n (drop (nat (cursor st)) (dmap_bytearr st))"]
    by (auto simp: read_data_def reader_wf_def Let_def unpack_from_def unpack_offset_nonneg assms(4)
             split: list.splits)
qed

end
