(* ===== verification/Dmap_File.thy ===== *)
theory Dmap_File
  imports Dmap_Read
begin

text \<open>
  The two loops of \<open>DmapRead\<close> that walk the whole buffer:
  \<open>read_records\<close>, which calls \<open>read_record\<close> until the cursor reaches the
  end, and the integrity prescan \<open>test_initial_data_integrity\<close>, which only
  follows the block sizes.  Both terminate because every block size the code
  accepts is positive: \<open>read_records_loop\<close> by \<open>read_record_progress\<close>, the
  prescan by its own \<open>zero_negative_check\<close>.  \<open>blocks_from\<close> is the abstract
  specification of what the prescan accepts.
\<close>

section \<open>read_records\<close>

function read_records_loop :: "dmap_read \<Rightarrow> error + dmap_read" where
  "read_records_loop st =
     (if cursor st < dmap_end_bytes st then
        (case read_record st of
           Inl e \<Rightarrow> Inl e
         | Inr (r, st') \<Rightarrow> read_records_loop (st'\<lparr>dmap_records := dmap_records st' @ [r]\<rparr>))
      else Inr st)"
  by pat_completeness auto
termination
  by (relation "measure (\<lambda>st. nat (dmap_end_bytes st - cursor st))")
     (auto dest!: read_record_progress simp: same_buffer_fields)

declare read_records_loop.simps [simp del]

text \<open>\<open>read_records()\<close>: the loop, then the check that the cursor did not
  pass the end.\<close>

definition read_records :: "dmap_read \<Rightarrow> error + (dmap_record list \<times> dmap_read)" where
  "read_records st =
     (case read_records_loop st of
        Inl e \<Rightarrow> Inl e
      | Inr st' \<Rightarrow>
          (case bytes_check (cursor st') (dmap_end_bytes st') st' of
             Inl e \<Rightarrow> Inl e
           | Inr _ \<Rightarrow> Inr (dmap_records st', st')))"

text \<open>The reader as a client uses it: \<open>DmapRead(stream, True).read_records()\<close>.\<close>

definition read_dmap_stream :: "byte list \<Rightarrow> error + dmap_record list" where
  "read_dmap_stream bs =
     (case dmap_read_stream bs of
        Inl e \<Rightarrow> Inl e
      | Inr st \<Rightarrow>
          (case read_records st of
             Inl e \<Rightarrow> Inl e
           | Inr (recs, _) \<Rightarrow> Inr recs))"

section \<open>The integrity prescan\<close>

text \<open>The loop of \<open>test_initial_data_integrity()\<close>: skip the encoding
  identifier, read the block size, add it to the running total, check the total
  against the buffer length, and jump over the rest of the block.\<close>

function prescan_loop :: "int \<Rightarrow> dmap_read \<Rightarrow> error + (int \<times> dmap_read)" where
  "prescan_loop total_block_size st =
     (if cursor st < dmap_end_bytes st then
        (case read_data Fi 4 (st\<lparr>cursor := cursor st + 4\<rparr>) of
           Inl e \<Rightarrow> Inl e
         | Inr (bv, st1) \<Rightarrow>
             (let block_size = int_of bv in
              case zero_negative_check block_size st1 of
                Inl e \<Rightarrow> Inl e
              | Inr _ \<Rightarrow>
                  (let total' = total_block_size + block_size in
                   case bytes_check total' (dmap_end_bytes st1) st1 of
                     Inl e \<Rightarrow> Inl e
                   | Inr _ \<Rightarrow>
                       prescan_loop total' (st1\<lparr>cursor := cursor st1 + block_size - 2 * 4\<rparr>))))
      else Inr (total_block_size, st))"
  by pat_completeness auto
termination
  by (relation "measure (\<lambda>(t, st). nat (dmap_end_bytes st - cursor st))")
     (auto dest!: read_data_step simp: zero_negative_check_def split: if_splits)

declare prescan_loop.simps [simp del]

text \<open>\<open>test_initial_data_integrity()\<close>.  The final mismatch branch raises
  \<open>DmapDataError(self.data_file, ...)\<close>, and \<open>DmapRead\<close> has no attribute
  \<open>data_file\<close>: that branch would raise \<open>AttributeError\<close>.\<close>

definition test_initial_data_integrity :: "dmap_read \<Rightarrow> error + dmap_read" where
  "test_initial_data_integrity st =
     (if cursor st \<noteq> 0 then Inl (CursorError (cursor st))
      else
        (case prescan_loop 0 st of
           Inl e \<Rightarrow> Inl e
         | Inr (total_block_size, st') \<Rightarrow>
             if total_block_size \<noteq> dmap_end_bytes st' then Inl AttributeError
             else Inr (st'\<lparr>cursor := 0\<rparr>)))"

text \<open>What the prescan accepts, stated on the buffer alone: from position
  \<open>p\<close> the buffer is a chain of blocks, each with a positive size field at
  \<open>p + 4\<close> that keeps the chain inside the buffer, ending exactly at the end.\<close>

inductive blocks_from :: "byte list \<Rightarrow> int \<Rightarrow> bool" where
  blocks_end: "p = int (length arr) \<Longrightarrow> blocks_from arr p"
| blocks_step: "0 \<le> p \<Longrightarrow> p + 8 \<le> int (length arr) \<Longrightarrow>
    le_sint (take 4 (drop (nat (p + 4)) arr)) = s \<Longrightarrow> 0 < s \<Longrightarrow>
    p + s \<le> int (length arr) \<Longrightarrow> blocks_from arr (p + s) \<Longrightarrow> blocks_from arr p"

section \<open>Properties\<close>

lemma prescan_loop_inv:
  "prescan_loop t st = Inr (t', st') \<Longrightarrow>
   cursor st' - t' = cursor st - t \<and> dmap_end_bytes st \<le> cursor st' \<and> same_buffer st st'
   \<and> (t \<le> dmap_end_bytes st \<longrightarrow> t' \<le> dmap_end_bytes st)"
proof (induction t st arbitrary: t' st' rule: prescan_loop.induct)
  case (1 t st)
  show ?case
  proof (cases "cursor st < dmap_end_bytes st")
    case False
    with "1.prems" show ?thesis
      by (simp add: prescan_loop.simps [of t st])
  next
    case True
    with "1.prems" obtain bv st1 where
          rd: "read_data Fi 4 (st\<lparr>cursor := cursor st + 4\<rparr>) = Inr (bv, st1)"
      and zn: "zero_negative_check (int_of bv) st1 = Inr ()"
      and bc: "bytes_check (t + int_of bv) (dmap_end_bytes st1) st1 = Inr ()"
      and rec: "prescan_loop (t + int_of bv) (st1\<lparr>cursor := cursor st1 + int_of bv - 2 * 4\<rparr>) = Inr (t', st')"
      by (auto simp: prescan_loop.simps [of t st] Let_def split: sum.splits prod.splits)
    from zn bc have pos: "0 < int_of bv" and le: "t + int_of bv \<le> dmap_end_bytes st1"
      by (auto simp: zero_negative_check_def bytes_check_def split: if_splits)
    from rd have st1: "st1 = st\<lparr>cursor := cursor st + 8\<rparr>"
      by (auto dest!: read_data_step)
    have IH: "cursor st' - t' = cursor st + int_of bv - (t + int_of bv)
       \<and> dmap_end_bytes st \<le> cursor st' \<and> same_buffer (st\<lparr>cursor := cursor st + int_of bv\<rparr>) st'
       \<and> (t + int_of bv \<le> dmap_end_bytes st \<longrightarrow> t' \<le> dmap_end_bytes st)"
      using "1.IH" [OF True rd refl refl zn refl bc rec] st1
      by simp
    have "same_buffer st st'"
      using IH same_buffer_trans [OF same_buffer_upd] by blast
    with IH le st1 show ?thesis
      by simp
  qed
qed

lemma scan_nul_Inl: "scan_nul arr e c k = Inl err \<Longrightarrow> err = IndexError"
proof (induction arr e c k rule: scan_nul.induct)
  case (1 arr e c k)
  then show ?case
    by (subst (asm) scan_nul.simps) (auto split: option.splits if_splits)
qed

lemma read_data_not_attribute_error: "read_data f n st \<noteq> Inl AttributeError"
  by (auto simp: read_data_def Let_def bytes_check_def unpack_from_def unpack_from_s_def
                 unpack_offset_def
           split: if_splits option.splits sum.splits list.splits dest: scan_nul_Inl)

lemma prescan_loop_not_attribute_error: "prescan_loop t st \<noteq> Inl AttributeError"
proof (induction t st rule: prescan_loop.induct)
  case (1 t st)
  show ?case
    using "1.IH" read_data_not_attribute_error
    by (subst prescan_loop.simps)
       (auto simp: Let_def zero_negative_check_def bytes_check_def split: sum.splits prod.splits if_splits)
qed

text \<open>C3: The prescan never reaches its final mismatch branch, the one that
  would raise \<open>AttributeError\<close> (\<open>self.data_file\<close> does not exist): on a
  well-formed reader the loop keeps \<open>cursor - total_block_size\<close> constant and
  \<open>total_block_size \<le> dmap_end_bytes\<close>, so it stops with the two equal.\<close>

theorem prescan_never_attribute_error:
  "reader_wf st \<Longrightarrow> test_initial_data_integrity st \<noteq> Inl AttributeError"
proof
  assume wf: "reader_wf st" and att: "test_initial_data_integrity st = Inl AttributeError"
  then have c0: "cursor st = 0"
    by (simp add: test_initial_data_integrity_def split: if_splits)
  with att prescan_loop_not_attribute_error obtain t st' where
      lp: "prescan_loop 0 st = Inr (t, st')" and ne: "t \<noteq> dmap_end_bytes st'"
    by (auto simp: test_initial_data_integrity_def split: sum.splits prod.splits if_splits)
  from prescan_loop_inv [OF lp] c0 wf have "t = dmap_end_bytes st"
    by (auto simp: reader_wf_def)
  with prescan_loop_inv [OF lp] ne show False
    by (auto dest!: same_buffer_fields)
qed

lemma sample_prescan:
  "test_initial_data_integrity sample_reader = Inr sample_reader"
  by code_simp

theorem prescan_never_attribute_error_witness:
  "reader_wf sample_reader \<and> test_initial_data_integrity sample_reader \<noteq> Inl AttributeError"
proof -
  have wf: "reader_wf sample_reader"
    by (simp add: reader_wf_def)
  show ?thesis
    using wf prescan_never_attribute_error [OF wf] by simp
qed

lemma read_block_size:
  assumes "reader_wf st" and "0 \<le> cursor st"
  shows "read_data Fi 4 (st\<lparr>cursor := cursor st + 4\<rparr>) = Inr (v, st1) \<longleftrightarrow>
    cursor st + 8 \<le> dmap_end_bytes st
    \<and> v = PInt (le_sint (take 4 (drop (nat (cursor st + 4)) (dmap_bytearr st))))
    \<and> st1 = st\<lparr>cursor := cursor st + 8\<rparr>"
  using read_data_num [of "st\<lparr>cursor := cursor st + 4\<rparr>" Fi 4 v st1] assms
  by auto

lemma prescan_loop_blocks:
  "prescan_loop t st = Inr r \<Longrightarrow> reader_wf st \<Longrightarrow> 0 \<le> cursor st \<Longrightarrow> t = cursor st \<Longrightarrow>
   cursor st \<le> dmap_end_bytes st \<Longrightarrow> blocks_from (dmap_bytearr st) (cursor st)"
proof (induction t st arbitrary: r rule: prescan_loop.induct)
  case (1 t st)
  show ?case
  proof (cases "cursor st < dmap_end_bytes st")
    case False
    with "1.prems" show ?thesis
      by (auto simp: reader_wf_def intro: blocks_end)
  next
    case True
    with "1.prems"(1) obtain bv st1 where
          rd: "read_data Fi 4 (st\<lparr>cursor := cursor st + 4\<rparr>) = Inr (bv, st1)"
      and zn: "zero_negative_check (int_of bv) st1 = Inr ()"
      and bc: "bytes_check (t + int_of bv) (dmap_end_bytes st1) st1 = Inr ()"
      and rec: "prescan_loop (t + int_of bv) (st1\<lparr>cursor := cursor st1 + int_of bv - 2 * 4\<rparr>) = Inr r"
      by (auto simp: prescan_loop.simps [of t st] Let_def split: sum.splits prod.splits)
    from rd "1.prems"(2,3) have le8: "cursor st + 8 \<le> dmap_end_bytes st"
      and bv: "bv = PInt (le_sint (take 4 (drop (nat (cursor st + 4)) (dmap_bytearr st))))"
      and st1: "st1 = st\<lparr>cursor := cursor st + 8\<rparr>"
      by (simp_all add: read_block_size)
    from zn bc st1 have pos: "0 < int_of bv" and le: "t + int_of bv \<le> dmap_end_bytes st"
      by (auto simp: zero_negative_check_def bytes_check_def split: if_splits)
    have "blocks_from (dmap_bytearr st) (cursor st + int_of bv)"
      using "1.IH" [OF True rd refl refl zn refl bc rec] st1 "1.prems"(2,3,4) pos le
      by simp
    with "1.prems"(2,3) le8 bv pos le show ?thesis
      by (auto simp: reader_wf_def "1.prems"(4) intro: blocks_step)
  qed
qed

lemma blocks_prescan_loop:
  "blocks_from arr p \<Longrightarrow> reader_wf st \<Longrightarrow> dmap_bytearr st = arr \<Longrightarrow> cursor st = p \<Longrightarrow>
   \<exists>r. prescan_loop p st = Inr r"
proof (induction arbitrary: st rule: blocks_from.induct)
  case (blocks_end p arr)
  then show ?case
    by (subst prescan_loop.simps) (simp add: reader_wf_def)
next
  case (blocks_step p arr s)
  let ?st1 = "st\<lparr>cursor := p + 8\<rparr>"
  have rd: "read_data Fi 4 (st\<lparr>cursor := cursor st + 4\<rparr>) = Inr (PInt s, ?st1)"
    using read_block_size [of st "PInt s" ?st1] blocks_step.prems blocks_step.hyps(1,2,3)
    by (simp add: reader_wf_def)
  obtain r where "prescan_loop (p + s) (?st1\<lparr>cursor := cursor ?st1 + s - 2 * 4\<rparr>) = Inr r"
    using blocks_step.IH [of "?st1\<lparr>cursor := cursor ?st1 + s - 2 * 4\<rparr>"] blocks_step.prems
    by auto
  moreover have "p < dmap_end_bytes st"
    using blocks_step.prems blocks_step.hyps(2) by (simp add: reader_wf_def)
  ultimately show ?case
    using rd blocks_step.prems blocks_step.hyps(4,5)
    by (simp add: prescan_loop.simps [of p st] zero_negative_check_def bytes_check_def reader_wf_def)
qed

lemma blocks_prescan_accepts:
  assumes "reader_wf st" and "cursor st = 0" and "blocks_from (dmap_bytearr st) 0"
  shows "\<exists>st'. test_initial_data_integrity st = Inr st'"
proof -
  obtain t st' where lp: "prescan_loop 0 st = Inr (t, st')"
    using blocks_prescan_loop [of "dmap_bytearr st" 0 st] assms by auto
  from prescan_loop_inv [OF lp] assms have "t = dmap_end_bytes st'"
    by (auto simp: reader_wf_def dest!: same_buffer_fields)
  with lp assms(2) show ?thesis
    by (simp add: test_initial_data_integrity_def)
qed

text \<open>C2: The prescan accepts a well-formed reader at offset 0 exactly when its
  buffer is a chain of blocks (\<open>blocks_from\<close>): the loop refines the
  specification.\<close>

theorem prescan_accepts_iff_blocks:
  assumes "reader_wf st" and "cursor st = 0"
  shows "(\<exists>st'. test_initial_data_integrity st = Inr st') \<longleftrightarrow> blocks_from (dmap_bytearr st) 0"
proof
  assume "\<exists>st'. test_initial_data_integrity st = Inr st'"
  then obtain r where "prescan_loop 0 st = Inr r"
    using assms(2) by (auto simp: test_initial_data_integrity_def split: sum.splits)
  with assms show "blocks_from (dmap_bytearr st) 0"
    using prescan_loop_blocks [of 0 st r] by (auto simp: reader_wf_def)
next
  assume "blocks_from (dmap_bytearr st) 0"
  with assms show "\<exists>st'. test_initial_data_integrity st = Inr st'"
    by (rule blocks_prescan_accepts)
qed

theorem prescan_accepts_iff_blocks_witness:
  "reader_wf sample_reader \<and> cursor sample_reader = 0 \<and> blocks_from sample_block 0"
proof -
  have wf: "reader_wf sample_reader"
    by (simp add: reader_wf_def)
  have c0: "cursor sample_reader = 0"
    by simp
  have "\<exists>st'. test_initial_data_integrity sample_reader = Inr st'"
    using sample_prescan by blast
  with prescan_accepts_iff_blocks [OF wf c0] wf show ?thesis
    by simp
qed

lemma read_records_loop_end:
  "read_records_loop st = Inr st' \<Longrightarrow> cursor st \<le> dmap_end_bytes st \<Longrightarrow>
   cursor st' = dmap_end_bytes st \<and> dmap_bytearr st' = dmap_bytearr st
   \<and> dmap_end_bytes st' = dmap_end_bytes st \<and> (\<exists>new. dmap_records st' = dmap_records st @ new)"
proof (induction st rule: read_records_loop.induct)
  case (1 st)
  show ?case
  proof (cases "cursor st < dmap_end_bytes st")
    case False
    with "1.prems" show ?thesis
      by (simp add: read_records_loop.simps [of st])
  next
    case True
    with "1.prems"(1) obtain r st1 where
          rr: "read_record st = Inr (r, st1)"
      and rec: "read_records_loop (st1\<lparr>dmap_records := dmap_records st1 @ [r]\<rparr>) = Inr st'"
      by (auto simp: read_records_loop.simps [of st] split: sum.splits prod.splits)
    from read_record_progress [OF rr] have adv: "cursor st1 \<le> dmap_end_bytes st"
      and fr: "dmap_end_bytes st1 = dmap_end_bytes st \<and> dmap_bytearr st1 = dmap_bytearr st
               \<and> dmap_records st1 = dmap_records st"
      by (auto dest!: same_buffer_fields)
    from "1.IH" [OF True rr refl rec] adv fr show ?thesis
      by auto
  qed
qed

text \<open>C4: \<open>read_records\<close> succeeds only by consuming the buffer exactly: the
  cursor ends at the end of the buffer, the buffer is untouched, and the records
  read are appended after the ones already held.\<close>

theorem read_records_consumes_buffer:
  assumes "cursor st \<le> dmap_end_bytes st" and "read_records st = Inr (recs, st')"
  shows "cursor st' = dmap_end_bytes st \<and> dmap_bytearr st' = dmap_bytearr st
    \<and> (\<exists>new. recs = dmap_records st @ new)"
proof -
  from assms(2) obtain st'' where lp: "read_records_loop st = Inr st''" and eq: "st' = st''"
    and recs: "recs = dmap_records st''"
    by (auto simp: read_records_def split: sum.splits)
  from read_records_loop_end [OF lp assms(1)] eq recs show ?thesis
    by auto
qed

lemma sample_read_records:
  "read_records sample_reader =
     Inr ([sample_record], sample_reader\<lparr>cursor := 42, dmap_records := [sample_record]\<rparr>)"
  by code_simp

theorem read_records_consumes_buffer_witness:
  "cursor sample_reader \<le> dmap_end_bytes sample_reader
   \<and> cursor (sample_reader\<lparr>cursor := 42, dmap_records := [sample_record]\<rparr>) = dmap_end_bytes sample_reader
   \<and> (\<exists>new. [sample_record] = dmap_records sample_reader @ new)"
proof -
  have le: "cursor sample_reader \<le> dmap_end_bytes sample_reader"
    by simp
  show ?thesis
    using read_records_consumes_buffer [OF le sample_read_records] le by simp
qed

end
