(* ===== verification/Dmap_Write.thy ===== *)
theory Dmap_Write
  imports Dmap_Types
begin

text \<open>
  The writer \<open>DmapWrite\<close> of \<open>src/pydarn/pydmap/io.py\<close>: the three field
  checks that compare a record with a product's file structure (a list of
  dictionaries from field name to \<open>struct\<close> format), the encoders of a
  scalar, an array and a record, and the stream writers that drive them.  The
  product tables themselves (\<open>superdarn_formats\<close>) are not part of this
  repository; the writers take them as the parameter \<open>superdarn_formats\<close>.
  The state is the record \<open>dmap_write\<close>; a writer returns the bytes it built
  or the exception it raised.
\<close>

record dmap_write =
  w_records :: "dmap_record list"
  w_bytearr :: "byte list"
  w_filename :: pystr

text \<open>One dictionary of a product's file structure: field name \<open>\<mapsto>\<close> format.\<close>

type_synonym file_struct = "(pystr \<times> fmt) list"

text \<open>The tables of \<open>superdarn_formats\<close> the writers use.\<close>

record superdarn_formats =
  iqdat_types :: file_struct
  rawacf_types :: file_struct
  fitacf_types :: file_struct
  grid_types :: file_struct
  grid_extra_fields :: file_struct
  map_types :: file_struct
  map_extra_fields :: file_struct
  map_fit_fields :: file_struct
  map_model_fields :: file_struct
  map_hmb_fields :: file_struct

section \<open>Field checks\<close>

definition dict_key_diff :: "'k set \<Rightarrow> 'k set \<Rightarrow> 'k set" where
  "dict_key_diff dict1 dict2 = dict1 - dict2"

text \<open>\<open>dict_list2set\<close>: the union of the keys; \<open>set.union()\<close> of no sets is a
  \<open>TypeError\<close>.\<close>

definition dict_list2set :: "file_struct list \<Rightarrow> error + pystr set" where
  "dict_list2set dict_list =
     (if dict_list = [] then Inl TypeError
      else Inr (\<Union>d \<in> set dict_list. set (map fst d)))"

definition record_keys :: "dmap_record \<Rightarrow> pystr set" where
  "record_keys record = set (map fst record)"

text \<open>\<open>missing_field_check\<close>: a group of the structure is reported when some,
  but not all, of its fields are present.\<close>

definition missing_field_check :: "file_struct list \<Rightarrow> dmap_record \<Rightarrow> nat \<Rightarrow> error + unit" where
  "missing_field_check file_struct_list record rnum =
     (case dict_list2set file_struct_list of
        Inl e \<Rightarrow> Inl e
      | Inr complete_set \<Rightarrow>
          (let missing_fields =
             fold (\<lambda>file_struct missing.
                     let diff_fields = dict_key_diff (set (map fst file_struct))
                                         (record_keys record \<inter> complete_set)
                     in if card diff_fields \<notin> {0, card (set (map fst file_struct))}
                        then missing \<union> diff_fields else missing)
                  file_struct_list {}
           in if 0 < card missing_fields then Inl (SuperDARNFieldMissing rnum missing_fields)
              else Inr ()))"

definition extra_field_check :: "file_struct list \<Rightarrow> dmap_record \<Rightarrow> nat \<Rightarrow> error + unit" where
  "extra_field_check file_struct_list record rnum =
     (case dict_list2set file_struct_list of
        Inl e \<Rightarrow> Inl e
      | Inr file_struct \<Rightarrow>
          (let extra_fields = dict_key_diff (record_keys record) file_struct
           in if 0 < card extra_fields then Inl (SuperDARNFieldExtra rnum extra_fields)
              else Inr ()))"

text \<open>The comprehension of \<open>incorrect_types_check\<close>, over the record's keys in
  order; \<open>complete_dict[param]\<close> raises \<open>KeyError\<close> for a key the structure
  does not have.\<close>

fun incorrect_types :: "(pystr \<rightharpoonup> fmt) \<Rightarrow> dmap_record \<Rightarrow> error + (pystr \<times> fmt) list" where
  "incorrect_types complete_dict [] = Inr []"
| "incorrect_types complete_dict ((param, fld) # rest) =
     (case complete_dict param of
        None \<Rightarrow> Inl KeyError
      | Some f \<Rightarrow>
          (case incorrect_types complete_dict rest of
             Inl e \<Rightarrow> Inl e
           | Inr bad \<Rightarrow> Inr (if field_fmt fld \<noteq> f then (param, f) # bad else bad)))"

text \<open>\<open>complete_dict.update(file_struct)\<close> for each structure in turn: a later
  structure overrides an earlier one.\<close>

definition complete_dict :: "file_struct list \<Rightarrow> pystr \<rightharpoonup> fmt" where
  "complete_dict file_struct_list = map_of (concat (rev file_struct_list))"

definition incorrect_types_check :: "file_struct list \<Rightarrow> dmap_record \<Rightarrow> nat \<Rightarrow> error + unit" where
  "incorrect_types_check file_struct_list record rnum =
     (case incorrect_types (complete_dict file_struct_list) record of
        Inl e \<Rightarrow> Inl e
      | Inr bad \<Rightarrow> if 0 < length bad then Inl (SuperDARNDataFormatError bad rnum) else Inr ())"

section \<open>Encoders\<close>

text \<open>\<open>chr(i).encode('utf-8')\<close>.\<close>

definition chr_encode :: "int \<Rightarrow> error + byte list" where
  "chr_encode i =
     (if i < 0 \<or> 1114112 \<le> i then Inl ValueError
      else (case utf8_encode_cp i of None \<Rightarrow> Inl UnicodeEncodeError | Some bs \<Rightarrow> Inr bs))"

text \<open>\<open>struct.pack('%ds' % len(s), s.encode('utf-8'))\<close> for \<open>s = "{0}\0".format(x)\<close>:
  the length is counted in code points, so a non-ASCII text is cut short.\<close>

definition pack_cstring :: "pystr \<Rightarrow> error + byte list" where
  "pack_cstring s =
     (let t = s @ [0] in
      case utf8_encode t of
        None \<Rightarrow> Inl UnicodeEncodeError
      | Some bs \<Rightarrow> Inr (pack_s (length t) bs))"

text \<open>\<open>"{0}".format(v)\<close>: a \<open>str\<close> as it is, an \<open>int\<close> in decimal.\<close>

fun py_format :: "pyval \<Rightarrow> error + pystr" where
  "py_format (PStr s) = Inr s"
| "py_format (PInt i) = Inr (py_str_int i)"
| "py_format v = Inl OutsideModel"

text \<open>The type byte, \<open>struct.pack('c', chr(data_type).encode('utf-8'))\<close>.\<close>

definition type_byte :: "int \<Rightarrow> error + byte list" where
  "type_byte data_type =
     (case chr_encode data_type of
        Inl e \<Rightarrow> Inl e
      | Inr b \<Rightarrow> struct_pack Fc (PBytes b))"

definition dmap_scalar_to_bytes :: "dmap_scalar \<Rightarrow> error + byte list" where
  "dmap_scalar_to_bytes scalar =
     (case pack_cstring (s_name scalar) of
        Inl e \<Rightarrow> Inl e
      | Inr scalar_name_bytes \<Rightarrow>
     (case type_byte (s_data_type scalar) of
        Inl e \<Rightarrow> Inl e
      | Inr scalar_type_bytes \<Rightarrow>
     (case (if s_data_type_fmt scalar = Fs then
              (case py_format (s_value scalar) of
                 Inl e \<Rightarrow> Inl e
               | Inr t \<Rightarrow> pack_cstring t)
            else if s_data_type_fmt scalar = Fc then
              (case s_value scalar of
                 PInt i \<Rightarrow> chr_encode i
               | _ \<Rightarrow> Inl TypeError)
            else struct_pack (s_data_type_fmt scalar) (s_value scalar)) of
        Inl e \<Rightarrow> Inl e
      | Inr scalar_data_bytes \<Rightarrow> Inr (scalar_name_bytes @ scalar_type_bytes @ scalar_data_bytes))))"

text \<open>\<open>struct.pack('i', x)\<close> for each \<open>x\<close> of a list, concatenated.\<close>

fun pack_ints :: "int list \<Rightarrow> error + byte list" where
  "pack_ints [] = Inr []"
| "pack_ints (x # xs) =
     (case struct_pack Fi (PInt x) of
        Inl e \<Rightarrow> Inl e
      | Inr b \<Rightarrow> (case pack_ints xs of Inl e \<Rightarrow> Inl e | Inr bs \<Rightarrow> Inr (b @ bs)))"

text \<open>\<open>dmap_array_to_bytes\<close>: the shape is written in the order it is held.\<close>

definition dmap_array_to_bytes :: "dmap_array \<Rightarrow> error + byte list" where
  "dmap_array_to_bytes array =
     (case pack_cstring (a_name array) of
        Inl e \<Rightarrow> Inl e
      | Inr array_name_bytes \<Rightarrow>
     (case type_byte (a_data_type array) of
        Inl e \<Rightarrow> Inl e
      | Inr array_type_bytes \<Rightarrow>
     (case pack_ints [a_dimension array] of
        Inl e \<Rightarrow> Inl e
      | Inr array_dim_bytes \<Rightarrow>
     (case pack_ints (a_shape array) of
        Inl e \<Rightarrow> Inl e
      | Inr array_shape_bytes \<Rightarrow>
          Inr (array_name_bytes @ array_type_bytes @ array_dim_bytes @ array_shape_bytes
               @ np_tostring (a_value array))))))"

text \<open>The loop of \<open>__dmap_record_to_bytes\<close> over the fields in dictionary
  order: the payload and the scalar and array counts.\<close>

fun encode_fields :: "dmap_record \<Rightarrow> error + (byte list \<times> nat \<times> nat)" where
  "encode_fields [] = Inr ([], 0, 0)"
| "encode_fields ((name, Scalar s) # rest) =
     (case dmap_scalar_to_bytes s of
        Inl e \<Rightarrow> Inl e
      | Inr b \<Rightarrow>
          (case encode_fields rest of
             Inl e \<Rightarrow> Inl e
           | Inr (d, ns, na) \<Rightarrow> Inr (b @ d, Suc ns, na)))"
| "encode_fields ((name, Array a) # rest) =
     (case dmap_array_to_bytes a of
        Inl e \<Rightarrow> Inl e
      | Inr b \<Rightarrow>
          (case encode_fields rest of
             Inl e \<Rightarrow> Inl e
           | Inr (d, ns, na) \<Rightarrow> Inr (b @ d, ns, Suc na)))"

text \<open>\<open>__dmap_record_to_bytes\<close>: the header (encoding identifier \<open>65537\<close>, block
  size \<open>len(payload) + 16\<close>, the two counts) and the payload.\<close>

definition dmap_record_to_bytes :: "dmap_record \<Rightarrow> error + byte list" where
  "dmap_record_to_bytes record =
     (case encode_fields record of
        Inl e \<Rightarrow> Inl e
      | Inr (data_bytearray, num_scalars, num_arrays) \<Rightarrow>
          (let block_size = int (length data_bytearray) + 16 in
           case pack_ints [65537, block_size, int num_scalars, int num_arrays] of
             Inl e \<Rightarrow> Inl e
           | Inr header \<Rightarrow> Inr (header @ data_bytearray)))"

definition append_record :: "dmap_record \<Rightarrow> dmap_write \<Rightarrow> error + dmap_write" where
  "append_record record st =
     (case dmap_record_to_bytes record of
        Inl e \<Rightarrow> Inl e
      | Inr bs \<Rightarrow> Inr (st\<lparr>w_bytearr := w_bytearr st @ bs\<rparr>))"

section \<open>Writers\<close>

text \<open>\<open>superDARN_file_structure_to_bytes\<close>: the three checks, then the
  encoding, record after record.\<close>

text \<open>The three checks of one record, in the order the loop makes them.\<close>

definition validate_record :: "file_struct list \<Rightarrow> dmap_record \<Rightarrow> nat \<Rightarrow> error + unit" where
  "validate_record fsl record rnum =
     (case extra_field_check fsl record rnum of
        Inl e \<Rightarrow> Inl e
      | Inr _ \<Rightarrow>
     (case missing_field_check fsl record rnum of
        Inl e \<Rightarrow> Inl e
      | Inr _ \<Rightarrow> incorrect_types_check fsl record rnum))"

fun structure_to_bytes_loop ::
  "file_struct list \<Rightarrow> nat \<Rightarrow> dmap_record list \<Rightarrow> dmap_write \<Rightarrow> error + dmap_write" where
  "structure_to_bytes_loop fsl rnum [] st = Inr st"
| "structure_to_bytes_loop fsl rnum (record # records) st =
     (case validate_record fsl record rnum of
        Inl e \<Rightarrow> Inl e
      | Inr _ \<Rightarrow>
     (case append_record record st of
        Inl e \<Rightarrow> Inl e
      | Inr st' \<Rightarrow> structure_to_bytes_loop fsl (Suc rnum) records st'))"

definition superDARN_file_structure_to_bytes :: "file_struct list \<Rightarrow> dmap_write \<Rightarrow> error + dmap_write" where
  "superDARN_file_structure_to_bytes fsl st = structure_to_bytes_loop fsl 0 (w_records st) st"

fun records_to_bytes_loop :: "dmap_record list \<Rightarrow> dmap_write \<Rightarrow> error + dmap_write" where
  "records_to_bytes_loop [] st = Inr st"
| "records_to_bytes_loop (record # records) st =
     (case append_record record st of
        Inl e \<Rightarrow> Inl e
      | Inr st' \<Rightarrow> records_to_bytes_loop records st')"

definition dmap_records_to_bytes :: "dmap_write \<Rightarrow> error + dmap_write" where
  "dmap_records_to_bytes st = records_to_bytes_loop (w_records st) st"

definition empty_record_check :: "dmap_write \<Rightarrow> error + unit" where
  "empty_record_check st = (if w_records st = [] then Inl DmapDataError else Inr ())"

definition filename_check :: "pystr \<Rightarrow> dmap_write \<Rightarrow> error + dmap_write" where
  "filename_check filename st =
     (if w_filename st = [] \<and> filename = [] then Inl FilenameRequiredError
      else if filename \<noteq> [] then Inr (st\<lparr>w_filename := filename\<rparr>)
      else Inr st)"

text \<open>\<open>write_dmap_stream(dmap_records)\<close>: the raw mode, no field checks.\<close>

definition write_dmap_stream :: "dmap_record list \<Rightarrow> dmap_write \<Rightarrow> error + (byte list \<times> dmap_write)" where
  "write_dmap_stream dmap_records st =
     (let st1 = (if w_records st = [] then st\<lparr>w_records := dmap_records\<rparr> else st) in
      case empty_record_check st1 of
        Inl e \<Rightarrow> Inl e
      | Inr _ \<Rightarrow>
          (case dmap_records_to_bytes st1 of
             Inl e \<Rightarrow> Inl e
           | Inr st2 \<Rightarrow> Inr (w_bytearr st2, st2)))"

text \<open>The body shared by \<open>write_rawacf_stream\<close>, \<open>write_fitacf_stream\<close>,
  \<open>write_grid_stream\<close> and \<open>write_map_stream\<close>.\<close>

definition write_format_stream ::
  "file_struct list \<Rightarrow> dmap_record list \<Rightarrow> dmap_write \<Rightarrow> error + (byte list \<times> dmap_write)" where
  "write_format_stream fsl data st =
     (let st1 = (if data \<noteq> [] then st\<lparr>w_records := data\<rparr> else st) in
      case empty_record_check st1 of
        Inl e \<Rightarrow> Inl e
      | Inr _ \<Rightarrow>
          (case superDARN_file_structure_to_bytes fsl st1 of
             Inl e \<Rightarrow> Inl e
           | Inr st2 \<Rightarrow> Inr (w_bytearr st2, st2)))"

definition write_rawacf_stream ::
  "superdarn_formats \<Rightarrow> dmap_record list \<Rightarrow> dmap_write \<Rightarrow> error + (byte list \<times> dmap_write)" where
  "write_rawacf_stream fm data st = write_format_stream [rawacf_types fm] data st"

definition write_fitacf_stream ::
  "superdarn_formats \<Rightarrow> dmap_record list \<Rightarrow> dmap_write \<Rightarrow> error + (byte list \<times> dmap_write)" where
  "write_fitacf_stream fm data st = write_format_stream [fitacf_types fm] data st"

definition write_grid_stream ::
  "superdarn_formats \<Rightarrow> dmap_record list \<Rightarrow> dmap_write \<Rightarrow> error + (byte list \<times> dmap_write)" where
  "write_grid_stream fm data st =
     write_format_stream [grid_types fm, grid_extra_fields fm] data st"

definition write_map_stream ::
  "superdarn_formats \<Rightarrow> dmap_record list \<Rightarrow> dmap_write \<Rightarrow> error + (byte list \<times> dmap_write)" where
  "write_map_stream fm data st =
     write_format_stream [map_types fm, map_extra_fields fm, map_fit_fields fm,
                          map_model_fields fm, map_hmb_fields fm] data st"

text \<open>The file writers (\<open>write_iqdat\<close>, \<open>write_fitacf\<close>, ...): the same
  checks and encoding after \<open>__filename_check\<close>; the result is the file name and
  the bytes written to it.\<close>

definition write_format_file ::
  "file_struct list \<Rightarrow> pystr \<Rightarrow> dmap_write \<Rightarrow> error + (pystr \<times> byte list)" where
  "write_format_file fsl filename st =
     (case empty_record_check st of
        Inl e \<Rightarrow> Inl e
      | Inr _ \<Rightarrow>
          (case filename_check filename st of
             Inl e \<Rightarrow> Inl e
           | Inr st1 \<Rightarrow>
               (case superDARN_file_structure_to_bytes fsl st1 of
                  Inl e \<Rightarrow> Inl e
                | Inr st2 \<Rightarrow> Inr (w_filename st2, w_bytearr st2))))"

text \<open>The five file writers, each with the tables of its product;
  \<open>write_rawacf_file\<close> is \<open>DmapWrite.write_rawacf\<close>.\<close>

definition write_iqdat :: "superdarn_formats \<Rightarrow> pystr \<Rightarrow> dmap_write \<Rightarrow> error + (pystr \<times> byte list)" where
  "write_iqdat fm filename st = write_format_file [iqdat_types fm] filename st"

definition write_rawacf_file :: "superdarn_formats \<Rightarrow> pystr \<Rightarrow> dmap_write \<Rightarrow> error + (pystr \<times> byte list)" where
  "write_rawacf_file fm filename st = write_format_file [rawacf_types fm] filename st"

definition write_fitacf :: "superdarn_formats \<Rightarrow> pystr \<Rightarrow> dmap_write \<Rightarrow> error + (pystr \<times> byte list)" where
  "write_fitacf fm filename st = write_format_file [fitacf_types fm] filename st"

definition write_grid :: "superdarn_formats \<Rightarrow> pystr \<Rightarrow> dmap_write \<Rightarrow> error + (pystr \<times> byte list)" where
  "write_grid fm filename st =
     write_format_file [grid_types fm, grid_extra_fields fm] filename st"

definition write_map :: "superdarn_formats \<Rightarrow> pystr \<Rightarrow> dmap_write \<Rightarrow> error + (pystr \<times> byte list)" where
  "write_map fm filename st =
     write_format_file [map_types fm, map_extra_fields fm, map_fit_fields fm,
                        map_model_fields fm, map_hmb_fields fm] filename st"

definition write_dmap :: "pystr \<Rightarrow> dmap_write \<Rightarrow> error + (pystr \<times> byte list)" where
  "write_dmap filename st =
     (case empty_record_check st of
        Inl e \<Rightarrow> Inl e
      | Inr _ \<Rightarrow>
          (case filename_check filename st of
             Inl e \<Rightarrow> Inl e
           | Inr st1 \<Rightarrow>
               (case dmap_records_to_bytes st1 of
                  Inl e \<Rightarrow> Inl e
                | Inr st2 \<Rightarrow> Inr (w_filename st2, w_bytearr st2))))"

text \<open>What \<open>DmapWrite(dmap_records, filename, dmap_file_fmt)\<close> leaves behind:
  nothing, a file with its name and contents, or the bytes of a stream.\<close>

datatype write_effect = NoWrite | FileWritten pystr "byte list" | StreamBytes "byte list"

definition file_effect :: "error + (pystr \<times> byte list) \<Rightarrow> error + write_effect" where
  "file_effect r = (case r of Inl e \<Rightarrow> Inl e | Inr (fn, bs) \<Rightarrow> Inr (FileWritten fn bs))"

text \<open>\<open>DmapWrite.__init__\<close>: the state, then the dispatch on \<open>dmap_file_fmt\<close>;
  each writer is called with its default arguments.  The test
  \<open>dmap_file_fmt is ""\<close> is an identity test, true for the interned empty
  string that every empty \<open>str\<close> is in CPython; it is modelled as equality.\<close>

definition dmap_write_init ::
  "superdarn_formats \<Rightarrow> dmap_record list \<Rightarrow> pystr \<Rightarrow> pystr \<Rightarrow> error + write_effect" where
  "dmap_write_init fm dmap_records filename dmap_file_fmt =
     (let st = \<lparr>w_records = dmap_records, w_bytearr = [], w_filename = filename\<rparr> in
      if dmap_file_fmt = [] then Inr NoWrite
      else if dmap_file_fmt = py ''iqdat'' then file_effect (write_iqdat fm [] st)
      else if dmap_file_fmt = py ''rawacf'' then file_effect (write_rawacf_file fm [] st)
      else if dmap_file_fmt = py ''fitacf'' then file_effect (write_fitacf fm [] st)
      else if dmap_file_fmt = py ''grid'' then file_effect (write_grid fm [] st)
      else if dmap_file_fmt = py ''map'' then file_effect (write_map fm [] st)
      else if dmap_file_fmt = py ''dmap'' then file_effect (write_dmap [] st)
      else if dmap_file_fmt = py ''stream'' then
        (case write_dmap_stream [] st of Inl e \<Rightarrow> Inl e | Inr (bs, _) \<Rightarrow> Inr (StreamBytes bs))
      else Inl DmapFileFormatType)"

section \<open>The validator's contract\<close>

text \<open>What the three checks promise, as sets: the fields of a product's file
  structure, the members of a group that a record has only partly, and the
  records that conform (no foreign field, each group all present or all
  absent, each field with the declared type).\<close>

definition schema_fields :: "file_struct list \<Rightarrow> pystr set" where
  "schema_fields fsl = (\<Union>d \<in> set fsl. set (map fst d))"

definition partial_missing :: "file_struct list \<Rightarrow> pystr set \<Rightarrow> pystr set" where
  "partial_missing fsl present =
     (\<Union>g \<in> set fsl. if set (map fst g) \<inter> present \<noteq> {} \<and> \<not> set (map fst g) \<subseteq> present
                    then set (map fst g) - present else {})"

definition record_conforms :: "file_struct list \<Rightarrow> dmap_record \<Rightarrow> bool" where
  "record_conforms fsl r \<longleftrightarrow>
     record_keys r \<subseteq> schema_fields fsl
     \<and> (\<forall>g \<in> set fsl. set (map fst g) \<subseteq> record_keys r \<or> set (map fst g) \<inter> record_keys r = {})
     \<and> (\<forall>(p, fld) \<in> set r. complete_dict fsl p = Some (field_fmt fld))"

text \<open>The writer's output as a specification: every record encoded, concatenated.\<close>

fun encode_all :: "dmap_record list \<Rightarrow> error + byte list" where
  "encode_all [] = Inr []"
| "encode_all (r # rs) =
     (case dmap_record_to_bytes r of
        Inl e \<Rightarrow> Inl e
      | Inr b \<Rightarrow> (case encode_all rs of Inl e \<Rightarrow> Inl e | Inr bs \<Rightarrow> Inr (b @ bs)))"

text \<open>Sample inputs: a product with a required group \<open>a, b\<close> and an optional
  group \<open>c, d\<close>, a record with a field outside it, and one with half of the
  optional group.\<close>

abbreviation sample_schema :: "file_struct list" where
  "sample_schema \<equiv> [[(py ''a'', Fi), (py ''b'', Fi)], [(py ''c'', Ff), (py ''d'', Fi)]]"

abbreviation extra_record :: dmap_record where
  "extra_record \<equiv> (py ''x'', Scalar \<lparr>s_name = py ''x'', s_value = PInt 1, s_data_type = 3, s_data_type_fmt = Fi\<rparr>) # sample_record"

abbreviation partial_record :: dmap_record where
  "partial_record \<equiv> (py ''c'', Scalar \<lparr>s_name = py ''c'', s_value = PInt 1, s_data_type = 3, s_data_type_fmt = Fi\<rparr>) # sample_record"

abbreviation empty_formats :: superdarn_formats where
  "empty_formats \<equiv> \<lparr>iqdat_types = [], rawacf_types = [], fitacf_types = [], grid_types = [],
     grid_extra_fields = [], map_types = [], map_extra_fields = [], map_fit_fields = [],
     map_model_fields = [], map_hmb_fields = []\<rparr>"

abbreviation empty_write :: dmap_write where
  "empty_write \<equiv> \<lparr>w_records = [], w_bytearr = [], w_filename = []\<rparr>"

section \<open>The field checks against the contract\<close>

lemma fold_union_cond:
  "fold (\<lambda>x m. if P x then m \<union> D x else m) xs m0 = m0 \<union> (\<Union>x \<in> set xs. if P x then D x else {})"
  by (induction xs arbitrary: m0) auto

lemma card_diff_cases:
  assumes "finite A"
  shows "card (A - B) \<notin> {0, card A} \<longleftrightarrow> A \<inter> B \<noteq> {} \<and> \<not> A \<subseteq> B"
proof -
  have "card (A - B) = 0 \<longleftrightarrow> A \<subseteq> B" using assms by auto
  moreover have "card (A - B) = card A \<longleftrightarrow> A \<inter> B = {}"
  proof
    assume "card (A - B) = card A"
    then have "A - B = A" using assms by (metis Diff_subset card_subset_eq)
    then show "A \<inter> B = {}" by blast
  next
    assume "A \<inter> B = {}"
    then have "A - B = A" by blast
    then show "card (A - B) = card A" by simp
  qed
  ultimately show ?thesis by auto
qed

lemma missing_field_check_eq:
  assumes "fsl \<noteq> []"
  shows "missing_field_check fsl r n =
    (if partial_missing fsl (record_keys r) = {} then Inr ()
     else Inl (SuperDARNFieldMissing n (partial_missing fsl (record_keys r))))"
proof -
  let ?C = "schema_fields fsl"
  have sub: "set (map fst g) \<subseteq> ?C" if "g \<in> set fsl" for g
    using that by (auto simp: schema_fields_def)
  have diff: "dict_key_diff (set (map fst g)) (record_keys r \<inter> ?C) = set (map fst g) - record_keys r"
    if "g \<in> set fsl" for g
    using sub [OF that] by (auto simp: dict_key_diff_def)
  have cond: "(card (set (map fst g) - record_keys r) \<notin> {0, card (set (map fst g))}) \<longleftrightarrow>
      set (map fst g) \<inter> record_keys r \<noteq> {} \<and> \<not> set (map fst g) \<subseteq> record_keys r" for g
    by (rule card_diff_cases) simp
  have fin: "finite (partial_missing fsl (record_keys r))"
    by (simp add: partial_missing_def)
  let ?P = "\<lambda>g. set (map fst g) \<inter> record_keys r \<noteq> {} \<and> \<not> set (map fst g) \<subseteq> record_keys r"
  let ?D = "\<lambda>g. set (map fst g) - record_keys r"
  have step: "(\<lambda>missing. let diff_fields = dict_key_diff (set (map fst g)) (record_keys r \<inter> ?C)
                 in if card diff_fields \<notin> {0, card (set (map fst g))}
                    then missing \<union> diff_fields else missing)
            = (\<lambda>m. if ?P g then m \<union> ?D g else m)" if "g \<in> set fsl" for g
    by (simp only: Let_def diff [OF that] cond)
  have "fold (\<lambda>file_struct missing.
            let diff_fields = dict_key_diff (set (map fst file_struct)) (record_keys r \<inter> ?C)
            in if card diff_fields \<notin> {0, card (set (map fst file_struct))}
               then missing \<union> diff_fields else missing) fsl {}
        = fold (\<lambda>g m. if ?P g then m \<union> ?D g else m) fsl {}"
    by (rule fold_cong [OF refl refl]) (rule step)
  also have "\<dots> = partial_missing fsl (record_keys r)"
    by (simp add: fold_union_cond partial_missing_def)
  finally have fm: "fold (\<lambda>file_struct missing.
            let diff_fields = dict_key_diff (set (map fst file_struct)) (record_keys r \<inter> ?C)
            in if card diff_fields \<notin> {0, card (set (map fst file_struct))}
               then missing \<union> diff_fields else missing) fsl {}
        = partial_missing fsl (record_keys r)" .
  have d2s: "dict_list2set fsl = Inr ?C"
    using assms by (simp add: dict_list2set_def schema_fields_def)
  show ?thesis
    unfolding missing_field_check_def d2s sum.case fm
    using fin by (simp add: card_gt_0_iff)
qed


lemma dict_list2set_schema: "fsl \<noteq> [] \<Longrightarrow> dict_list2set fsl = Inr (schema_fields fsl)"
  by (simp add: dict_list2set_def schema_fields_def)

lemma finite_record_keys [simp]: "finite (record_keys r)"
  by (simp add: record_keys_def)

lemma extra_field_check_eq:
  assumes "fsl \<noteq> []"
  shows "extra_field_check fsl r n =
    (if record_keys r \<subseteq> schema_fields fsl then Inr ()
     else Inl (SuperDARNFieldExtra n (record_keys r - schema_fields fsl)))"
  using assms by (auto simp: extra_field_check_def dict_list2set_schema dict_key_diff_def card_gt_0_iff)

lemma dom_complete_dict: "dom (complete_dict fsl) = schema_fields fsl"
  by (auto simp: complete_dict_def schema_fields_def dom_map_of_conv_image_fst)

lemma incorrect_types_filter:
  "record_keys r \<subseteq> dom cd \<Longrightarrow>
   incorrect_types cd r =
     Inr (map (\<lambda>(p, fld). (p, the (cd p))) (filter (\<lambda>(p, fld). cd p \<noteq> Some (field_fmt fld)) r))"
  by (induction cd r rule: incorrect_types.induct) (auto simp: record_keys_def)

lemma incorrect_types_check_eq:
  assumes "record_keys r \<subseteq> schema_fields fsl"
  shows "incorrect_types_check fsl r n =
    (let bad = map (\<lambda>(p, fld). (p, the (complete_dict fsl p)))
                 (filter (\<lambda>(p, fld). complete_dict fsl p \<noteq> Some (field_fmt fld)) r)
     in if bad = [] then Inr () else Inl (SuperDARNDataFormatError bad n))"
  using assms by (simp add: incorrect_types_check_def incorrect_types_filter dom_complete_dict Let_def)

lemma validate_record_conforms:
  assumes "fsl \<noteq> []"
  shows "validate_record fsl r n = Inr () \<longleftrightarrow> record_conforms fsl r"
proof (cases "record_keys r \<subseteq> schema_fields fsl")
  case False
  then show ?thesis
    using assms by (simp add: validate_record_def extra_field_check_eq record_conforms_def)
next
  case True
  have pm: "partial_missing fsl (record_keys r) = {} \<longleftrightarrow>
     (\<forall>g \<in> set fsl. set (map fst g) \<subseteq> record_keys r \<or> set (map fst g) \<inter> record_keys r = {})"
    by (auto simp: partial_missing_def split: if_splits)
  have ty: "(\<forall>(p, fld) \<in> set r. complete_dict fsl p = Some (field_fmt fld)) \<longleftrightarrow>
     filter (\<lambda>(p, fld). complete_dict fsl p \<noteq> Some (field_fmt fld)) r = []"
    by (auto simp: filter_empty_conv)
  show ?thesis
    using True assms pm ty
    by (simp add: validate_record_def extra_field_check_eq missing_field_check_eq
                  incorrect_types_check_eq record_conforms_def Let_def)
qed


section \<open>The writers against the contract\<close>

text \<open>C6: Validation of one record is the first failing check, each naming
  exactly what is wrong: the fields outside the product's file structure
  (\<open>SuperDARNFieldExtra\<close>), else the missing members of every partly present
  group (\<open>SuperDARNFieldMissing\<close>; a group that is wholly absent is never
  reported, whether or not it is optional), else the fields whose stored type
  differs from the declared one with the declared type
  (\<open>SuperDARNDataFormatError\<close>), all with the record's index.\<close>

theorem validate_record_result:
  assumes "fsl \<noteq> []"
  shows "validate_record fsl r n =
    (if \<not> record_keys r \<subseteq> schema_fields fsl
     then Inl (SuperDARNFieldExtra n (record_keys r - schema_fields fsl))
     else if partial_missing fsl (record_keys r) \<noteq> {}
     then Inl (SuperDARNFieldMissing n (partial_missing fsl (record_keys r)))
     else let bad = map (\<lambda>(p, fld). (p, the (complete_dict fsl p)))
                    (filter (\<lambda>(p, fld). complete_dict fsl p \<noteq> Some (field_fmt fld)) r)
          in if bad = [] then Inr () else Inl (SuperDARNDataFormatError bad n))"
  using assms
  by (simp add: validate_record_def extra_field_check_eq missing_field_check_eq
                incorrect_types_check_eq)

theorem validate_record_result_witness:
  "validate_record sample_schema partial_record 3 = Inl (SuperDARNFieldMissing 3 {py ''d''})
   \<and> validate_record sample_schema extra_record 1 = Inl (SuperDARNFieldExtra 1 {py ''x''})"
proof -
  have "partial_missing sample_schema (record_keys partial_record) = {py ''d''}"
    by code_simp
  moreover have "record_keys partial_record \<subseteq> schema_fields sample_schema"
    by code_simp
  moreover have "record_keys extra_record - schema_fields sample_schema = {py ''x''}"
    by code_simp
  moreover have "\<not> record_keys extra_record \<subseteq> schema_fields sample_schema"
    by code_simp
  ultimately show ?thesis
    using validate_record_result [of sample_schema partial_record 3]
          validate_record_result [of sample_schema extra_record 1]
    by simp
qed

lemma structure_to_bytes_loop_append:
  "structure_to_bytes_loop fsl k (xs @ ys) st =
     (case structure_to_bytes_loop fsl k xs st of
        Inl e \<Rightarrow> Inl e
      | Inr st' \<Rightarrow> structure_to_bytes_loop fsl (k + length xs) ys st')"
  by (induction xs arbitrary: k st) (auto split: sum.splits)

lemma structure_to_bytes_loop_ok:
  assumes "fsl \<noteq> []"
  shows "structure_to_bytes_loop fsl k rs st = Inr st' \<longleftrightarrow>
    (\<forall>r \<in> set rs. record_conforms fsl r)
    \<and> (\<exists>b. encode_all rs = Inr b \<and> st' = st\<lparr>w_bytearr := w_bytearr st @ b\<rparr>)"
proof (induction rs arbitrary: k st)
  case Nil
  then show ?case by auto
next
  case (Cons r rs)
  show ?case
  proof (cases "record_conforms fsl r")
    case False
    then obtain e where "validate_record fsl r k = Inl e"
      using validate_record_conforms [OF assms, of r k] by (cases "validate_record fsl r k") auto
    with False show ?thesis by simp
  next
    case True
    then have v: "validate_record fsl r k = Inr ()"
      using validate_record_conforms [OF assms] by simp
    show ?thesis
      using Cons.IH True v
      by (auto simp: append_record_def split: sum.splits)
  qed
qed

lemma write_format_stream_Inr:
  "write_format_stream fsl data st = Inr (bs, st') \<Longrightarrow>
   \<exists>st1. structure_to_bytes_loop fsl 0 (w_records st1) st1 = Inr st' \<and> bs = w_bytearr st'
     \<and> st1 = (if data \<noteq> [] then st\<lparr>w_records := data\<rparr> else st)"
  unfolding write_format_stream_def superDARN_file_structure_to_bytes_def Let_def
  by (auto split: sum.splits)

text \<open>C5: A product writer (\<open>write_rawacf_stream\<close>, \<open>write_fitacf_stream\<close>,
  \<open>write_grid_stream\<close>, \<open>write_map_stream\<close>) given records succeeds exactly when
  every record conforms to the product's file structure and encodes; its output
  is then the encodings of the records in order, after what the writer held.\<close>

theorem write_format_stream_iff:
  assumes "fsl \<noteq> []" and "data \<noteq> []"
  shows "write_format_stream fsl data st = Inr (bs, st') \<longleftrightarrow>
    (\<forall>r \<in> set data. record_conforms fsl r)
    \<and> (\<exists>b. encode_all data = Inr b \<and> bs = w_bytearr st @ b
           \<and> st' = st\<lparr>w_records := data, w_bytearr := w_bytearr st @ b\<rparr>)"
  (is "?lhs \<longleftrightarrow> ?rhs")
proof
  assume ?lhs
  then obtain st1 where lp: "structure_to_bytes_loop fsl 0 (w_records st1) st1 = Inr st'"
      and bs: "bs = w_bytearr st'" and st1: "st1 = st\<lparr>w_records := data\<rparr>"
    using write_format_stream_Inr assms(2) by fastforce
  from lp show ?rhs
    unfolding structure_to_bytes_loop_ok [OF assms(1)] bs st1 by auto
next
  assume ?rhs
  then obtain b where conf: "\<forall>r \<in> set data. record_conforms fsl r" and enc: "encode_all data = Inr b"
      and bs: "bs = w_bytearr st @ b" and st': "st' = st\<lparr>w_records := data, w_bytearr := w_bytearr st @ b\<rparr>"
    by blast
  have "structure_to_bytes_loop fsl 0 data (st\<lparr>w_records := data\<rparr>) = Inr st'"
    using conf enc st' by (simp add: structure_to_bytes_loop_ok [OF assms(1)])
  then show ?lhs
    using assms(2) bs st'
    by (simp add: write_format_stream_def superDARN_file_structure_to_bytes_def empty_record_check_def)
qed

theorem write_format_stream_iff_witness:
  "write_format_stream sample_schema [sample_record] empty_write =
     Inr (sample_block, \<lparr>w_records = [sample_record], w_bytearr = sample_block, w_filename = []\<rparr>)
   \<and> record_conforms sample_schema sample_record"
proof -
  have conf: "record_conforms sample_schema sample_record"
    by code_simp
  have enc: "encode_all [sample_record] = Inr sample_block"
    by code_simp
  show ?thesis
    using write_format_stream_iff [of sample_schema "[sample_record]" empty_write sample_block
            "\<lparr>w_records = [sample_record], w_bytearr = sample_block, w_filename = []\<rparr>"] conf enc
    by simp
qed

text \<open>C7: A product writer stops at the first record that fails validation
  and raises that record's error, which carries the record's index in the
  input; no bytes are returned.\<close>

theorem write_format_stream_first_error:
  assumes "fsl \<noteq> []" and "\<forall>x \<in> set xs. record_conforms fsl x" and "encode_all xs = Inr b"
    and "validate_record fsl r (length xs) = Inl e"
  shows "write_format_stream fsl (xs @ r # ys) st = Inl e"
proof -
  let ?st1 = "st\<lparr>w_records := xs @ r # ys\<rparr>"
  have "structure_to_bytes_loop fsl 0 xs ?st1 = Inr (?st1\<lparr>w_bytearr := w_bytearr ?st1 @ b\<rparr>)"
    using structure_to_bytes_loop_ok [OF assms(1)] assms(2,3) by blast
  then have "structure_to_bytes_loop fsl 0 (xs @ r # ys) ?st1 = Inl e"
    using assms(4) by (simp add: structure_to_bytes_loop_append)
  then show ?thesis
    by (simp add: write_format_stream_def superDARN_file_structure_to_bytes_def empty_record_check_def)
qed

theorem write_format_stream_first_error_witness:
  "write_format_stream sample_schema [sample_record, extra_record, partial_record] empty_write =
     Inl (SuperDARNFieldExtra 1 {py ''x''})"
proof -
  have conf: "record_conforms sample_schema sample_record"
    by code_simp
  have enc: "encode_all [sample_record] = Inr sample_block"
    by code_simp
  have v: "validate_record sample_schema extra_record (length [sample_record]) =
      Inl (SuperDARNFieldExtra 1 {py ''x''})"
    by code_simp
  show ?thesis
    using write_format_stream_first_error [OF _ _ enc v, of "[partial_record]" empty_write] conf
    by simp
qed

lemma records_to_bytes_loop_ok:
  "records_to_bytes_loop rs st = (case encode_all rs of Inl e \<Rightarrow> Inl e | Inr b \<Rightarrow> Inr (st\<lparr>w_bytearr := w_bytearr st @ b\<rparr>))"
  by (induction rs arbitrary: st) (auto simp: append_record_def split: sum.splits)


text \<open>C8: The raw writer \<open>write_dmap_stream\<close> makes no schema check: given
  records, it returns the encodings of all of them in order, or the first
  encoding error.\<close>

theorem write_dmap_stream_unchecked:
  assumes "recs \<noteq> []"
  shows "write_dmap_stream recs \<lparr>w_records = [], w_bytearr = [], w_filename = fn\<rparr> =
    (case encode_all recs of
       Inl e \<Rightarrow> Inl e
     | Inr b \<Rightarrow> Inr (b, \<lparr>w_records = recs, w_bytearr = b, w_filename = fn\<rparr>))"
  using assms
  by (simp add: write_dmap_stream_def empty_record_check_def dmap_records_to_bytes_def
                records_to_bytes_loop_ok split: sum.splits)

theorem write_dmap_stream_unchecked_witness:
  "write_dmap_stream [extra_record] empty_write =
     (case encode_all [extra_record] of
        Inl e \<Rightarrow> Inl e
      | Inr b \<Rightarrow> Inr (b, \<lparr>w_records = [extra_record], w_bytearr = b, w_filename = []\<rparr>))
   \<and> (\<exists>b. encode_all [extra_record] = Inr b)"
proof -
  have "encode_all [extra_record] \<noteq> Inl e" for e
    by code_simp
  then have "\<exists>b. encode_all [extra_record] = Inr b"
    by (metis sum.exhaust)
  then show ?thesis
    using write_dmap_stream_unchecked [of "[extra_record]" "[]"] by simp
qed

lemma append_record_filename:
  "append_record r (st\<lparr>w_filename := f\<rparr>) = map_sum id (\<lambda>s. s\<lparr>w_filename := f\<rparr>) (append_record r st)"
  by (simp add: append_record_def split: sum.split)

lemma structure_to_bytes_loop_filename:
  "structure_to_bytes_loop fsl n rs (st\<lparr>w_filename := f\<rparr>)
     = map_sum id (\<lambda>s. s\<lparr>w_filename := f\<rparr>) (structure_to_bytes_loop fsl n rs st)"
proof (induction rs arbitrary: n st)
  case (Cons r rs)
  then show ?case
    by (cases "validate_record fsl r n"; cases "append_record r st")
       (simp_all add: append_record_filename)
qed simp

lemma structure_to_bytes_loop_keeps_filename:
  "structure_to_bytes_loop fsl n rs st = Inr st' \<Longrightarrow> w_filename st' = w_filename st"
proof (induction rs arbitrary: n st)
  case (Cons r rs)
  then show ?case
    by (cases "validate_record fsl r n"; cases "append_record r st")
       (auto simp: append_record_def split: sum.splits)
qed simp

text \<open>C24: A file writer (\<open>write_iqdat\<close>, \<open>write_fitacf\<close>, ...) writes to
  the given file name, or to the writer's own one when none is given, exactly
  the bytes the stream writer of the same product returns, and fails exactly
  when it fails.\<close>

theorem write_file_as_stream:
  assumes "filename \<noteq> [] \<or> w_filename st \<noteq> []"
  shows "write_format_file fsl filename st =
           map_sum id (\<lambda>(bs, st'). (if filename \<noteq> [] then filename else w_filename st, bs))
             (write_format_stream fsl [] st)"
proof (cases "w_records st = []")
  case True
  then show ?thesis by (simp add: write_format_file_def write_format_stream_def empty_record_check_def)
next
  case False
  then show ?thesis
    using assms structure_to_bytes_loop_filename [where n = 0 and rs = "w_records st" and f = filename]
      structure_to_bytes_loop_keeps_filename [where n = 0 and rs = "w_records st"]
    by (cases "structure_to_bytes_loop fsl 0 (w_records st) st")
       (auto simp: write_format_file_def write_format_stream_def empty_record_check_def
          filename_check_def superDARN_file_structure_to_bytes_def)
qed

theorem write_file_as_stream_witness:
  "py ''a.fitacf'' \<noteq> []
   \<and> write_format_file sample_schema (py ''a.fitacf'') (empty_write\<lparr>w_records := [sample_record]\<rparr>) =
       map_sum id (\<lambda>(bs, st'). (py ''a.fitacf'', bs))
         (write_format_stream sample_schema [] (empty_write\<lparr>w_records := [sample_record]\<rparr>))"
  using write_file_as_stream [where filename = "py ''a.fitacf''"
      and st = "empty_write\<lparr>w_records := [sample_record]\<rparr>" and fsl = sample_schema]
  by simp

lemma records_to_bytes_loop_keeps_filename:
  "records_to_bytes_loop rs st = Inr st' \<Longrightarrow> w_filename st' = w_filename st"
proof (induction rs arbitrary: st)
  case (Cons r rs)
  then show ?case
    by (cases "append_record r st") (auto simp: append_record_def split: sum.splits)
qed simp

lemma write_format_file_target:
  "write_format_file fsl [] st = Inr (fn, bs) \<Longrightarrow> fn = w_filename st \<and> fn \<noteq> [] \<and> w_records st \<noteq> []"
  by (auto simp: write_format_file_def empty_record_check_def filename_check_def
      superDARN_file_structure_to_bytes_def dest: structure_to_bytes_loop_keeps_filename
      split: if_splits sum.splits)

lemma write_dmap_target:
  "write_dmap [] st = Inr (fn, bs) \<Longrightarrow> fn = w_filename st \<and> fn \<noteq> [] \<and> w_records st \<noteq> []"
  by (auto simp: write_dmap_def empty_record_check_def filename_check_def
      dmap_records_to_bytes_def dest: records_to_bytes_loop_keeps_filename
      split: if_splits sum.splits)

lemma file_effect_written:
  "file_effect r = Inr (FileWritten fn bs) \<longleftrightarrow> r = Inr (fn, bs)"
  "file_effect r \<noteq> Inr (StreamBytes bs)"
  "file_effect r \<noteq> Inr NoWrite"
  by (auto simp: file_effect_def split: sum.splits)

lemmas file_writer_defs = write_iqdat_def write_rawacf_file_def write_fitacf_def write_grid_def write_map_def

lemma dmap_write_init_written:
  assumes a: "dmap_write_init fm rs fn fmt = Inr (FileWritten fn' bs)"
  shows "fmt \<in> {py ''iqdat'', py ''rawacf'', py ''fitacf'', py ''grid'', py ''map''} \<and>
          (\<exists>fsl. write_format_file fsl [] \<lparr>w_records = rs, w_bytearr = [], w_filename = fn\<rparr> = Inr (fn', bs))
       \<or> fmt = py ''dmap'' \<and> write_dmap [] \<lparr>w_records = rs, w_bytearr = [], w_filename = fn\<rparr> = Inr (fn', bs)"
  using a unfolding dmap_write_init_def Let_def file_writer_defs
  by (auto simp: file_effect_written split: if_splits sum.splits prod.splits)

text \<open>C28: The constructor writes a file only under the file name it was
  given, only when that name is not empty and there are records, and only
  for one of the six file formats; any other non-empty format raises
  \<open>DmapFileFormatType\<close>.\<close>

theorem dmap_write_init_file:
  "(dmap_write_init fm rs fn fmt = Inr (FileWritten fn' bs) \<longrightarrow>
      fn' = fn \<and> fn \<noteq> [] \<and> rs \<noteq> [] \<and>
      fmt \<in> {py ''iqdat'', py ''rawacf'', py ''fitacf'', py ''grid'', py ''map'', py ''dmap''}) \<and>
   (fmt \<notin> {[], py ''iqdat'', py ''rawacf'', py ''fitacf'', py ''grid'', py ''map'', py ''dmap'', py ''stream''}
      \<longrightarrow> dmap_write_init fm rs fn fmt = Inl DmapFileFormatType)"
proof (rule conjI; rule impI)
  assume "dmap_write_init fm rs fn fmt = Inr (FileWritten fn' bs)"
  from dmap_write_init_written [OF this] show
    "fn' = fn \<and> fn \<noteq> [] \<and> rs \<noteq> [] \<and>
     fmt \<in> {py ''iqdat'', py ''rawacf'', py ''fitacf'', py ''grid'', py ''map'', py ''dmap''}"
    by (elim disjE conjE exE) (auto dest!: write_format_file_target write_dmap_target)
next
  assume "fmt \<notin> {[], py ''iqdat'', py ''rawacf'', py ''fitacf'', py ''grid'', py ''map'', py ''dmap'', py ''stream''}"
  then show "dmap_write_init fm rs fn fmt = Inl DmapFileFormatType"
    by (simp add: dmap_write_init_def Let_def)
qed

theorem dmap_write_init_file_witness:
  "dmap_write_init empty_formats [sample_record] (py ''out.dmap'') (py ''dmap'') =
     Inr (FileWritten (py ''out.dmap'') sample_block)
   \<and> dmap_write_init empty_formats [sample_record] (py ''out.dmap'') (py ''bogus'') = Inl DmapFileFormatType"
proof -
  have w: "dmap_write_init empty_formats [sample_record] (py ''out.dmap'') (py ''dmap'') =
     Inr (FileWritten (py ''out.dmap'') sample_block)"
    by code_simp
  have "dmap_write_init empty_formats [sample_record] (py ''out.dmap'') (py ''bogus'') = Inl DmapFileFormatType"
    using dmap_write_init_file [of empty_formats "[sample_record]" "py ''out.dmap''" "py ''bogus''"] by simp
  with w show ?thesis
    by simp
qed

end
