(* ===== verification/Dmap_Roundtrip.thy ===== *)
theory Dmap_Roundtrip
  imports Dmap_File Dmap_Write
begin

text \<open>
  The reader against the writer: what \<open>DmapRead\<close> makes of the bytes
  \<open>DmapWrite\<close> produces.  The reading lemmas are stated for bytes found at
  the cursor of a well-formed reader (\<open>bytes_at\<close>), so that they compose
  along a record and along a file.
\<close>

section \<open>Bytes at the cursor\<close>

definition bytes_at :: "dmap_read \<Rightarrow> byte list \<Rightarrow> bool" where
  "bytes_at st bs \<longleftrightarrow>
     reader_wf st \<and> 0 \<le> cursor st \<and> cursor st + int (length bs) \<le> dmap_end_bytes st
     \<and> take (length bs) (drop (nat (cursor st)) (dmap_bytearr st)) = bs"

abbreviation adv :: "dmap_read \<Rightarrow> nat \<Rightarrow> dmap_read" where
  "adv st n \<equiv> st\<lparr>cursor := cursor st + int n\<rparr>"

text \<open>A name or text the writer encodes byte for byte and the reader reads
  back: ASCII without NUL.\<close>

definition name_ok :: "pystr \<Rightarrow> bool" where
  "name_ok s \<longleftrightarrow> is_ascii s \<and> 0 \<notin> set s"

text \<open>A scalar the reader gets back as written: a clean name, a type code of
  the registry whose format is the scalar's, and for a string or char scalar a
  value the reader can parse (a clean text, a code point below 128).\<close>

definition scalar_ok :: "dmap_scalar \<Rightarrow> bool" where
  "scalar_ok sc \<longleftrightarrow>
     name_ok (s_name sc) \<and> s_data_type_fmt sc \<noteq> Fnone
     \<and> map_option fst (dmap_data_types (s_data_type sc)) = Some (s_data_type_fmt sc)
     \<and> (case s_data_type_fmt sc of
          Fs \<Rightarrow> (case s_value sc of PStr t \<Rightarrow> name_ok t | _ \<Rightarrow> False)
        | Fc \<Rightarrow> (case s_value sc of PInt i \<Rightarrow> 0 \<le> i \<and> i < 128 | _ \<Rightarrow> False)
        | _ \<Rightarrow> True)"

text \<open>A numeric array the reader gets back: a clean name, a numeric type code
  of the registry, a non-empty shape of positive sizes whose length is the
  dimension, and a buffer of the dtype holding exactly the cells of the
  shape.\<close>

definition array_ok :: "dmap_array \<Rightarrow> bool" where
  "array_ok a \<longleftrightarrow>
     name_ok (a_name a) \<and> a_data_type_fmt a \<notin> {Fnone, Fc, Fs}
     \<and> map_option fst (dmap_data_types (a_data_type a)) = Some (a_data_type_fmt a)
     \<and> a_shape a \<noteq> [] \<and> a_dimension a = int (length (a_shape a)) \<and> (\<forall>x \<in> set (a_shape a). 0 < x)
     \<and> (case a_value a of
          NdNum f bs \<Rightarrow> f = a_data_type_fmt a \<and> int (length bs) = prod_list (a_shape a) * int (fmt_size f)
        | NdStr _ \<Rightarrow> False)"

fun field_ok :: "dmap_field \<Rightarrow> bool" where
  "field_ok (Scalar s) = scalar_ok s"
| "field_ok (Array a) = array_ok a"

text \<open>What the reader makes of a written field: \<open>read_array\<close> reverses the
  shape that \<open>dmap_array_to_bytes\<close> wrote in the order it held it.\<close>

fun rev_shape :: "dmap_field \<Rightarrow> dmap_field" where
  "rev_shape (Scalar s) = Scalar s"
| "rev_shape (Array a) = Array (a\<lparr>a_shape := rev (a_shape a)\<rparr>)"

text \<open>A record the reader reads back: distinct keys, each the name of its
  field, every field readable, and at least one scalar followed by at least one
  array (the reader reads the scalars first and rejects a count of zero).\<close>

definition record_ok :: "dmap_record \<Rightarrow> bool" where
  "record_ok r \<longleftrightarrow>
     distinct (map fst r) \<and> (\<forall>(k, fld) \<in> set r. k = field_name fld \<and> field_ok fld)
     \<and> (let ns = length (takeWhile (is_scalar_field \<circ> snd) r) in
        0 < ns \<and> ns < length r \<and> (\<forall>(k, fld) \<in> set (drop ns r). \<not> is_scalar_field fld))"

lemma take_append_conv:
  "take (length a + length b) xs = a @ b \<longleftrightarrow>
   take (length a) xs = a \<and> take (length b) (drop (length a) xs) = b"
proof -
  have "take (length a + length b) xs = a @ b \<longleftrightarrow> a @ b = take (length a + length b) xs"
    by auto
  also have "\<dots> \<longleftrightarrow> a = take (length a) xs \<and> b = take (length b) (drop (length a) xs)"
    by (simp add: append_eq_conv_conj drop_take)
  finally show ?thesis
    by auto
qed

lemma bytes_at_append:
  "bytes_at st (a @ b) \<longleftrightarrow> bytes_at st a \<and> bytes_at (adv st (length a)) b"
proof (cases "0 \<le> cursor st")
  case True
  have n: "nat (cursor st + int (length a)) = length a + nat (cursor st)"
    using True by simp
  show ?thesis
    unfolding bytes_at_def using True
    by (simp only: length_append take_append_conv) (auto simp: n)
next
  case False
  then show ?thesis
    by (simp add: bytes_at_def)
qed

lemma bytes_at_Cons:
  "bytes_at st (b # bs) \<longleftrightarrow> bytes_at st [b] \<and> bytes_at (adv st 1) bs"
  using bytes_at_append [of st "[b]" bs] by simp

lemma bytes_at_single:
  "bytes_at st [b] \<longleftrightarrow> reader_wf st \<and> 0 \<le> cursor st \<and> cursor st < dmap_end_bytes st
     \<and> dmap_bytearr st ! nat (cursor st) = b"
  by (auto simp: bytes_at_def reader_wf_def take_Suc_conv_app_nth)

lemma bytes_at_nth:
  assumes a: "bytes_at st bs" and i: "i < length bs"
  shows "dmap_bytearr st ! nat (cursor st + int i) = bs ! i"
proof -
  let ?c = "nat (cursor st)" and ?arr = "dmap_bytearr st"
  have t: "take (length bs) (drop ?c ?arr) = bs" and c: "?c + length bs \<le> length ?arr"
    and n: "nat (cursor st + int i) = ?c + i"
    using a i by (auto simp: bytes_at_def reader_wf_def)
  have "bs ! i = drop ?c ?arr ! i"
    using t i by (metis nth_take)
  also have "\<dots> = ?arr ! (?c + i)"
    using c by (simp add: nth_drop)
  finally show ?thesis
    unfolding n by (rule sym)
qed

lemma struct_unpack_pack:
  assumes "struct_pack f v = Inr bs" and "f \<noteq> Fc" and "f \<noteq> Fs"
  shows "struct_unpack f bs = [v]"
proof (cases "int_fmt f")
  case None
  then have "f = Fnone \<or> f = Ff \<or> f = Fd"
    using assms(2,3) by (cases f) auto
  then show ?thesis
    using assms(1) struct_unpack_pack_float by (cases v) auto
next
  case (Some is_signed)
  moreover obtain i where "v = PInt i"
    using assms(1) Some by (cases f; cases v) auto
  ultimately show ?thesis
    using assms(1) struct_unpack_pack_int by blast
qed

section \<open>Reading one item\<close>

lemma read_data_at_num:
  assumes "bytes_at st b" and "struct_pack f v = Inr b" and "f \<notin> {Fnone, Fc, Fs}"
  shows "read_data f (fmt_size f) st = Inr (v, adv st (fmt_size f))"
proof -
  have len: "length b = fmt_size f"
    using assms(2) by (rule struct_pack_length)
  then have "take (fmt_size f) (drop (nat (cursor st)) (dmap_bytearr st)) = b"
    and "cursor st + int (fmt_size f) \<le> dmap_end_bytes st" and "reader_wf st" and "0 \<le> cursor st"
    using assms(1) by (auto simp: bytes_at_def)
  then show ?thesis
    using read_data_num [of st f "fmt_size f" v "adv st (fmt_size f)"] assms(3)
          struct_unpack_pack [OF assms(2)] assms(3)
    by auto
qed

lemma read_data_at_int:
  "bytes_at st (le_bytes 4 v) \<Longrightarrow> int_range True 4 v \<Longrightarrow>
   read_data Fi 4 st = Inr (PInt v, adv st 4)"
  using read_data_at_num [of st "le_bytes 4 v" Fi "PInt v"] by simp

lemma read_data_at_char:
  "bytes_at st [b] \<Longrightarrow> read_data Fc 1 st = Inr (PInt (uint b), adv st 1)"
  by (auto simp: bytes_at_single read_data_def reader_wf_def py_index_def Let_def)

lemma word_of_int_ascii_nz:
  assumes "0 < c" and "c < 128"
  shows "(word_of_int c :: byte) \<noteq> 0"
proof
  assume "(word_of_int c :: byte) = 0"
  then have "uint (word_of_int c :: byte) = 0"
    by simp
  with uint_byte_small [of c] assms show False
    by simp
qed

lemma name_ok_nth:
  "name_ok s \<Longrightarrow> i < length s \<Longrightarrow> 0 < s ! i \<and> s ! i < 128"
  unfolding name_ok_def is_ascii_def
  by (metis nth_mem order_le_less)

lemma scan_nul_at:
  assumes at: "bytes_at st (map word_of_int s @ [0])" and ok: "name_ok s" and k: "k \<le> length s"
  shows "scan_nul (dmap_bytearr st) (dmap_end_bytes st) (cursor st) (int k) = Inr (int (length s))"
  using k
proof (induction "length s - k" arbitrary: k)
  case 0
  then have k: "k = length s" by simp
  have "dmap_bytearr st ! nat (cursor st + int k) = 0"
    using bytes_at_nth [OF at, of k] k by (simp add: nth_append)
  moreover have "0 \<le> cursor st" "cursor st + int k + 1 \<le> dmap_end_bytes st"
    "dmap_end_bytes st = int (length (dmap_bytearr st))"
    using at k by (auto simp: bytes_at_def reader_wf_def)
  ultimately show ?case
    using k by (subst scan_nul.simps) (simp add: py_index_def Let_def)
next
  case (Suc n)
  then have k: "k < length s" by simp
  have b: "dmap_bytearr st ! nat (cursor st + int k) = word_of_int (s ! k)"
    using bytes_at_nth [OF at, of k] k by (simp add: nth_append)
  have nz: "(word_of_int (s ! k) :: byte) \<noteq> 0"
    using name_ok_nth [OF ok k] word_of_int_ascii_nz by blast
  have "0 \<le> cursor st" "cursor st + int k < int (length (dmap_bytearr st))"
    using at k by (auto simp: bytes_at_def reader_wf_def)
  moreover have "scan_nul (dmap_bytearr st) (dmap_end_bytes st) (cursor st) (int (Suc k)) = Inr (int (length s))"
    using Suc.hyps(1) [of "Suc k"] Suc.hyps(2) k by simp
  ultimately show ?case
    using b nz by (subst scan_nul.simps) (simp add: py_index_def Let_def add.assoc add.commute)
qed

lemma read_data_at_str:
  assumes at: "bytes_at st (map word_of_int s @ [0])" and ok: "name_ok s"
  shows "read_data Fs 1 st = Inr (PStr s, adv st (length s + 1))"
proof -
  have sc: "scan_nul (dmap_bytearr st) (dmap_end_bytes st) (cursor st) 0 = Inr (int (length s))"
    using scan_nul_at [OF at ok, of 0] by simp
  have c: "0 \<le> cursor st" "cursor st + int (length s) + 1 \<le> dmap_end_bytes st"
    "dmap_end_bytes st = int (length (dmap_bytearr st))"
    using at by (auto simp: bytes_at_def reader_wf_def)
  have "take (length s) (drop (nat (cursor st)) (dmap_bytearr st)) = map word_of_int s"
    using at by (auto simp: bytes_at_def take_append_conv [of "map word_of_int s" "[0]", simplified])
  then have u: "unpack_from_s (length s) (dmap_bytearr st) (cursor st) = Inr (map word_of_int s)"
    using c by (simp add: unpack_from_s_def unpack_offset_nonneg)
  have d: "utf8_decode (map word_of_int s) = Some s"
    using ok by (simp add: name_ok_def utf8_decode_ascii)
  show ?thesis
    using sc c u d by (simp add: read_data_def bytes_check_def Let_def add.assoc)
qed

section \<open>Encoding one item\<close>

lemma pack_cstring_ok:
  "name_ok s \<Longrightarrow> pack_cstring s = Inr (map word_of_int s @ [0])"
  by (simp add: pack_cstring_def name_ok_def utf8_encode_ascii is_ascii_def pack_s_def)

lemma type_byte_ok:
  "0 \<le> t \<Longrightarrow> t < 128 \<Longrightarrow> type_byte t = Inr [word_of_int t]"
  by (simp add: type_byte_def chr_encode_def utf8_encode_cp_def)

lemma pack_ints_eq:
  "pack_ints xs =
     (if \<forall>x \<in> set xs. int_range True 4 x then Inr (concat (map (le_bytes 4) xs)) else Inl StructError)"
  by (induction xs) auto

lemma pack_ints_ok:
  "pack_ints xs = Inr bs \<longleftrightarrow> (\<forall>x \<in> set xs. int_range True 4 x) \<and> bs = concat (map (le_bytes 4) xs)"
  by (auto simp: pack_ints_eq)

lemma dmap_data_types_code:
  "dmap_data_types t = Some (f, w) \<Longrightarrow> 0 \<le> t \<and> t < 128 \<and> w = fmt_size f"
proof -
  assume a: "dmap_data_types t = Some (f, w)"
  then have "t \<in> dom dmap_data_types"
    by blast
  then have "0 \<le> t \<and> t < 128"
    by (auto simp: dmap_data_types_def dom_map_of_conv_image_fst)
  with a show ?thesis
    by (simp add: dmap_data_types_width)
qed

lemma scalar_data_read:
  assumes ok: "scalar_ok sc" and at: "bytes_at st d"
    and enc: "(if s_data_type_fmt sc = Fs then
                (case py_format (s_value sc) of Inl e \<Rightarrow> Inl e | Inr t \<Rightarrow> pack_cstring t)
              else if s_data_type_fmt sc = Fc then
                (case s_value sc of PInt i \<Rightarrow> chr_encode i | _ \<Rightarrow> Inl TypeError)
              else struct_pack (s_data_type_fmt sc) (s_value sc)) = Inr d"
  shows "read_data (s_data_type_fmt sc) (fmt_size (s_data_type_fmt sc)) st = Inr (s_value sc, adv st (length d))"
proof (cases "s_data_type_fmt sc = Fs")
  case True
  then obtain t where v: "s_value sc = PStr t" and t: "name_ok t"
    using ok by (auto simp: scalar_ok_def split: pyval.splits)
  then have "d = map word_of_int t @ [0]"
    using enc True by (simp add: pack_cstring_ok)
  then show ?thesis
    using read_data_at_str [of st t] at t True v by simp
next
  case nFs: False
  show ?thesis
  proof (cases "s_data_type_fmt sc = Fc")
    case True
    then obtain i where v: "s_value sc = PInt i" and i: "0 \<le> i" "i < 128"
      using ok by (auto simp: scalar_ok_def split: pyval.splits)
    then have "d = [word_of_int i]"
      using enc True nFs by (simp add: chr_encode_def utf8_encode_cp_def)
    then show ?thesis
      using read_data_at_char [of st "word_of_int i"] at True v i by (simp add: uint_byte_small)
  next
    case False
    then have "struct_pack (s_data_type_fmt sc) (s_value sc) = Inr d"
      using enc nFs by simp
    moreover have "length d = fmt_size (s_data_type_fmt sc)"
      using calculation by (rule struct_pack_length)
    ultimately show ?thesis
      using read_data_at_num [OF at] ok nFs False by (simp add: scalar_ok_def)
  qed
qed

lemma read_scalar_at:
  assumes ok: "scalar_ok sc" and enc: "dmap_scalar_to_bytes sc = Inr b" and at: "bytes_at st b"
  shows "read_scalar st = Inr (sc, adv st (length b))"
proof -
  let ?f = "s_data_type_fmt sc" and ?t = "s_data_type sc" and ?n = "s_name sc"
  have tys: "dmap_data_types ?t = Some (?f, fmt_size ?f)"
    using ok dmap_data_types_width by (fastforce simp: scalar_ok_def)
  then have t: "0 \<le> ?t" "?t < 128"
    using dmap_data_types_code by blast+
  have nm: "name_ok ?n"
    using ok by (simp add: scalar_ok_def)
  obtain d where
      d: "(if ?f = Fs then (case py_format (s_value sc) of Inl e \<Rightarrow> Inl e | Inr t \<Rightarrow> pack_cstring t)
           else if ?f = Fc then (case s_value sc of PInt i \<Rightarrow> chr_encode i | _ \<Rightarrow> Inl TypeError)
           else struct_pack ?f (s_value sc)) = Inr d"
    and b: "b = (map word_of_int ?n @ [0]) @ [word_of_int ?t] @ d"
    using enc nm t by (auto simp: dmap_scalar_to_bytes_def pack_cstring_ok type_byte_ok split: sum.splits)
  let ?st1 = "adv st (length ?n + 1)" and ?st2 = "adv (adv st (length ?n + 1)) 1"
  have at1: "bytes_at st (map word_of_int ?n @ [0])" and at2: "bytes_at ?st1 [word_of_int ?t]"
    and at3: "bytes_at ?st2 d"
    using at unfolding b bytes_at_append by simp_all
  have r1: "read_data Fs 1 st = Inr (PStr ?n, ?st1)"
    using read_data_at_str [OF at1 nm] .
  have r2: "read_data Fc 1 ?st1 = Inr (PInt ?t, ?st2)"
    using read_data_at_char [OF at2] t by (simp add: uint_byte_small)
  have r3: "read_data ?f (fmt_size ?f) ?st2 = Inr (s_value sc, adv ?st2 (length d))"
    using scalar_data_read [OF ok at3 d] .
  have ck: "check_data_type ?t ?n ?st2 = Inr ()"
    using tys by (auto simp: check_data_type_def)
  show ?thesis
    using r1 r2 r3 ck tys b by (simp add: read_scalar_def)
qed

lemma length_concat_le_bytes [simp]:
  "length (concat (map (le_bytes n) xs)) = n * length xs"
  by (induction xs) auto

lemma read_shape_at:
  "(\<forall>x \<in> set xs. int_range True 4 x) \<Longrightarrow> bytes_at st (concat (map (le_bytes 4) xs)) \<Longrightarrow>
   repeat_read (length xs) (read_data Fi 4) st = Inr (map PInt xs, adv st (4 * length xs))"
proof (induction xs arbitrary: st)
  case Nil
  then show ?case by simp
next
  case (Cons x xs)
  have at: "bytes_at st (le_bytes 4 x)" "bytes_at (adv st 4) (concat (map (le_bytes 4) xs))"
    using Cons.prems(2) by (simp_all add: bytes_at_append)
  have "read_data Fi 4 st = Inr (PInt x, adv st 4)"
    using read_data_at_int [OF at(1)] Cons.prems(1) by simp
  moreover have "repeat_read (length xs) (read_data Fi 4) (adv st 4) =
      Inr (map PInt xs, adv (adv st 4) (4 * length xs))"
    using Cons.IH [OF _ at(2)] Cons.prems(1) by simp
  ultimately show ?case
    by (simp add: add.assoc)
qed

lemma prod_list_pos_int:
  "\<forall>y \<in> set xs. (0::int) < y \<Longrightarrow> 0 < prod_list xs"
  by (induction xs) auto

lemma member_le_prod_list:
  "x \<in> set xs \<Longrightarrow> \<forall>y \<in> set xs. (0::int) < y \<Longrightarrow> x \<le> prod_list xs"
proof (induction xs)
  case Nil
  then show ?case by simp
next
  case (Cons y ys)
  have p: "0 < prod_list ys" and y: "0 < y"
    using Cons.prems(2) prod_list_pos_int by auto
  show ?case
  proof (cases "x = y")
    case True
    then show ?thesis
      using p y by (simp add: mult_le_cancel_left1)
  next
    case False
    then have "x \<le> prod_list ys"
      using Cons by simp
    moreover have "prod_list ys \<le> y * prod_list ys"
      using p y by (simp add: mult_le_cancel_right1)
    ultimately show ?thesis
      by simp
  qed
qed

lemma np_frombuffer_at:
  assumes "bytes_at st bs" and "int (length bs) = cells * int (fmt_size f)" and "0 \<le> cells"
    and "0 < fmt_size f"
  shows "np_frombuffer (dmap_bytearr st) f cells (cursor st) = Inr (NdNum f bs)"
proof -
  have "take (length bs) (drop (nat (cursor st)) (dmap_bytearr st)) = bs"
    "0 \<le> cursor st" "cursor st + int (length bs) \<le> int (length (dmap_bytearr st))"
    using assms(1) by (auto simp: bytes_at_def reader_wf_def)
  moreover have "nat (cells * int (fmt_size f)) = length bs"
    using assms(2) by simp
  ultimately show ?thesis
    using assms(2,3,4) by (auto simp: np_frombuffer_def Let_def)
qed

lemma read_array_at:
  assumes ok: "array_ok a" and enc: "dmap_array_to_bytes a = Inr b" and at: "bytes_at st b"
    and bsz: "int (length b) < bsz"
  shows "read_array bsz st = Inr (a\<lparr>a_shape := rev (a_shape a)\<rparr>, adv st (length b))"
proof -
  let ?f = "a_data_type_fmt a" and ?t = "a_data_type a" and ?n = "a_name a" and ?sh = "a_shape a"
  let ?w = "fmt_size ?f"
  have tys: "dmap_data_types ?t = Some (?f, ?w)"
    using ok dmap_data_types_width by (fastforce simp: array_ok_def)
  then have t: "0 \<le> ?t" "?t < 128"
    using dmap_data_types_code by blast+
  have t0: "?t \<noteq> 0"
    using tys ok by (auto simp: array_ok_def dmap_data_types_def)
  have nm: "name_ok ?n" and f: "?f \<notin> {Fnone, Fc, Fs}" and sh: "?sh \<noteq> []"
    and dim: "a_dimension a = int (length ?sh)" and pos: "\<forall>x \<in> set ?sh. 0 < x"
    using ok by (simp_all add: array_ok_def)
  obtain bs where v: "a_value a = NdNum ?f bs" and lbs: "int (length bs) = prod_list ?sh * int ?w"
    using ok by (auto simp: array_ok_def split: ndarray.splits)
  have w: "0 < ?w"
    using f by (cases ?f) auto
  obtain db sb where pk: "pack_ints [a_dimension a] = Inr db"
      and ps: "pack_ints ?sh = Inr sb"
      and b0: "b = (map word_of_int ?n @ [0]) @ [word_of_int ?t] @ db @ sb @ bs"
    using enc nm t v
    by (auto simp: dmap_array_to_bytes_def pack_cstring_ok type_byte_ok simp del: pack_ints.simps
             split: sum.splits)
  have rng: "int_range True 4 (a_dimension a)" "\<forall>x \<in> set ?sh. int_range True 4 x"
    and sb: "sb = concat (map (le_bytes 4) ?sh)" and db: "db = le_bytes 4 (a_dimension a)"
    using pk ps by (simp_all add: pack_ints_ok del: pack_ints.simps)
  have b: "b = (map word_of_int ?n @ [0]) @ [word_of_int ?t] @ le_bytes 4 (a_dimension a) @ sb @ bs"
    using b0 db by simp
  let ?st1 = "adv st (length ?n + 1)"
  let ?st2 = "adv ?st1 1"
  let ?st3 = "adv ?st2 4"
  let ?st4 = "adv ?st3 (4 * length ?sh)"
  have at1: "bytes_at st (map word_of_int ?n @ [0])" and at2: "bytes_at ?st1 [word_of_int ?t]"
    and at3: "bytes_at ?st2 (le_bytes 4 (a_dimension a))" and at4: "bytes_at ?st3 sb"
    and at5: "bytes_at (adv ?st3 (length sb)) bs"
    using at unfolding b bytes_at_append by simp_all
  have lsb: "length sb = 4 * length ?sh"
    using sb by simp
  have r1: "read_data Fs 1 st = Inr (PStr ?n, ?st1)"
    using read_data_at_str [OF at1 nm] .
  have r2: "read_data Fc 1 ?st1 = Inr (PInt ?t, ?st2)"
    using read_data_at_char [OF at2] t by (simp add: uint_byte_small)
  have r3: "read_data Fi 4 ?st2 = Inr (PInt (a_dimension a), ?st3)"
    using read_data_at_int [OF at3 rng(1)] .
  have r4: "read_shape (nat (a_dimension a)) ?st3 = Inr (?sh, ?st4)"
    using read_shape_at [OF rng(2), of ?st3] at4 dim by (simp add: read_shape_def sb comp_def)
  let ?cells = "prod_list ?sh"
  have cpos: "0 < ?cells"
    using pos by (rule prod_list_pos_int)
  have lb: "int (length b) = int (length ?n) + 6 + 4 * int (length ?sh) + ?cells * int ?w"
    using b lsb lbs by simp
  have at5': "bytes_at ?st4 bs"
    using at5 lsb by simp
  have r5: "read_numerical_array ?f ?cells ?w ?st4 = Inr (NdNum ?f bs, adv ?st4 (length bs))"
    using np_frombuffer_at [OF at5' lbs _ w] cpos lbs
    by (simp add: read_numerical_array_def)
  have le_cells: "?cells \<le> ?cells * int ?w"
    using cpos w by (simp add: mult_le_cancel_left1)
  have entries: "\<forall>x \<in> set (rev ?sh). x < bsz"
    using member_le_prod_list [OF _ pos] le_cells lb bsz by fastforce
  have sc: "shape_check ?n (a_dimension a) bsz (rev ?sh) = Inr ()"
    using dim pos entries by (auto simp: shape_check_def)
  have nn: "0 \<le> int (length ?n)" "0 \<le> int (length ?sh)"
    by simp_all
  have lim3: "?cells * int ?w \<le> bsz"
    using lb bsz le_cells nn cpos by linarith
  have lim: "a_dimension a \<le> bsz" "?cells \<le> bsz" "?cells * int ?w \<le> bsz"
    using lim3 le_cells lb bsz nn cpos dim by linarith+
  have checks: "bytes_check (a_dimension a) bsz ?st3 = Inr ()"
      "zero_negative_check (a_dimension a) ?st3 = Inr ()"
      "bytes_check ?cells bsz ?st4 = Inr ()" "bytes_check (?cells * int ?w) bsz ?st4 = Inr ()"
    using lim dim sh by (simp_all add: bytes_check_def zero_negative_check_def)
  have ck: "check_data_type ?t ?n ?st2 = Inr ()"
    using tys by (auto simp: check_data_type_def)
  have "adv ?st4 (length bs) = adv st (length b)"
    using b lsb by simp
  moreover have "a\<lparr>a_shape := rev ?sh\<rparr> =
      \<lparr>a_name = ?n, a_value = NdNum ?f bs, a_data_type = ?t, a_data_type_fmt = ?f,
       a_dimension = a_dimension a, a_shape = rev ?sh\<rparr>"
    using v by simp
  ultimately show ?thesis
    using r1 r2 r3 r4 r5 sc checks ck tys t0 f
    by (simp add: read_array_def Let_def)
qed

section \<open>Reading a record\<close>

lemma encode_fields_append:
  "encode_fields (xs @ ys) =
     (case encode_fields xs of
        Inl e \<Rightarrow> Inl e
      | Inr (d1, n1, m1) \<Rightarrow>
          (case encode_fields ys of
             Inl e \<Rightarrow> Inl e
           | Inr (d2, n2, m2) \<Rightarrow> Inr (d1 @ d2, n1 + n2, m1 + m2)))"
  by (induction xs rule: encode_fields.induct) (auto split: sum.splits prod.splits)

lemma pack_cstring_nonempty:
  "pack_cstring s = Inr b \<Longrightarrow> b \<noteq> []"
  by (auto simp: pack_cstring_def pack_s_def Let_def split: option.splits)

lemma field_bytes_nonempty:
  "dmap_scalar_to_bytes s = Inr b \<Longrightarrow> b \<noteq> []"
  "dmap_array_to_bytes a = Inr b \<Longrightarrow> b \<noteq> []"
  by (auto simp: dmap_scalar_to_bytes_def dmap_array_to_bytes_def dest: pack_cstring_nonempty
           split: sum.splits)

lemma encode_fields_count:
  "encode_fields r = Inr (d, ns, na) \<Longrightarrow> ns + na \<le> length d"
proof (induction r arbitrary: d ns na rule: encode_fields.induct)
  case 1
  then show ?case by simp
next
  case (2 name s rest)
  then obtain b d' ns' where "dmap_scalar_to_bytes s = Inr b" "encode_fields rest = Inr (d', ns', na)"
    "d = b @ d'" "ns = Suc ns'"
    by (auto split: sum.splits)
  with "2.IH" field_bytes_nonempty(1) [of s b] show ?case
    by (cases b) fastforce+
next
  case (3 name a rest)
  then obtain b d' na' where "dmap_array_to_bytes a = Inr b" "encode_fields rest = Inr (d', ns, na')"
    "d = b @ d'" "na = Suc na'"
    by (auto split: sum.splits)
  with "3.IH" field_bytes_nonempty(2) [of a b] show ?case
    by (cases b) fastforce+
qed

lemma read_scalars_at:
  assumes "\<forall>(k, fld) \<in> set ss. k = field_name fld \<and> field_ok fld \<and> is_scalar_field fld"
    and "distinct (map fst (r0 @ ss))" and "encode_fields ss = Inr (d, ns, na)" and "bytes_at st d"
  shows "ns = length ss \<and> na = 0 \<and> read_scalars (length ss) r0 st = Inr (r0 @ ss, adv st (length d))"
  using assms
proof (induction ss arbitrary: r0 st d ns na)
  case Nil
  then show ?case by simp
next
  case (Cons p ss)
  obtain k fld where p: "p = (k, fld)" by fastforce
  then obtain sc where fld: "fld = Scalar sc" and ok: "scalar_ok sc" and k: "k = s_name sc"
    using Cons.prems(1) by (cases fld) auto
  obtain b d' ns' where enc: "dmap_scalar_to_bytes sc = Inr b" and rest: "encode_fields ss = Inr (d', ns', na)"
    and d: "d = b @ d'" and ns: "ns = Suc ns'"
    using Cons.prems(3) p fld by (auto split: sum.splits)
  have at: "bytes_at st b" "bytes_at (adv st (length b)) d'"
    using Cons.prems(4) d by (simp_all add: bytes_at_append)
  have fresh: "k \<notin> set (map fst r0)"
    using Cons.prems(2) p by auto
  have ih: "ns' = length ss \<and> na = 0 \<and>
      read_scalars (length ss) (r0 @ [p]) (adv st (length b)) =
        Inr ((r0 @ [p]) @ ss, adv (adv st (length b)) (length d'))"
    using Cons.IH [of "r0 @ [p]" d' ns' na "adv st (length b)"] Cons.prems(1,2) rest at(2) by simp
  show ?case
    using ih read_scalar_at [OF ok enc at(1)] od_set_fresh [OF fresh] ns d p fld k
    by (simp add: add.assoc)
qed

lemma read_arrays_at:
  assumes "\<forall>(k, fld) \<in> set as. k = field_name fld \<and> field_ok fld \<and> \<not> is_scalar_field fld"
    and "distinct (map fst (r0 @ as))" and "encode_fields as = Inr (d, ns, na)" and "bytes_at st d"
    and "int (length d) < bsz"
  shows "ns = 0 \<and> na = length as \<and>
    read_arrays (length as) bsz r0 st =
      Inr (r0 @ map (\<lambda>(k, fld). (k, rev_shape fld)) as, adv st (length d))"
  using assms
proof (induction as arbitrary: r0 st d ns na)
  case Nil
  then show ?case by simp
next
  case (Cons p as)
  obtain k fld where p: "p = (k, fld)" by fastforce
  then obtain a where fld: "fld = Array a" and ok: "array_ok a" and k: "k = a_name a"
    using Cons.prems(1) by (cases fld) auto
  obtain b d' na' where enc: "dmap_array_to_bytes a = Inr b" and rest: "encode_fields as = Inr (d', ns, na')"
    and d: "d = b @ d'" and na: "na = Suc na'"
    using Cons.prems(3) p fld by (auto split: sum.splits)
  have at: "bytes_at st b" "bytes_at (adv st (length b)) d'"
    using Cons.prems(4) d by (simp_all add: bytes_at_append)
  have fresh: "k \<notin> set (map fst r0)"
    using Cons.prems(2) p by auto
  have lb: "int (length b) < bsz" "int (length d') < bsz"
    using Cons.prems(5) d by simp_all
  let ?q = "(k, rev_shape fld)"
  have ih: "ns = 0 \<and> na' = length as \<and>
      read_arrays (length as) bsz (r0 @ [?q]) (adv st (length b)) =
        Inr ((r0 @ [?q]) @ map (\<lambda>(k, fld). (k, rev_shape fld)) as, adv (adv st (length b)) (length d'))"
    using Cons.IH [of "r0 @ [?q]" d' ns na' "adv st (length b)"] Cons.prems(1,2) rest at(2) lb(2) p
    by simp
  have fresh': "a_name a \<notin> set (map fst r0)"
    using fresh k by simp
  show ?case
    using ih read_array_at [OF ok enc at(1) lb(1)] od_set_fresh [OF fresh'] na d p fld k
    by (simp add: add.assoc)
qed

lemma record_ok_split:
  assumes "record_ok r"
  obtains ss as where "r = ss @ as" "ss \<noteq> []" "as \<noteq> []"
    "\<forall>(k, fld) \<in> set ss. k = field_name fld \<and> field_ok fld \<and> is_scalar_field fld"
    "\<forall>(k, fld) \<in> set as. k = field_name fld \<and> field_ok fld \<and> \<not> is_scalar_field fld"
    "distinct (map fst (ss @ as))"
proof -
  let ?P = "is_scalar_field \<circ> snd"
  let ?ss = "takeWhile ?P r" and ?as = "drop (length (takeWhile ?P r)) r"
  have r: "r = ?ss @ ?as"
    by (simp add: dropWhile_eq_drop [symmetric])
  have "\<forall>(k, fld) \<in> set ?ss. is_scalar_field fld"
    by (auto dest: set_takeWhileD)
  moreover have "\<forall>(k, fld) \<in> set r. k = field_name fld \<and> field_ok fld" "distinct (map fst r)"
    "0 < length ?ss" "length ?ss < length r" "\<forall>(k, fld) \<in> set ?as. \<not> is_scalar_field fld"
    using assms by (simp_all add: record_ok_def Let_def)
  moreover have "set ?ss \<subseteq> set r" "set ?as \<subseteq> set r"
    by (auto dest: set_takeWhileD in_set_dropD)
  ultimately show ?thesis
    using that [of ?ss ?as] r by fastforce
qed

lemma header_at:
  assumes "bytes_at st (le_bytes 4 e @ le_bytes 4 bsz @ le_bytes 4 ns @ le_bytes 4 na @ d)"
    and "int_range True 4 bsz" "int_range True 4 ns" "int_range True 4 na"
  shows "read_data Fi 4 (adv st 4) = Inr (PInt bsz, adv st 8)"
    "read_data Fi 4 (adv st 8) = Inr (PInt ns, adv st 12)"
    "read_data Fi 4 (adv st 12) = Inr (PInt na, adv st 16)"
    "bytes_at (adv st 16) d"
proof -
  have at: "bytes_at (adv st 4) (le_bytes 4 bsz)" "bytes_at (adv st 8) (le_bytes 4 ns)"
    "bytes_at (adv st 12) (le_bytes 4 na)" "bytes_at (adv st 16) d"
    using assms(1) by (simp_all add: bytes_at_append add.assoc)
  show "read_data Fi 4 (adv st 4) = Inr (PInt bsz, adv st 8)"
    using read_data_at_int [OF at(1) assms(2)] by (simp add: add.assoc)
  show "read_data Fi 4 (adv st 8) = Inr (PInt ns, adv st 12)"
    using read_data_at_int [OF at(2) assms(3)] by (simp add: add.assoc)
  show "read_data Fi 4 (adv st 12) = Inr (PInt na, adv st 16)"
    using read_data_at_int [OF at(3) assms(4)] by (simp add: add.assoc)
  show "bytes_at (adv st 16) d"
    using at(4) .
qed

lemma rev_shape_scalars:
  "\<forall>(k, fld) \<in> set ss. is_scalar_field fld \<Longrightarrow> map (\<lambda>(k, fld). (k, rev_shape fld)) ss = ss"
proof (induction ss)
  case Nil
  then show ?case by simp
next
  case (Cons p ss)
  then show ?case
    by (cases p; cases "snd p") auto
qed

lemma record_bytes:
  assumes "dmap_record_to_bytes r = Inr bs"
  obtains d ns na where "encode_fields r = Inr (d, ns, na)"
    "bs = le_bytes 4 65537 @ le_bytes 4 (int (length d) + 16) @ le_bytes 4 (int ns) @ le_bytes 4 (int na) @ d"
    "int_range True 4 (int (length d) + 16)" "int_range True 4 (int ns)" "int_range True 4 (int na)"
proof -
  obtain d ns na h where ef: "encode_fields r = Inr (d, ns, na)"
    and h: "pack_ints [65537, int (length d) + 16, int ns, int na] = Inr h" and bs: "bs = h @ d"
    using assms by (auto simp: dmap_record_to_bytes_def Let_def simp del: pack_ints.simps
                         split: sum.splits prod.splits)
  from h have "int_range True 4 (int (length d) + 16)" "int_range True 4 (int ns)" "int_range True 4 (int na)"
    "h = le_bytes 4 65537 @ le_bytes 4 (int (length d) + 16) @ le_bytes 4 (int ns) @ le_bytes 4 (int na)"
    by (simp_all add: pack_ints_ok del: pack_ints.simps)
  with ef bs that show ?thesis
    by simp
qed

lemma read_record_at:
  assumes ok: "record_ok r" and enc: "dmap_record_to_bytes r = Inr bs" and at: "bytes_at st bs"
  shows "read_record st = Inr (map (\<lambda>(k, fld). (k, rev_shape fld)) r, adv st (length bs))"
proof -
  obtain ss as where r: "r = ss @ as" and ne: "ss \<noteq> []" "as \<noteq> []"
    and okss: "\<forall>(k, fld) \<in> set ss. k = field_name fld \<and> field_ok fld \<and> is_scalar_field fld"
    and okas: "\<forall>(k, fld) \<in> set as. k = field_name fld \<and> field_ok fld \<and> \<not> is_scalar_field fld"
    and dist: "distinct (map fst (ss @ as))"
    using ok by (rule record_ok_split)
  obtain d ns na where ef: "encode_fields r = Inr (d, ns, na)"
    and bs: "bs = le_bytes 4 65537 @ le_bytes 4 (int (length d) + 16) @ le_bytes 4 (int ns)
                 @ le_bytes 4 (int na) @ d"
    and rng: "int_range True 4 (int (length d) + 16)" "int_range True 4 (int ns)" "int_range True 4 (int na)"
    using enc by (rule record_bytes)
  let ?bsz = "int (length d) + 16"
  have hd: "read_data Fi 4 (adv st 4) = Inr (PInt ?bsz, adv st 8)"
    "read_data Fi 4 (adv st 8) = Inr (PInt (int ns), adv st 12)"
    "read_data Fi 4 (adv st 12) = Inr (PInt (int na), adv st 16)" and atd: "bytes_at (adv st 16) d"
    using header_at [OF at [unfolded bs] rng] by simp_all
  obtain d1 n1 m1 d2 n2 m2 where e1: "encode_fields ss = Inr (d1, n1, m1)"
    and e2: "encode_fields as = Inr (d2, n2, m2)" and d: "d = d1 @ d2" and n: "ns = n1 + n2" "na = m1 + m2"
    using ef r by (auto simp: encode_fields_append split: sum.splits prod.splits)
  have at1: "bytes_at (adv st 16) d1" and at2: "bytes_at (adv (adv st 16) (length d1)) d2"
    using atd d by (simp_all add: bytes_at_append)
  have rs: "n1 = length ss \<and> m1 = 0 \<and>
      read_scalars (length ss) [] (adv st 16) = Inr (ss, adv (adv st 16) (length d1))"
    using read_scalars_at [of ss "[]" d1 n1 m1 "adv st 16"] okss dist e1 at1 by simp
  have ra: "n2 = 0 \<and> m2 = length as \<and>
      read_arrays (length as) ?bsz ss (adv (adv st 16) (length d1)) =
        Inr (ss @ map (\<lambda>(k, fld). (k, rev_shape fld)) as, adv (adv (adv st 16) (length d1)) (length d2))"
    using read_arrays_at [OF okas _ e2 at2, of ss ?bsz] dist d by simp
  have cnt: "ns + na \<le> length d"
    using encode_fields_count [OF ef] .
  have lim: "cursor st + int (length bs) \<le> dmap_end_bytes st"
    using at by (simp add: bytes_at_def)
  have res: "map (\<lambda>(k, fld). (k, rev_shape fld)) r = ss @ map (\<lambda>(k, fld). (k, rev_shape fld)) as"
    using r rev_shape_scalars okss by fastforce
  have "length bs = 16 + length d1 + length d2"
    using bs d by simp
  then show ?thesis
    using hd rs ra n ne cnt lim res d
    by (simp add: read_record_def bytes_check_def zero_negative_check_def Let_def add.assoc
                  [symmetric])
qed

section \<open>Reading a file\<close>

lemma bytes_at_records [simp]:
  "bytes_at (st\<lparr>dmap_records := x\<rparr>) bs = bytes_at st bs"
  by (simp add: bytes_at_def reader_wf_def)

lemma record_bytes_length:
  "dmap_record_to_bytes r = Inr b \<Longrightarrow> 16 \<le> length b"
  by (erule record_bytes) simp

lemma read_records_loop_at:
  "\<forall>r \<in> set recs. record_ok r \<Longrightarrow> encode_all recs = Inr bs \<Longrightarrow> bytes_at st bs \<Longrightarrow>
   cursor st + int (length bs) = dmap_end_bytes st \<Longrightarrow>
   read_records_loop st =
     Inr (st\<lparr>cursor := dmap_end_bytes st,
             dmap_records := dmap_records st @ map (map (\<lambda>(k, fld). (k, rev_shape fld))) recs\<rparr>)"
proof (induction recs arbitrary: st bs)
  case Nil
  then show ?case
    by (subst read_records_loop.simps) simp
next
  case (Cons r recs)
  obtain b bs' where b: "dmap_record_to_bytes r = Inr b" and rest: "encode_all recs = Inr bs'"
    and bs: "bs = b @ bs'"
    using Cons.prems(2) by (auto split: sum.splits)
  have at: "bytes_at st b" "bytes_at (adv st (length b)) bs'"
    using Cons.prems(3) bs by (simp_all add: bytes_at_append)
  have rd: "read_record st = Inr (map (\<lambda>(k, fld). (k, rev_shape fld)) r, adv st (length b))"
    using read_record_at [OF _ b at(1)] Cons.prems(1) by simp
  have lt: "cursor st < dmap_end_bytes st"
    using record_bytes_length [OF b] Cons.prems(4) bs by simp
  let ?st' = "(adv st (length b))\<lparr>dmap_records := dmap_records st @ [map (\<lambda>(k, fld). (k, rev_shape fld)) r]\<rparr>"
  have "read_records_loop ?st' =
      Inr (?st'\<lparr>cursor := dmap_end_bytes ?st',
                 dmap_records := dmap_records ?st' @ map (map (\<lambda>(k, fld). (k, rev_shape fld))) recs\<rparr>)"
    using Cons.IH [of bs' ?st'] Cons.prems(1,4) rest at(2) bs by simp
  then show ?case
    using rd lt by (subst read_records_loop.simps) simp
qed

lemma blocks_from_encode_all:
  "encode_all recs = Inr bs \<Longrightarrow> blocks_from (pre @ bs) (int (length pre))"
proof (induction recs arbitrary: pre bs)
  case Nil
  then show ?case
    by (auto intro: blocks_end)
next
  case (Cons r recs)
  obtain b bs' where b: "dmap_record_to_bytes r = Inr b" and rest: "encode_all recs = Inr bs'"
    and bs: "bs = b @ bs'"
    using Cons.prems by (auto split: sum.splits)
  obtain d ns na where
    bb: "b = le_bytes 4 65537 @ le_bytes 4 (int (length d) + 16) @ le_bytes 4 (int ns) @ le_bytes 4 (int na) @ d"
    and rng: "int_range True 4 (int (length d) + 16)"
    using b by (rule record_bytes)
  have ih: "blocks_from ((pre @ b) @ bs') (int (length (pre @ b)))"
    using Cons.IH [OF rest] .
  have n: "nat (int (length pre) + 4) = length pre + 4"
    by simp
  have "drop (length pre + 4) (pre @ bs) = drop 4 bs"
    by simp
  also have "drop 4 bs = le_bytes 4 (int (length d) + 16) @ le_bytes 4 (int ns) @ le_bytes 4 (int na) @ d @ bs'"
    using bs bb by simp
  finally have t: "take 4 (drop (nat (int (length pre) + 4)) (pre @ bs)) = le_bytes 4 (int (length d) + 16)"
    unfolding n by simp
  have v: "le_sint (le_bytes 4 (int (length d) + 16)) = int (length d) + 16"
    using rng le_sint_le_bytes [of 4 "int (length d) + 16"] by (simp add: int_range_def)
  have lb: "int (length b) = int (length d) + 16"
    using bb by simp
  have ih': "blocks_from (pre @ bs) (int (length pre) + int (length b))"
    using ih bs by simp
  show ?case
  proof (rule blocks_step [where s = "int (length b)"])
    show "0 \<le> int (length pre)" by simp
    show "int (length pre) + 8 \<le> int (length (pre @ bs))" using bs lb by simp
    show "le_sint (take 4 (drop (nat (int (length pre) + 4)) (pre @ bs))) = int (length b)"
      using t v lb by simp
    show "0 < int (length b)" using lb by simp
    show "int (length pre) + int (length b) \<le> int (length (pre @ bs))" using bs by simp
    show "blocks_from (pre @ bs) (int (length pre) + int (length b))" using ih' .
  qed
qed

lemma bytes_at_stream:
  "dmap_read_stream bs = Inr st \<Longrightarrow> bytes_at st bs \<and> cursor st = 0 \<and> dmap_end_bytes st = int (length bs)
     \<and> dmap_records st = [] \<and> dmap_bytearr st = bs \<and> reader_wf st"
  by (cases "bs = []") (auto simp: dmap_read_stream_def bytes_at_def reader_wf_def Let_def)

lemma read_dmap_stream_at:
  assumes "\<forall>r \<in> set recs. record_ok r" and "recs \<noteq> []" and "encode_all recs = Inr bs"
  shows "read_dmap_stream bs = Inr (map (map (\<lambda>(k, fld). (k, rev_shape fld))) recs)"
proof -
  obtain r rs where recs: "recs = r # rs"
    using assms(2) by (cases recs) auto
  then obtain b rest where b: "dmap_record_to_bytes r = Inr b" and bs: "bs = b @ rest"
    using assms(3) by (auto split: sum.splits)
  have "bs \<noteq> []"
    using record_bytes_length [OF b] bs by auto
  then obtain st where st: "dmap_read_stream bs = Inr st"
    by (simp add: dmap_read_stream_def Let_def)
  have at: "bytes_at st bs" "cursor st = 0" "dmap_end_bytes st = int (length bs)" "dmap_records st = []"
    using bytes_at_stream [OF st] by simp_all
  have "read_records_loop st =
      Inr (st\<lparr>cursor := dmap_end_bytes st, dmap_records := map (map (\<lambda>(k, fld). (k, rev_shape fld))) recs\<rparr>)"
    using read_records_loop_at [OF assms(1) assms(3) at(1)] at by simp
  then show ?thesis
    using st by (simp add: read_dmap_stream_def read_records_def bytes_check_def)
qed

lemma encode_fields_counts:
  "encode_fields r = Inr (d, ns, na) \<Longrightarrow>
   ns = length (filter (is_scalar_field \<circ> snd) r) \<and> na = length (filter (Not \<circ> is_scalar_field \<circ> snd) r)"
  by (induction r arbitrary: d ns na rule: encode_fields.induct) (auto split: sum.splits prod.splits)

section \<open>The writers' output\<close>

lemma write_dmap_stream_encode_all:
  "write_dmap_stream recs \<lparr>w_records = [], w_bytearr = [], w_filename = fn\<rparr> = Inr (bs, st') \<Longrightarrow>
   encode_all recs = Inr bs"
  by (cases "recs = []")
     (auto simp: write_dmap_stream_def empty_record_check_def dmap_records_to_bytes_def
                 records_to_bytes_loop_ok Let_def split: sum.splits)

lemma encode_all_append:
  "encode_all (xs @ ys) =
     (case encode_all xs of
        Inl e \<Rightarrow> Inl e
      | Inr a \<Rightarrow> (case encode_all ys of Inl e \<Rightarrow> Inl e | Inr b \<Rightarrow> Inr (a @ b)))"
  by (induction xs) (auto split: sum.splits)

lemma read_dmap_stream_arrayless:
  assumes enc: "dmap_record_to_bytes r = Inr bs" and sc: "\<forall>(k, fld) \<in> set r. is_scalar_field fld"
  shows "read_dmap_stream (bs @ rest) = Inl (ZeroByteError 16)"
proof -
  obtain d ns na where ef: "encode_fields r = Inr (d, ns, na)"
    and bs: "bs = le_bytes 4 65537 @ le_bytes 4 (int (length d) + 16) @ le_bytes 4 (int ns)
                 @ le_bytes 4 (int na) @ d"
    and rng: "int_range True 4 (int (length d) + 16)" "int_range True 4 (int ns)" "int_range True 4 (int na)"
    using enc by (rule record_bytes)
  have na: "na = 0"
    using encode_fields_counts [OF ef] sc by (auto simp: filter_empty_conv)
  have "length bs = length d + 16"
    using bs by simp
  then have ne: "\<not> (bs = [] \<and> rest = [])" "int (length bs) + int (length rest) \<noteq> 0"
    by auto
  define st where "st = \<lparr>cursor = 0, dmap_end_bytes = int (length (bs @ rest)), dmap_bytearr = bs @ rest,
                         dmap_records = []\<rparr>"
  have st: "dmap_read_stream (bs @ rest) = Inr st"
    using ne unfolding st_def dmap_read_stream_def Let_def by simp
  have at: "bytes_at st (bs @ rest)" "cursor st = 0" "dmap_end_bytes st = int (length (bs @ rest))"
    using bytes_at_stream [OF st] by simp_all
  have hd: "read_data Fi 4 (adv st 4) = Inr (PInt (int (length d) + 16), adv st 8)"
    "read_data Fi 4 (adv st 8) = Inr (PInt (int ns), adv st 12)"
    "read_data Fi 4 (adv st 12) = Inr (PInt (int na), adv st 16)"
    using header_at [of st 65537 "int (length d) + 16" "int ns" "int na" "d @ rest"] at(1) bs rng
    by simp_all
  have "read_record st = Inl (ZeroByteError 16)"
    using hd at na bs
    by (simp add: read_record_def bytes_check_def zero_negative_check_def Let_def)
  moreover have "cursor st < dmap_end_bytes st"
    using at bs by simp
  ultimately show ?thesis
    using st by (simp add: read_dmap_stream_def read_records_def read_records_loop.simps)
qed

lemma encode_all_nonempty:
  "encode_all ys = Inr b \<Longrightarrow> ys \<noteq> [] \<Longrightarrow> 16 \<le> length b"
  by (cases ys) (auto dest: record_bytes_length split: sum.splits)

section \<open>The block layout\<close>

text \<open>C14: The block \<open>__dmap_record_to_bytes\<close> writes for a record starts with
  the encoding identifier \<open>65537\<close>, then a block size equal to the length of
  the whole block (payload plus the 16 header bytes), then the number of
  scalar fields and the number of array fields of the record, as the reader's
  header checks and the prescan expect them.\<close>

theorem record_layout:
  assumes "dmap_record_to_bytes r = Inr bs"
  shows "le_sint (take 4 bs) = 65537 \<and> le_sint (take 4 (drop 4 bs)) = int (length bs)
    \<and> le_sint (take 4 (drop 8 bs)) = int (length (filter (is_scalar_field \<circ> snd) r))
    \<and> le_sint (take 4 (drop 12 bs)) = int (length (filter (Not \<circ> is_scalar_field \<circ> snd) r))"
proof -
  obtain d ns na where ef: "encode_fields r = Inr (d, ns, na)"
    and bs: "bs = le_bytes 4 65537 @ le_bytes 4 (int (length d) + 16) @ le_bytes 4 (int ns)
                 @ le_bytes 4 (int na) @ d"
    and rng: "int_range True 4 (int (length d) + 16)" "int_range True 4 (int ns)" "int_range True 4 (int na)"
    using assms by (rule record_bytes)
  have le: "int_range True 4 v \<Longrightarrow> le_sint (le_bytes 4 v) = v" for v
    using le_sint_le_bytes [of 4 v] by (simp add: int_range_def)
  have "int_range True 4 65537"
    by (simp add: int_range_def)
  then show ?thesis
    using le rng bs encode_fields_counts [OF ef] by simp
qed

theorem record_layout_witness:
  "le_sint (take 4 (drop 4 sample_block)) = 42 \<and> le_sint (take 4 (drop 12 sample_block)) = 1"
proof -
  have "dmap_record_to_bytes sample_record = Inr sample_block"
    by code_simp
  from record_layout [OF this] show ?thesis
    by simp
qed

text \<open>C27: The block size is packed as a C \<open>int\<close>: a record whose fields
  encode is written exactly when its block (payload and 16 header bytes) is
  shorter than \<open>2^31\<close> bytes, and beyond that \<open>struct.pack\<close> raises
  \<open>struct.error\<close>; the two counts never overflow first, since every field
  takes at least one byte.\<close>

theorem record_block_size_limit:
  assumes "encode_fields r = Inr (d, ns, na)"
  shows "dmap_record_to_bytes r =
    (if int (length d) + 16 < 2 ^ 31
     then Inr (le_bytes 4 65537 @ le_bytes 4 (int (length d) + 16) @ le_bytes 4 (int ns)
               @ le_bytes 4 (int na) @ d)
     else Inl StructError)"
proof -
  have cnt: "ns + na \<le> length d" using encode_fields_count [OF assms] .
  have "pack_ints [65537, int (length d) + 16, int ns, int na] =
    (if int (length d) + 16 < 2 ^ 31
     then Inr (le_bytes 4 65537 @ le_bytes 4 (int (length d) + 16) @ le_bytes 4 (int ns)
               @ le_bytes 4 (int na))
     else Inl StructError)"
    using cnt by (simp add: pack_ints_eq int_range_def)
  then show ?thesis
    using assms by (simp add: dmap_record_to_bytes_def)
qed

theorem record_block_size_limit_witness:
  "dmap_record_to_bytes sample_record = Inr sample_block"
proof -
  have "encode_fields sample_record = Inr (drop 16 sample_block, 1, 1)"
    by code_simp
  from record_block_size_limit [OF this] show ?thesis
    by simp
qed

end
