(* ===== verification/Dmap_Read_Props.thy ===== *)
theory Dmap_Read_Props
  imports Dmap_File
begin

text \<open>
  Properties of the reader that the codec's users rely on: the types of the
  values read,
  the keys of a record read, the bounds of an array read, and the NUL scan.
\<close>

text \<open>The values a field of each format can hold: the type discipline that
  \<open>struct.unpack_from\<close> and the one-byte read give the reader's values.\<close>

fun value_has_fmt :: "fmt \<Rightarrow> pyval \<Rightarrow> bool" where
  "value_has_fmt Fnone v = False"
| "value_has_fmt Fc v = (case v of PInt i \<Rightarrow> 0 \<le> i \<and> i < 256 | _ \<Rightarrow> False)"
| "value_has_fmt Fs v = (case v of PStr _ \<Rightarrow> True | _ \<Rightarrow> False)"
| "value_has_fmt Ff v = (case v of PFloat32 _ \<Rightarrow> True | _ \<Rightarrow> False)"
| "value_has_fmt Fd v = (case v of PFloat64 _ \<Rightarrow> True | _ \<Rightarrow> False)"
| "value_has_fmt f v =
     (case (int_fmt f, v) of (Some is_signed, PInt i) \<Rightarrow> int_range is_signed (fmt_size f) i | _ \<Rightarrow> False)"

text \<open>A record whose keys are distinct and each the name of its field.\<close>

definition keys_ok :: "dmap_record \<Rightarrow> bool" where
  "keys_ok r \<longleftrightarrow> distinct (map fst r) \<and> (\<forall>(k, fld) \<in> set r. k = field_name fld)"

section \<open>Types of the values read\<close>

lemma le_sint_bounds:
  assumes "length bs = n" and "0 < n"
  shows "- (2 ^ (8 * n - 1)) \<le> le_sint bs \<and> le_sint bs < 2 ^ (8 * n - 1)"
proof -
  have m: "(2::int) ^ (8 * n) = 2 * 2 ^ (8 * n - 1)"
    using assms(2) by (simp add: power_Suc [symmetric])
  have "0 \<le> le_uint bs" "le_uint bs < 2 ^ (8 * n)"
    using le_uint_bounds [of bs] assms(1) by simp_all
  then show ?thesis
    using m assms(1) by (auto simp: le_sint_def Let_def)
qed

lemma struct_unpack_typed:
  assumes "length bs = fmt_size f" and "f \<noteq> Fnone" and "f \<noteq> Fc" and "f \<noteq> Fs"
  shows "value_has_fmt f (hd (struct_unpack f bs))"
proof (cases "int_fmt f")
  case None
  with assms(2,3,4) have "f = Ff \<or> f = Fd"
    by (cases f) auto
  then show ?thesis
    by auto
next
  case (Some is_signed)
  have pos: "0 < fmt_size f"
    using Some by (cases f) auto
  show ?thesis
  proof (cases is_signed)
    case True
    then show ?thesis
      using Some le_sint_bounds [OF assms(1) pos]
      by (cases f) (auto simp: int_range_def)
  next
    case False
    then show ?thesis
      using Some le_uint_bounds [of bs] assms(1)
      by (cases f) (auto simp: int_range_def)
  qed
qed

lemma read_data_typed:
  assumes "read_data f (fmt_size f) st = Inr (v, st')" and "f \<noteq> Fnone"
  shows "value_has_fmt f v"
proof -
  consider "f = Fc" | "f = Fs" | "f \<noteq> Fc" "f \<noteq> Fs"
    by blast
  then show ?thesis
  proof cases
    case 1
    then show ?thesis
      using assms(1) uint_bounded [of "x :: byte" for x]
      by (auto simp: read_data_def Let_def split: if_splits option.splits)
  next
    case 2
    then show ?thesis
      using assms(1) by (auto simp: read_data_def Let_def split: if_splits option.splits sum.splits)
  next
    case 3
    then obtain p rest where "unpack_offset (length (dmap_bytearr st)) (cursor st) (fmt_size f) = Inr p"
      and "struct_unpack f (take (fmt_size f) (drop p (dmap_bytearr st))) = v # rest"
      using assms(1)
      by (auto simp: read_data_def Let_def unpack_from_def split: if_splits sum.splits list.splits)
    moreover from calculation have "length (take (fmt_size f) (drop p (dmap_bytearr st))) = fmt_size f"
      by (auto simp: unpack_offset_def Let_def split: if_splits)
    ultimately show ?thesis
      using struct_unpack_typed [of "take (fmt_size f) (drop p (dmap_bytearr st))" f] 3 assms(2)
      by simp
  qed
qed

lemma read_data_Fnone: "read_data Fnone n st \<noteq> Inr (v, st')"
  by (auto simp: read_data_def Let_def unpack_from_def split: if_splits sum.splits)

text \<open>C15: A scalar that is read carries a type code of the registry, the
  registry's format for that code (never the reserved format), and a value of
  that format: a byte for \<open>'c'\<close>, a text for \<open>'s'\<close>, a float of the right width
  for \<open>'f'\<close>/\<open>'d'\<close>, an integer within the range of its width otherwise.\<close>

theorem read_scalar_typed:
  assumes "read_scalar st = Inr (sc, st')"
  shows "map_option fst (dmap_data_types (s_data_type sc)) = Some (s_data_type_fmt sc)
    \<and> s_data_type_fmt sc \<noteq> Fnone \<and> value_has_fmt (s_data_type_fmt sc) (s_value sc)"
proof -
  obtain nm st1 ty st2 f w st3 where
      tys: "dmap_data_types (int_of ty) = Some (f, w)"
    and rd: "read_data f w st2 = Inr (s_value sc, st3)"
    and sc: "s_data_type sc = int_of ty" "s_data_type_fmt sc = f"
    using assms
    by (auto simp: read_scalar_def split: sum.splits option.splits prod.splits)
  have w: "w = fmt_size f"
    using tys by (rule dmap_data_types_width)
  have f: "f \<noteq> Fnone"
    using rd read_data_Fnone by blast
  show ?thesis
    using tys sc f read_data_typed [OF rd [unfolded w] f] by simp
qed

theorem read_scalar_typed_witness:
  "read_scalar (sample_reader\<lparr>cursor := 16\<rparr>) =
     Inr (\<lparr>s_name = py ''a'', s_value = PInt 7, s_data_type = 3, s_data_type_fmt = Fi\<rparr>,
          sample_reader\<lparr>cursor := 23\<rparr>)
   \<and> value_has_fmt Fi (PInt 7)"
proof -
  have r: "read_scalar (sample_reader\<lparr>cursor := 16\<rparr>) =
     Inr (\<lparr>s_name = py ''a'', s_value = PInt 7, s_data_type = 3, s_data_type_fmt = Fi\<rparr>,
          sample_reader\<lparr>cursor := 23\<rparr>)"
    by code_simp
  show ?thesis
    using read_scalar_typed [OF r] r by simp
qed

section \<open>The keys of a record read\<close>

lemma keys_ok_od_set:
  "keys_ok r \<Longrightarrow> k = field_name v \<Longrightarrow> keys_ok (od_set r k v)"
  using set_od_set [of r k v] by (fastforce simp: keys_ok_def distinct_od_set)

lemma read_scalars_keys:
  "read_scalars n r st = Inr (r', st') \<Longrightarrow> keys_ok r \<Longrightarrow> keys_ok r'"
  by (induction n r st rule: read_scalars.induct)
     (auto simp: keys_ok_od_set split: sum.splits prod.splits)

lemma read_arrays_keys:
  "read_arrays n bsz r st = Inr (r', st') \<Longrightarrow> keys_ok r \<Longrightarrow> keys_ok r'"
  by (induction n bsz r st rule: read_arrays.induct)
     (auto simp: keys_ok_od_set split: sum.splits prod.splits)

text \<open>C16: A record that is read has distinct keys, each the name of the field
  stored under it (a field name that occurs twice in a block is not an error:
  the later field replaces the earlier in the earlier one's place).\<close>

theorem read_record_keys:
  assumes "read_record st = Inr (r, st')"
  shows "distinct (map fst r) \<and> (\<forall>(k, fld) \<in> set r. k = field_name fld)"
proof -
  obtain n1 n2 bsz r1 st4 st5 where
      s: "read_scalars n1 [] st4 = Inr (r1, st5)" and a: "read_arrays n2 bsz r1 st5 = Inr (r, st')"
    using assms by (fastforce simp: read_record_def Let_def split: sum.splits prod.splits if_splits)
  have "keys_ok []"
    by (simp add: keys_ok_def)
  then have "keys_ok r1"
    using read_scalars_keys [OF s] by blast
  then have "keys_ok r"
    using read_arrays_keys [OF a] by blast
  then show ?thesis
    by (simp add: keys_ok_def)
qed

theorem read_record_keys_witness:
  "read_record sample_reader = Inr (sample_record, sample_reader\<lparr>cursor := 42\<rparr>)
   \<and> distinct (map fst sample_record)"
proof -
  have r: "read_record sample_reader = Inr (sample_record, sample_reader\<lparr>cursor := 42\<rparr>)"
    by code_simp
  show ?thesis
    using read_record_keys [OF r] r by simp
qed

section \<open>Bounds of an array read\<close>

lemma shape_check_ok:
  "shape_check name dim bsz shape = Inr () \<longleftrightarrow>
   length shape = nat dim \<and> (\<forall>x \<in> set shape. x < bsz \<and> (0 < x \<or> name = py ''slist''))"
proof
  assume "shape_check name dim bsz shape = Inr ()"
  then have "length shape = nat dim" "\<not> ((\<exists>x \<in> set shape. x \<le> 0) \<and> name \<noteq> py ''slist'')"
    "\<not> (\<exists>x \<in> set shape. bsz \<le> x)"
    by (auto simp: shape_check_def split: if_splits)
  then show "length shape = nat dim \<and> (\<forall>x \<in> set shape. x < bsz \<and> (0 < x \<or> name = py ''slist''))"
    by (meson not_le)
next
  assume "length shape = nat dim \<and> (\<forall>x \<in> set shape. x < bsz \<and> (0 < x \<or> name = py ''slist''))"
  then show "shape_check name dim bsz shape = Inr ()"
    unfolding shape_check_def by (auto simp: not_le)
qed

text \<open>C17: An array that is read within a block of \<open>record_size\<close> bytes has
  a positive dimension count of at most \<open>record_size\<close> matching its shape,
  every dimension below \<open>record_size\<close> and positive (only \<open>slist\<close> may have an
  empty dimension), and at most \<open>record_size\<close> cells and \<open>record_size\<close> bytes
  of data: the array invariant of the specification.\<close>

theorem read_array_bounds:
  assumes "read_array bsz st = Inr (a, st')"
  shows "0 < a_dimension a \<and> a_dimension a \<le> bsz \<and> length (a_shape a) = nat (a_dimension a)
    \<and> (\<forall>x \<in> set (a_shape a). x < bsz \<and> (0 < x \<or> a_name a = py ''slist''))
    \<and> prod_list (a_shape a) \<le> bsz \<and> prod_list (a_shape a) * int (fmt_size (a_data_type_fmt a)) \<le> bsz"
proof -
  obtain nm ty f w dim shape val where
      tys: "dmap_data_types (int_of ty) = Some (f, w)"
    and bd: "bytes_check dim bsz st = Inr ()" "zero_negative_check dim st = Inr ()"
    and sc: "shape_check (str_of nm) dim bsz shape = Inr ()"
    and bc: "bytes_check (prod_list shape) bsz st = Inr ()" "bytes_check (prod_list shape * int w) bsz st = Inr ()"
    and a: "a = \<lparr>a_name = str_of nm, a_value = val, a_data_type = int_of ty, a_data_type_fmt = f,
                 a_dimension = dim, a_shape = shape\<rparr>"
    using assms
    by (fastforce simp: read_array_def Let_def bytes_check_def zero_negative_check_def
                  split: sum.splits prod.splits option.splits if_splits)
  have w: "w = fmt_size f"
    using tys by (rule dmap_data_types_width)
  show ?thesis
    using bd sc bc a w
    by (auto simp: bytes_check_def zero_negative_check_def shape_check_ok split: if_splits)
qed

theorem read_array_bounds_witness:
  "read_array 42 (sample_reader\<lparr>cursor := 23\<rparr>) =
     Inr (\<lparr>a_name = py ''b'', a_value = NdNum Fi (le_bytes 4 5 @ le_bytes 4 6),
           a_data_type = 3, a_data_type_fmt = Fi, a_dimension = 1, a_shape = [2]\<rparr>,
          sample_reader\<lparr>cursor := 42\<rparr>)
   \<and> prod_list [2::int] * 4 \<le> 42"
proof -
  have r: "read_array 42 (sample_reader\<lparr>cursor := 23\<rparr>) =
     Inr (\<lparr>a_name = py ''b'', a_value = NdNum Fi (le_bytes 4 5 @ le_bytes 4 6),
           a_data_type = 3, a_data_type_fmt = Fi, a_dimension = 1, a_shape = [2]\<rparr>,
          sample_reader\<lparr>cursor := 42\<rparr>)"
    by code_simp
  show ?thesis
    using read_array_bounds [OF r] r by simp
qed

section \<open>The NUL scan ends\<close>

text \<open>C18: The scan of \<open>read_data('s')\<close> for the end of a string terminates at
  the first NUL: when a NUL lies inside the buffer before the end mark, the
  scan returns its offset, and every byte before it is non-zero.\<close>

theorem scan_nul_finds_nul:
  assumes "0 \<le> c" and "0 \<le> k" and "c + k \<le> p" and "p < e" and "e \<le> int (length arr)"
    and "arr ! nat p = 0"
  shows "\<exists>j. k \<le> j \<and> c + j \<le> p \<and> scan_nul arr e c k = Inr j \<and> arr ! nat (c + j) = 0
    \<and> (\<forall>i. k \<le> i \<and> i < j \<longrightarrow> arr ! nat (c + i) \<noteq> 0)"
  using assms(2,3)
proof (induction "nat (p - c - k)" arbitrary: k rule: less_induct)
  case less
  have idx: "py_index arr (c + k) = Some (arr ! nat (c + k))"
    using less.prems assms(1,4,5) by (simp add: py_index_def Let_def)
  show ?case
  proof (cases "arr ! nat (c + k) = 0")
    case True
    then have "scan_nul arr e c k = Inr k"
      using idx less.prems assms(4) by (subst scan_nul.simps) simp
    with True less.prems show ?thesis
      by auto
  next
    case False
    then have lt: "c + k < p"
      using less.prems assms(6) by (cases "c + k = p") auto
    then obtain j where j: "k + 1 \<le> j" "c + j \<le> p" "scan_nul arr e c (k + 1) = Inr j"
        "arr ! nat (c + j) = 0" "\<forall>i. k + 1 \<le> i \<and> i < j \<longrightarrow> arr ! nat (c + i) \<noteq> 0"
      using less.hyps [of "k + 1"] less.prems by auto
    have "scan_nul arr e c k = Inr j"
      using idx False j(3) by (subst scan_nul.simps) simp
    moreover have "\<forall>i. k \<le> i \<and> i < j \<longrightarrow> arr ! nat (c + i) \<noteq> 0"
    proof (intro allI impI)
      fix i
      assume "k \<le> i \<and> i < j"
      then show "arr ! nat (c + i) \<noteq> 0"
        using j(5) False by (cases "i = k") auto
    qed
    ultimately show ?thesis
      using j less.prems by auto
  qed
qed

theorem scan_nul_finds_nul_witness:
  "scan_nul [97, 0] 2 0 0 = Inr 1"
proof -
  obtain j where j: "0 \<le> j" "j \<le> 1" "scan_nul [97, 0] 2 0 0 = Inr j"
      "\<forall>i. 0 \<le> i \<and> i < j \<longrightarrow> [97, 0::byte] ! nat i \<noteq> 0" "[97, 0::byte] ! nat j = 0"
    using scan_nul_finds_nul [of 0 0 1 2 "[97, 0]"] by auto
  have "j \<noteq> 0"
    using j(5) by auto
  with j(1,2,3) show ?thesis
    by (cases "j = 1") auto
qed

end
