(* ===== verification/Dmap_Read_Loop.thy ===== *)
theory Dmap_Read_Loop
  imports Dmap_File
begin

text \<open>
  The record loop of \<open>DmapRead.read_records\<close> (\<open>while self.cursor <
  self.dmap_end_bytes: self.read_record()\<close>) as a transition system: one step
  reads one record at the cursor and appends it.  Every run reaches a state
  where the loop stops (the end of the buffer, or a record whose read raises)
  within one step per byte, because \<open>read_record\<close> moves the cursor forward
  by a positive block size; the buffer never changes along a run and the
  records only grow, one per step.
\<close>

section \<open>The step relation\<close>

inductive read_step :: "dmap_read \<Rightarrow> dmap_read \<Rightarrow> bool" where
  read_one: "cursor st < dmap_end_bytes st \<Longrightarrow> read_record st = Inr (r, st1) \<Longrightarrow>
     read_step st (st1\<lparr>dmap_records := dmap_records st1 @ [r]\<rparr>)"

code_pred read_step .

inductive_cases read_stepE: "read_step st st'"

text \<open>A state where the loop stops: the cursor is at or past the end, or the
  record at the cursor raises.\<close>

definition loop_final :: "dmap_read \<Rightarrow> bool" where
  "loop_final st \<longleftrightarrow> dmap_end_bytes st \<le> cursor st \<or> isl (read_record st)"

section \<open>Lemmas\<close>

lemma read_step_progress:
  assumes "read_step st st'"
  shows "cursor st < cursor st' \<and> cursor st' \<le> dmap_end_bytes st
    \<and> dmap_end_bytes st' = dmap_end_bytes st \<and> dmap_bytearr st' = dmap_bytearr st
    \<and> (\<exists>r. dmap_records st' = dmap_records st @ [r])"
proof -
  from assms obtain r st1 where c: "cursor st < dmap_end_bytes st"
    and rr: "read_record st = Inr (r, st1)"
    and st': "st' = st1\<lparr>dmap_records := dmap_records st1 @ [r]\<rparr>"
    by (auto elim: read_stepE)
  from read_record_progress [OF rr] show ?thesis
    using st' by (auto simp: same_buffer_fields)
qed

text \<open>The run the loop makes: from every state, a final state is reached by
  steps, at most one per byte left; this is the computation the function
  performs.\<close>

lemma read_step_run:
  "\<exists>n st'. (read_step ^^ n) st st' \<and> n \<le> nat (dmap_end_bytes st - cursor st) \<and> loop_final st'"
proof (induction st rule: read_records_loop.induct)
  case (1 st)
  show ?case
  proof (cases "cursor st < dmap_end_bytes st \<and> \<not> isl (read_record st)")
    case False
    then have "loop_final st" by (auto simp: loop_final_def)
    then show ?thesis by (intro exI [of _ 0] exI [of _ st]) simp
  next
    case True
    then obtain r st1 where c: "cursor st < dmap_end_bytes st" and rr: "read_record st = Inr (r, st1)"
      by (cases "read_record st") auto
    let ?st2 = "st1\<lparr>dmap_records := dmap_records st1 @ [r]\<rparr>"
    have s: "read_step st ?st2" using c rr by (rule read_one)
    from "1.IH" [OF c rr refl] obtain n st' where
      run: "(read_step ^^ n) ?st2 st'" and n: "n \<le> nat (dmap_end_bytes ?st2 - cursor ?st2)"
      and fin: "loop_final st'" by blast
    from read_step_progress [OF s]
    have "nat (dmap_end_bytes ?st2 - cursor ?st2) < nat (dmap_end_bytes st - cursor st)"
      by simp
    with n have "n < nat (dmap_end_bytes st - cursor st)" by linarith
    moreover have "(read_step ^^ Suc n) st st'"
      using s run by (rule relpowp_Suc_I2)
    ultimately show ?thesis using fin by (intro exI [of _ "Suc n"] exI [of _ st']) simp
  qed
qed

lemma loop_final_no_step: "loop_final st \<Longrightarrow> \<not> read_step st st'"
  by (auto simp: loop_final_def elim: read_stepE)

section \<open>Properties\<close>

text \<open>C25: the loop always gets somewhere: from every reader state, after at
  most one record per byte left in the buffer, it reaches a state where it
  stops (the end, or a record that raises) and from which no step is
  possible.\<close>

theorem read_loop_terminates:
  "\<exists>n st'. (read_step ^^ n) st st' \<and> n \<le> nat (dmap_end_bytes st - cursor st)
     \<and> loop_final st' \<and> \<not> (\<exists>st''. read_step st' st'')"
  using read_step_run loop_final_no_step by blast

text \<open>C26: along any run of \<open>n\<close> steps the buffer and its end stay fixed,
  the cursor moves at least one byte per record and stays within the buffer,
  and exactly \<open>n\<close> records are appended after those already read.\<close>

theorem read_steps_inv:
  assumes "(read_step ^^ n) st st'"
  shows "dmap_bytearr st' = dmap_bytearr st \<and> dmap_end_bytes st' = dmap_end_bytes st
    \<and> cursor st + int n \<le> cursor st'
    \<and> (\<exists>rs. length rs = n \<and> dmap_records st' = dmap_records st @ rs)
    \<and> (n = 0 \<or> cursor st' \<le> dmap_end_bytes st)"
  using assms
proof (induction n arbitrary: st')
  case 0
  then show ?case by simp
next
  case (Suc n)
  then obtain st1 where run: "(read_step ^^ n) st st1" and s: "read_step st1 st'" by auto
  from Suc.IH [OF run] obtain rs where
    ih: "dmap_bytearr st1 = dmap_bytearr st" "dmap_end_bytes st1 = dmap_end_bytes st"
      "cursor st + int n \<le> cursor st1" "length rs = n" "dmap_records st1 = dmap_records st @ rs"
    by blast
  from read_step_progress [OF s] obtain r where
    p: "cursor st1 < cursor st'" "cursor st' \<le> dmap_end_bytes st1"
      "dmap_end_bytes st' = dmap_end_bytes st1" "dmap_bytearr st' = dmap_bytearr st1"
      "dmap_records st' = dmap_records st1 @ [r]"
    by blast
  have "length (rs @ [r]) = Suc n \<and> dmap_records st' = dmap_records st @ (rs @ [r])"
    using ih p by simp
  then show ?case using ih p by auto
qed

theorem read_steps_inv_witness:
  "dmap_bytearr (sample_reader\<lparr>cursor := 42, dmap_records := [sample_record]\<rparr>) = sample_block
   \<and> cursor (sample_reader\<lparr>cursor := 42, dmap_records := [sample_record]\<rparr>) \<le> 42
   \<and> 1 \<le> cursor (sample_reader\<lparr>cursor := 42, dmap_records := [sample_record]\<rparr>)"
proof -
  have "read_step sample_reader ((sample_reader\<lparr>cursor := 42\<rparr>)\<lparr>dmap_records :=
          dmap_records (sample_reader\<lparr>cursor := 42\<rparr>) @ [sample_record]\<rparr>)"
    by (rule read_one [OF _ sample_read_record]) simp
  then have "read_step sample_reader (sample_reader\<lparr>cursor := 42, dmap_records := [sample_record]\<rparr>)"
    by simp
  then have "(read_step ^^ 1) sample_reader (sample_reader\<lparr>cursor := 42, dmap_records := [sample_record]\<rparr>)"
    by (simp only: relpowp_1)
  from read_steps_inv [OF this] show ?thesis by simp
qed

end
