(* ===== verification/Grid_Plot.thy ===== *)
theory Grid_Plot
  imports Dmap_Types
begin

text \<open>
  \<open>Grid.plot_grid\<close> of \<open>src/pydarn/plotting/grid.py\<close>: the choice of the
  record to plot (by index, or by start time), the lookups of the fields it
  plots, the default colour map and colour range of the parameter, and the
  title.  The drawing itself (\<open>Fan.plot_fov\<close>, the AACGM conversion, the
  trigonometry of the velocity vectors, matplotlib) is not modelled: the
  field of view is a parameter \<open>plot_fov\<close> that may fail, and the result of a
  call records what was selected instead of the coordinate arrays.
\<close>

section \<open>Values and records\<close>

text \<open>A value of a grid record as \<open>SDarnRead\<close> returns it: an integer, a
  number, or an array of values.\<close>

datatype gval = GInt int | GNum | GArr "gval list"

type_synonym grid_record = "(pystr \<times> gval) list"

text \<open>A \<open>datetime\<close>: year, month, day, hour, minute.\<close>

type_synonym datetime = "int \<times> int \<times> int \<times> int \<times> int"

definition days_in_month :: "int \<Rightarrow> int \<Rightarrow> int" where
  "days_in_month y m =
     (if m = 2 then (if (y mod 4 = 0 \<and> y mod 100 \<noteq> 0) \<or> y mod 400 = 0 then 29 else 28)
      else if m \<in> {4, 6, 9, 11} then 30 else 31)"

text \<open>\<open>dt.datetime(year, month, day, hour, minute)\<close>: \<open>ValueError\<close> outside
  the calendar.\<close>

definition py_datetime :: "int \<Rightarrow> int \<Rightarrow> int \<Rightarrow> int \<Rightarrow> int \<Rightarrow> error + datetime" where
  "py_datetime y m d h mi =
     (if 1 \<le> y \<and> y \<le> 9999 \<and> 1 \<le> m \<and> m \<le> 12 \<and> 1 \<le> d \<and> d \<le> days_in_month y m
         \<and> 0 \<le> h \<and> h < 24 \<and> 0 \<le> mi \<and> mi < 60
      then Inr (y, m, d, h, mi) else Inl ValueError)"

text \<open>\<open>d[key]\<close> on a record and \<open>a[i]\<close> on an array value.\<close>

definition gget :: "grid_record \<Rightarrow> pystr \<Rightarrow> error + gval" where
  "gget r k = (case map_of r k of None \<Rightarrow> Inl KeyError | Some v \<Rightarrow> Inr v)"

definition gint :: "grid_record \<Rightarrow> pystr \<Rightarrow> error + int" where
  "gint r k = (case gget r k of Inl e \<Rightarrow> Inl e | Inr (GInt i) \<Rightarrow> Inr i | Inr _ \<Rightarrow> Inl TypeError)"

definition gindex :: "gval \<Rightarrow> int \<Rightarrow> error + gval" where
  "gindex v i =
     (case v of GArr xs \<Rightarrow> (case py_index xs i of None \<Rightarrow> Inl IndexError | Some x \<Rightarrow> Inr x)
      | _ \<Rightarrow> Inl TypeError)"

text \<open>The start time of a record, built as \<open>plot_grid\<close> builds it.\<close>

definition record_start :: "grid_record \<Rightarrow> error + datetime" where
  "record_start r =
     (case gint r (py ''start.year'') of Inl e \<Rightarrow> Inl e | Inr y \<Rightarrow>
     (case gint r (py ''start.month'') of Inl e \<Rightarrow> Inl e | Inr m \<Rightarrow>
     (case gint r (py ''start.day'') of Inl e \<Rightarrow> Inl e | Inr d \<Rightarrow>
     (case gint r (py ''start.hour'') of Inl e \<Rightarrow> Inl e | Inr h \<Rightarrow>
     (case gint r (py ''start.minute'') of Inl e \<Rightarrow> Inl e | Inr mi \<Rightarrow>
        py_datetime y m d h mi)))))"

section \<open>Choosing the record\<close>

text \<open>\<open>for record in range(len(dmap_data)): dtime = ...; if dtime ==
  start_time: break\<close> from index \<open>i\<close> on: the loop stops at a match, or runs
  out at the last record with that record's time.\<close>

fun start_search :: "grid_record list \<Rightarrow> nat \<Rightarrow> datetime \<Rightarrow> error + (nat \<times> datetime)" where
  "start_search [] i t = Inl IndexError"
| "start_search (r # rs) i t =
     (case record_start r of
        Inl e \<Rightarrow> Inl e
      | Inr dtime \<Rightarrow> if dtime = t \<or> rs = [] then Inr (i, dtime) else start_search rs (Suc i) t)"

text \<open>The record index and \<open>dtime\<close> after the \<open>if start_time is not None\<close>
  block: \<open>None\<close> for \<open>dtime\<close> when the name was never bound.\<close>

definition select_record ::
  "grid_record list \<Rightarrow> int \<Rightarrow> datetime option \<Rightarrow> error + (int \<times> datetime option)" where
  "select_record dmap_data record start_time =
     (case start_time of
        None \<Rightarrow> Inr (record, None)
      | Some t \<Rightarrow>
          if dmap_data = [] then Inr (record, None)
          else (case start_search dmap_data 0 t of
                  Inl e \<Rightarrow> Inl e
                | Inr (i, dtime) \<Rightarrow> Inr (int i, Some dtime)))"

section \<open>Parameter, colour range, title\<close>

definition grid_parameter :: "pystr \<Rightarrow> pystr" where
  "grid_parameter p =
     (if p = py ''vel'' \<or> p = py ''pwr'' \<or> p = py ''wdt''
      then py ''vector.'' @ p @ py ''.median'' else p)"

text \<open>\<open>defaultzminmax[parameter]\<close>.\<close>

definition default_zminmax :: "pystr \<Rightarrow> error + (int \<times> int)" where
  "default_zminmax p =
     (if p = py ''vector.pwr.median'' then Inr (0, 50)
      else if p = py ''vector.vel.median'' then Inr (0, 1000)
      else if p = py ''vector.wdt.median'' then Inr (0, 250)
      else Inl KeyError)"

text \<open>The keys of the default colour map dictionary.\<close>

definition default_cmap_key :: "pystr \<Rightarrow> bool" where
  "default_cmap_key p \<longleftrightarrow>
     p = py ''vector.pwr.median'' \<or> p = py ''vector.vel.median'' \<or> p = py ''vector.wdt.median''"

text \<open>\<open>"{year} {month} {day} {start_hour}:{start_minute} - {end_hour}:{end_minute}"\<close>.\<close>

definition grid_title :: "datetime \<Rightarrow> pystr \<Rightarrow> pystr \<Rightarrow> pystr" where
  "grid_title dtime eh em =
     (case dtime of (y, m, d, h, mi) \<Rightarrow>
        py_str_int y @ py '' '' @ py_str_int m @ py '' '' @ py_str_int d @ py '' ''
        @ py_str_int h @ py '':'' @ py_str_int mi @ py '' - '' @ eh @ py '':'' @ em)"

text \<open>\<open>"{0}".format(v)\<close> of a record value in the title.\<close>

definition gval_str :: "gval \<Rightarrow> error + pystr" where
  "gval_str v = (case v of GInt i \<Rightarrow> Inr (py_str_int i) | _ \<Rightarrow> Inl OutsideModel)"

section \<open>plot_grid\<close>

text \<open>What a call of \<open>plot_grid\<close> settled: the record plotted, its start time,
  the parameter key, the colour range, the title, and whether velocity vectors
  were drawn.\<close>

record grid_plot =
  pg_record :: int
  pg_time :: datetime
  pg_parameter :: pystr
  pg_zmin :: int
  pg_zmax :: int
  pg_title :: pystr
  pg_vectors :: bool

text \<open>The first block of \<open>plot_grid\<close> (lines 125-151): the parameter key,
  the record and \<open>dtime\<close>, the station id passed to \<open>Fan.plot_fov\<close> (the
  parameter \<open>plot_fov\<close>, whose other arguments do not fail) and the lookups of
  the coordinates.  It returns the key, the record index, the record and
  \<open>dtime\<close>.\<close>

definition grid_setup ::
  "(gval \<Rightarrow> datetime \<Rightarrow> error + unit) \<Rightarrow> grid_record list \<Rightarrow> int \<Rightarrow> datetime option \<Rightarrow> pystr \<Rightarrow>
   error + (pystr \<times> int \<times> grid_record \<times> datetime)" where
  "grid_setup plot_fov dmap_data record start_time parameter =
     (let p = grid_parameter parameter in
     (case select_record dmap_data record start_time of Inl e \<Rightarrow> Inl e | Inr (idx, dt) \<Rightarrow>
     (case py_index dmap_data idx of None \<Rightarrow> Inl IndexError | Some r \<Rightarrow>
     (case gget r (py ''stid'') of Inl e \<Rightarrow> Inl e | Inr sv \<Rightarrow>
     (case gindex sv 0 of Inl e \<Rightarrow> Inl e | Inr stid \<Rightarrow>
     (case dt of None \<Rightarrow> Inl NameError | Some dtime \<Rightarrow>
     (case plot_fov stid dtime of Inl e \<Rightarrow> Inl e | Inr _ \<Rightarrow>
     (case gget r (py ''vector.mlon'') of Inl e \<Rightarrow> Inl e | Inr _ \<Rightarrow>
     (case gget r (py ''vector.mlat'') of Inl e \<Rightarrow> Inl e | Inr _ \<Rightarrow>
        Inr (p, idx, r, dtime))))))))))"

text \<open>The colour map and colour range (lines 155-168): the default colour map
  dictionary and \<open>defaultzminmax\<close> are indexed by the key.\<close>

definition grid_zrange :: "pystr \<Rightarrow> bool \<Rightarrow> int option \<Rightarrow> int option \<Rightarrow> error + (int \<times> int)" where
  "grid_zrange p cmap_given zmin zmax =
     (if \<not> cmap_given \<and> \<not> default_cmap_key p then Inl KeyError else
     (case (case zmin of None \<Rightarrow> map_sum id fst (default_zminmax p) | Some z \<Rightarrow> Inr z) of
        Inl e \<Rightarrow> Inl e | Inr zmin' \<Rightarrow>
     (case (case zmax of None \<Rightarrow> map_sum id snd (default_zminmax p) | Some z \<Rightarrow> Inr z) of
        Inl e \<Rightarrow> Inl e | Inr zmax' \<Rightarrow> Inr (zmin', zmax'))))"

text \<open>The data of the key and, for the velocity, the vector directions (lines
  173-217); the result says whether vectors are drawn.\<close>

definition grid_data :: "grid_record \<Rightarrow> pystr \<Rightarrow> error + bool" where
  "grid_data r p =
     (case gget r p of Inl e \<Rightarrow> Inl e | Inr _ \<Rightarrow>
     (if p = py ''vector.vel.median'' then
        (case gget r (py ''vector.kvect'') of Inl e \<Rightarrow> Inl e | Inr _ \<Rightarrow> Inr True)
      else Inr False))"

text \<open>The title (lines 233-242).\<close>

definition grid_title_of :: "grid_record \<Rightarrow> datetime \<Rightarrow> pystr \<Rightarrow> error + pystr" where
  "grid_title_of r dtime title =
     (if title = [] then
        (case gget r (py ''end.hour'') of Inl e \<Rightarrow> Inl e | Inr ehv \<Rightarrow>
        (case gget r (py ''end.minute'') of Inl e \<Rightarrow> Inl e | Inr emv \<Rightarrow>
        (case gval_str ehv of Inl e \<Rightarrow> Inl e | Inr eh \<Rightarrow>
        (case gval_str emv of Inl e \<Rightarrow> Inl e | Inr em \<Rightarrow> Inr (grid_title dtime eh em)))))
      else Inr title)"

text \<open>\<open>Grid.plot_grid(dmap_data, record, start_time, parameter, cmap, zmin,
  zmax, title)\<close>: the four blocks in order.  \<open>cmap_given\<close> says whether a
  colour map was passed.\<close>

definition plot_grid ::
  "(gval \<Rightarrow> datetime \<Rightarrow> error + unit) \<Rightarrow> grid_record list \<Rightarrow> int \<Rightarrow> datetime option \<Rightarrow>
   pystr \<Rightarrow> bool \<Rightarrow> int option \<Rightarrow> int option \<Rightarrow> pystr \<Rightarrow> error + grid_plot" where
  "plot_grid plot_fov dmap_data record start_time parameter cmap_given zmin zmax title =
     (case grid_setup plot_fov dmap_data record start_time parameter of Inl e \<Rightarrow> Inl e
      | Inr (p, idx, r, dtime) \<Rightarrow>
     (case grid_zrange p cmap_given zmin zmax of Inl e \<Rightarrow> Inl e | Inr (zmin', zmax') \<Rightarrow>
     (case grid_data r p of Inl e \<Rightarrow> Inl e | Inr vectors \<Rightarrow>
     (case grid_title_of r dtime title of Inl e \<Rightarrow> Inl e | Inr title' \<Rightarrow>
        Inr \<lparr>pg_record = idx, pg_time = dtime, pg_parameter = p, pg_zmin = zmin', pg_zmax = zmax',
             pg_title = title', pg_vectors = vectors\<rparr>))))"

abbreviation grid_sample :: grid_record where
  "grid_sample \<equiv>
     [(py ''start.year'', GInt 2020), (py ''start.month'', GInt 1), (py ''start.day'', GInt 5),
      (py ''start.hour'', GInt 3), (py ''start.minute'', GInt 0),
      (py ''end.hour'', GInt 3), (py ''end.minute'', GInt 2), (py ''stid'', GArr [GInt 65]),
      (py ''vector.mlon'', GArr [GNum]), (py ''vector.mlat'', GArr [GNum]),
      (py ''vector.vel.median'', GArr [GNum]), (py ''vector.kvect'', GArr [GNum])]"

abbreviation grid_sample2 :: grid_record where
  "grid_sample2 \<equiv> (py ''start.minute'', GInt 2) # grid_sample"

section \<open>Properties\<close>

text \<open>C19: Called without a start time (the default \<open>start_time=None\<close>),
  \<open>plot_grid\<close> never returns: \<open>dtime\<close> is bound only inside the
  \<open>if start_time is not None\<close> block, so the call of \<open>Fan.plot_fov\<close> raises
  \<open>UnboundLocalError\<close> if the record lookups before it have not already
  failed.\<close>

theorem plot_grid_without_start_time_fails:
  "plot_grid plot_fov dmap_data record None parameter cmap_given zmin zmax title \<noteq> Inr g"
proof -
  have "grid_setup plot_fov dmap_data record None parameter \<noteq> Inr x" for x
    by (auto simp: grid_setup_def select_record_def Let_def split: option.splits sum.splits)
  then show ?thesis
    by (auto simp: plot_grid_def split: sum.splits prod.splits)
qed

lemma start_search_index:
  "start_search rs k t = Inr (i, d) \<Longrightarrow> k \<le> i \<and> i < k + length rs"
  by (induction rs k t rule: start_search.induct) (auto split: sum.splits if_splits)

text \<open>C20: With a start time, the record plotted is the first whose start
  time equals it; when none does, the loop runs out and the last record is
  plotted with its own time, without any error.\<close>

theorem start_search_selects:
  assumes "start_search rs k t = Inr (i, d)"
  shows "k \<le> i \<and> i < k + length rs \<and> record_start (rs ! (i - k)) = Inr d
    \<and> (\<forall>j < i - k. \<exists>d'. record_start (rs ! j) = Inr d' \<and> d' \<noteq> t)
    \<and> (d = t \<or> i - k = length rs - 1)"
  using assms
proof (induction rs k t arbitrary: i d rule: start_search.induct)
  case (1 i t)
  then show ?case by simp
next
  case (2 r rs k t)
  show ?case
  proof (cases "record_start r")
    case (Inl e)
    then show ?thesis using "2.prems" by simp
  next
    case (Inr d0)
    show ?thesis
    proof (cases "d0 = t \<or> rs = []")
      case True
      then show ?thesis using "2.prems" Inr by auto
    next
      case False
      then have rec: "start_search rs (Suc k) t = Inr (i, d)"
        using "2.prems" Inr by simp
      have ih: "Suc k \<le> i \<and> i < Suc k + length rs \<and> record_start (rs ! (i - Suc k)) = Inr d
        \<and> (\<forall>j < i - Suc k. \<exists>d'. record_start (rs ! j) = Inr d' \<and> d' \<noteq> t)
        \<and> (d = t \<or> i - Suc k = length rs - 1)"
        using "2.IH" [OF Inr False rec] .
      have "Suc k \<le> i"
        using ih by blast
      then have idx: "i - k = Suc (i - Suc k)"
        by arith
      have "\<forall>j < i - k. \<exists>d'. record_start ((r # rs) ! j) = Inr d' \<and> d' \<noteq> t"
      proof (intro allI impI)
        fix j
        assume "j < i - k"
        then show "\<exists>d'. record_start ((r # rs) ! j) = Inr d' \<and> d' \<noteq> t"
          using ih Inr False idx by (cases j) auto
      qed
      then show ?thesis
        using ih idx by auto
    qed
  qed
qed

theorem start_search_selects_witness:
  "start_search [grid_sample2, grid_sample] 0 (2020, 1, 5, 3, 0) = Inr (1, (2020, 1, 5, 3, 0))
   \<and> start_search [grid_sample2, grid_sample] 0 (2021, 1, 1, 0, 0) = Inr (1, (2020, 1, 5, 3, 0))"
proof -
  have a: "start_search [grid_sample2, grid_sample] 0 (2020, 1, 5, 3, 0) = Inr (1, (2020, 1, 5, 3, 0))"
    by code_simp
  have b: "start_search [grid_sample2, grid_sample] 0 (2021, 1, 1, 0, 0) = Inr (1, (2020, 1, 5, 3, 0))"
    by code_simp
  from start_search_selects [OF b] have "(2020, 1, 5, 3, 0) = ((2021, 1, 1, 0, 0) :: datetime) \<or> (1::nat) - 0 = 2 - 1"
    by simp
  with a b show ?thesis
    by simp
qed

text \<open>C21: Any parameter other than the three standard keys fails with
  \<open>KeyError\<close> unless the caller passes a colour map and both ends of the
  colour range: the default dictionaries know only the three keys.\<close>

theorem grid_zrange_other_parameter:
  assumes "\<not> default_cmap_key p" and "\<not> cmap_given \<or> zmin = None \<or> zmax = None"
  shows "grid_zrange p cmap_given zmin zmax = Inl KeyError"
proof -
  have "default_zminmax p = Inl KeyError"
    using assms(1) by (auto simp: default_zminmax_def default_cmap_key_def)
  then show ?thesis
    using assms by (cases zmin; cases zmax) (auto simp: grid_zrange_def)
qed

theorem grid_zrange_other_parameter_witness:
  "grid_zrange (py ''vector.mlon'') True (Some 0) None = Inl KeyError"
proof -
  have "\<not> default_cmap_key (py ''vector.mlon'')"
    by (simp add: default_cmap_key_def)
  then show ?thesis
    using grid_zrange_other_parameter [of "py ''vector.mlon''" True "Some 0" None] by simp
qed

end
