(* ===== verification/Borealis_Array.thy ===== *)
theory Borealis_Array
  imports Dmap_Types
begin

text \<open>
  \<open>BorealisArrayRead\<close> and \<open>BorealisArrayWrite\<close> of
  \<open>src/pydarn/io/borealis/borealis_array.py\<close>: the file-type guard, the
  dispatch on the file type, and the order of the calls to the HDF5 library
  (\<open>deepdish\<close>) and to \<open>BorealisUtilities.check_arrays\<close>.  Those calls, the
  format tables of \<open>borealis_formats\<close> and the conversion to site records
  are not part of this repository: they are the fields of an environment
  \<open>borealis_env\<close>, over whose arrays type \<open>'arr\<close> and tables type \<open>'fmt\<close> the
  theorems are stated.  A writer returns, beside its result, the list of the
  file operations it performed, so that the order of check and save is
  visible.  In this revision the module does not parse (its \<open>from pydarn
  import\<close> statement ends a line with a comma outside parentheses), so these
  are the behaviours of the method bodies as written, once the module
  imports.
\<close>

section \<open>The environment\<close>

record ('arr, 'fmt) borealis_env =
  be_load :: "pystr \<Rightarrow> error + 'arr"
  be_save :: "pystr \<Rightarrow> 'arr \<Rightarrow> pystr \<Rightarrow> error + unit"
  be_check :: "pystr \<Rightarrow> 'arr \<Rightarrow> 'fmt \<Rightarrow> error + unit"
  be_empty :: 'arr
  be_bfiq :: 'fmt
  be_rawacf :: 'fmt
  be_antennas_iq :: 'fmt

text \<open>The file operations of a writer, in the order performed: \<open>dd.io.save\<close>
  of a file name with a compression.\<close>

datatype file_op = Save pystr pystr

text \<open>The tables \<open>borealis_formats\<close> holds for each restructured file type.\<close>

definition borealis_tables :: "('arr, 'fmt) borealis_env \<Rightarrow> pystr \<Rightarrow> 'fmt" where
  "borealis_tables env ft =
     (if ft = py ''bfiq'' then be_bfiq env
      else if ft = py ''rawacf'' then be_rawacf env else be_antennas_iq env)"

abbreviation array_types :: "pystr set" where
  "array_types \<equiv> {py ''bfiq'', py ''rawacf'', py ''antennas_iq''}"

section \<open>BorealisArrayRead\<close>

record 'arr borealis_array_read =
  bar_filename :: pystr
  bar_filetype :: pystr
  bar_arrays :: 'arr

text \<open>\<open>_read_borealis_arrays(attribute_types, dataset_types,
  unshared_fields)\<close>: load the file, check the arrays, keep them.  The three
  tables are one value of \<open>'fmt\<close>.\<close>

definition read_borealis_arrays ::
  "('arr, 'fmt) borealis_env \<Rightarrow> 'fmt \<Rightarrow> 'arr borealis_array_read \<Rightarrow> error + 'arr borealis_array_read" where
  "read_borealis_arrays env tables st =
     (case be_load env (bar_filename st) of
        Inl e \<Rightarrow> Inl e
      | Inr arrays \<Rightarrow>
          (case be_check env (bar_filename st) arrays tables of
             Inl e \<Rightarrow> Inl e
           | Inr _ \<Rightarrow> Inr (st\<lparr>bar_arrays := arrays\<rparr>)))"

definition read_bfiq ::
  "('arr, 'fmt) borealis_env \<Rightarrow> 'arr borealis_array_read \<Rightarrow> error + 'arr borealis_array_read" where
  "read_bfiq env st = read_borealis_arrays env (be_bfiq env) st"

definition read_rawacf ::
  "('arr, 'fmt) borealis_env \<Rightarrow> 'arr borealis_array_read \<Rightarrow> error + 'arr borealis_array_read" where
  "read_rawacf env st = read_borealis_arrays env (be_rawacf env) st"

definition read_antennas_iq ::
  "('arr, 'fmt) borealis_env \<Rightarrow> 'arr borealis_array_read \<Rightarrow> error + 'arr borealis_array_read" where
  "read_antennas_iq env st = read_borealis_arrays env (be_antennas_iq env) st"

text \<open>\<open>read_file()\<close>.  Its last branch raises
  \<open>BorealisFileTypeError(self.filename, borealis_filetype)\<close>, naming a variable
  that does not exist in the method: evaluating the argument raises
  \<open>NameError\<close>.\<close>

definition read_file ::
  "('arr, 'fmt) borealis_env \<Rightarrow> 'arr borealis_array_read \<Rightarrow> error + 'arr borealis_array_read" where
  "read_file env st =
     (if bar_filetype st = py ''bfiq'' then read_bfiq env st
      else if bar_filetype st = py ''rawacf'' then read_rawacf env st
      else if bar_filetype st = py ''antennas_iq'' then read_antennas_iq env st
      else Inl NameError)"

text \<open>\<open>BorealisArrayRead(filename, borealis_filetype)\<close>: the guard admits
  four file types, including \<open>rawrf\<close>; the arrays start empty; the file is
  read.\<close>

definition borealis_array_read ::
  "('arr, 'fmt) borealis_env \<Rightarrow> pystr \<Rightarrow> pystr \<Rightarrow> error + 'arr borealis_array_read" where
  "borealis_array_read env filename borealis_filetype =
     (if borealis_filetype \<notin> {py ''bfiq'', py ''antennas_iq'', py ''rawacf'', py ''rawrf''}
      then Inl (BorealisFileTypeError filename borealis_filetype)
      else read_file env \<lparr>bar_filename = filename, bar_filetype = borealis_filetype,
                          bar_arrays = be_empty env\<rparr>)"

text \<open>The property \<open>record_names\<close>: \<open>sorted(list(records.keys()))\<close> names
  \<open>records\<close>, which is neither a local nor a global of the module.\<close>

definition record_names :: "'arr borealis_array_read \<Rightarrow> error + pystr list" where
  "record_names st = Inl NameError"

text \<open>The properties \<open>records\<close> and \<open>arrays\<close>: the site-format records are
  \<open>borealis_array_to_site_dict(self.arrays, self.borealis_filetype)\<close>, a
  function outside this repository, here the parameter \<open>to_site\<close>; the
  arrays are the private \<open>_arrays\<close>.\<close>

definition records :: "('arr \<Rightarrow> pystr \<Rightarrow> 'site) \<Rightarrow> 'arr borealis_array_read \<Rightarrow> 'site" where
  "records to_site st = to_site (bar_arrays st) (bar_filetype st)"

definition arrays :: "'arr borealis_array_read \<Rightarrow> 'arr" where
  "arrays st = bar_arrays st"

text \<open>\<open>__repr__\<close> and \<open>__str__\<close> of the reader.\<close>

definition read_repr :: "'arr borealis_array_read \<Rightarrow> pystr" where
  "read_repr st = py ''BorealisArrayRead('' @ bar_filename st @ py '', '' @ bar_filetype st @ py '')''"

definition read_str :: "'arr borealis_array_read \<Rightarrow> pystr" where
  "read_str st = py ''Reading from '' @ bar_filename st"

section \<open>BorealisArrayWrite\<close>

record 'arr borealis_array_write =
  baw_filename :: pystr
  baw_arrays :: 'arr
  baw_filetype :: pystr
  baw_compression :: pystr

text \<open>\<open>_write_borealis_arrays\<close>: check the arrays, then save them; the
  operations performed are returned with the result.\<close>

definition write_borealis_arrays ::
  "('arr, 'fmt) borealis_env \<Rightarrow> 'fmt \<Rightarrow> 'arr borealis_array_write \<Rightarrow> (error + unit) \<times> file_op list" where
  "write_borealis_arrays env tables st =
     (case be_check env (baw_filename st) (baw_arrays st) tables of
        Inl e \<Rightarrow> (Inl e, [])
      | Inr _ \<Rightarrow>
          (be_save env (baw_filename st) (baw_arrays st) (baw_compression st),
           [Save (baw_filename st) (baw_compression st)]))"

definition write_bfiq ::
  "('arr, 'fmt) borealis_env \<Rightarrow> 'arr borealis_array_write \<Rightarrow> (error + pystr) \<times> file_op list" where
  "write_bfiq env st =
     (case write_borealis_arrays env (be_bfiq env) st of
        (Inl e, ops) \<Rightarrow> (Inl e, ops) | (Inr _, ops) \<Rightarrow> (Inr (baw_filename st), ops))"

definition write_rawacf ::
  "('arr, 'fmt) borealis_env \<Rightarrow> 'arr borealis_array_write \<Rightarrow> (error + pystr) \<times> file_op list" where
  "write_rawacf env st =
     (case write_borealis_arrays env (be_rawacf env) st of
        (Inl e, ops) \<Rightarrow> (Inl e, ops) | (Inr _, ops) \<Rightarrow> (Inr (baw_filename st), ops))"

definition write_antennas_iq ::
  "('arr, 'fmt) borealis_env \<Rightarrow> 'arr borealis_array_write \<Rightarrow> (error + pystr) \<times> file_op list" where
  "write_antennas_iq env st =
     (case write_borealis_arrays env (be_antennas_iq env) st of
        (Inl e, ops) \<Rightarrow> (Inl e, ops) | (Inr _, ops) \<Rightarrow> (Inr (baw_filename st), ops))"

text \<open>\<open>write_file()\<close>: the same dispatch as \<open>read_file\<close>, with the same
  \<open>NameError\<close> in its last branch (no file-type guard precedes it).\<close>

definition write_file ::
  "('arr, 'fmt) borealis_env \<Rightarrow> 'arr borealis_array_write \<Rightarrow> (error + unit) \<times> file_op list" where
  "write_file env st =
     (let res = (if baw_filetype st = py ''bfiq'' then write_bfiq env st
                 else if baw_filetype st = py ''rawacf'' then write_rawacf env st
                 else if baw_filetype st = py ''antennas_iq'' then write_antennas_iq env st
                 else (Inl NameError, []))
      in (map_sum id (\<lambda>_. ()) (fst res), snd res))"

text \<open>\<open>BorealisArrayWrite(filename, borealis_arrays, borealis_filetype,
  compression='zlib')\<close>.\<close>

definition borealis_array_write ::
  "('arr, 'fmt) borealis_env \<Rightarrow> pystr \<Rightarrow> 'arr \<Rightarrow> pystr \<Rightarrow> pystr \<Rightarrow>
   (error + 'arr borealis_array_write) \<times> file_op list" where
  "borealis_array_write env filename borealis_arrays borealis_filetype compression =
     (let st = \<lparr>baw_filename = filename, baw_arrays = borealis_arrays,
                baw_filetype = borealis_filetype, baw_compression = compression\<rparr>;
          (res, ops) = write_file env st
      in (map_sum id (\<lambda>_. st) res, ops))"

text \<open>\<open>__repr__\<close> and \<open>__str__\<close> of the writer read
  \<open>self.current_record_name\<close>, an attribute it never sets.\<close>

definition write_repr :: "'arr borealis_array_write \<Rightarrow> error + pystr" where
  "write_repr st = Inl AttributeError"

definition write_str :: "'arr borealis_array_write \<Rightarrow> error + pystr" where
  "write_str st = Inl AttributeError"

text \<open>A sample environment: arrays and tables are numbers, a file holds the
  number 1, and the check accepts arrays equal to the table.\<close>

abbreviation sample_env :: "(nat, nat) borealis_env" where
  "sample_env \<equiv> \<lparr>be_load = (\<lambda>_. Inr 1), be_save = (\<lambda>_ _ _. Inr ()),
                  be_check = (\<lambda>_ a t. if a = t then Inr () else Inl KeyError),
                  be_empty = 0, be_bfiq = 1, be_rawacf = 2, be_antennas_iq = 3\<rparr>"

section \<open>Properties\<close>

lemma borealis_read_types:
  "ft \<in> array_types \<Longrightarrow>
   read_file env \<lparr>bar_filename = fn, bar_filetype = ft, bar_arrays = a0\<rparr> =
     read_borealis_arrays env (borealis_tables env ft) \<lparr>bar_filename = fn, bar_filetype = ft, bar_arrays = a0\<rparr>"
  unfolding read_file_def read_bfiq_def read_rawacf_def read_antennas_iq_def borealis_tables_def
  by (elim insertE emptyE) simp_all

text \<open>C22: \<open>BorealisArrayRead\<close> succeeds exactly for the three restructured
  file types, when the file loads and its arrays pass \<open>check_arrays\<close> against
  that type's tables; it then holds the loaded arrays.\<close>

theorem borealis_array_read_ok:
  "borealis_array_read env fn ft = Inr st \<longleftrightarrow>
   ft \<in> array_types \<and> (\<exists>arr. be_load env fn = Inr arr \<and> be_check env fn arr (borealis_tables env ft) = Inr ()
     \<and> st = \<lparr>bar_filename = fn, bar_filetype = ft, bar_arrays = arr\<rparr>)"
proof (cases "ft \<in> array_types")
  case True
  then show ?thesis
    by (auto simp: borealis_array_read_def borealis_read_types read_borealis_arrays_def split: sum.splits)
next
  case False
  then show ?thesis
    by (auto simp: borealis_array_read_def read_file_def)
qed

theorem borealis_array_read_ok_witness:
  "borealis_array_read sample_env (py ''f'') (py ''bfiq'') =
     Inr \<lparr>bar_filename = py ''f'', bar_filetype = py ''bfiq'', bar_arrays = 1\<rparr>
   \<and> (\<forall>st. borealis_array_read sample_env (py ''f'') (py ''rawacf'') \<noteq> Inr st)"
proof -
  have "borealis_array_read sample_env (py ''f'') (py ''bfiq'') =
     Inr \<lparr>bar_filename = py ''f'', bar_filetype = py ''bfiq'', bar_arrays = 1\<rparr>"
    using borealis_array_read_ok [of sample_env "py ''f''" "py ''bfiq''"] by (simp add: borealis_tables_def)
  moreover have "borealis_array_read sample_env (py ''f'') (py ''rawacf'') \<noteq> Inr st" for st
    using borealis_array_read_ok [of sample_env "py ''f''" "py ''rawacf''" st] by (simp add: borealis_tables_def)
  ultimately show ?thesis
    by blast
qed

lemma map_sum_unit [simp]: "map_sum id (\<lambda>_. ()) x = (x :: error + unit)"
  by (cases x) auto

lemma write_file_types:
  "ft \<in> array_types \<Longrightarrow>
   write_file env \<lparr>baw_filename = fn, baw_arrays = arrs, baw_filetype = ft, baw_compression = cmp\<rparr> =
     (let (res, ops) = write_borealis_arrays env (borealis_tables env ft)
                         \<lparr>baw_filename = fn, baw_arrays = arrs, baw_filetype = ft, baw_compression = cmp\<rparr>
      in (map_sum id (\<lambda>_. ()) res, ops))"
  unfolding write_file_def write_bfiq_def write_rawacf_def write_antennas_iq_def borealis_tables_def
  by (elim insertE emptyE) (simp_all split: prod.splits sum.splits)

text \<open>C23: \<open>BorealisArrayWrite\<close> saves a file only after its arrays pass
  \<open>check_arrays\<close>, and then saves it exactly once under the given name and
  compression; a failed check or an unknown file type (which raises
  \<open>NameError\<close>) writes nothing.\<close>

theorem borealis_array_write_ops:
  "borealis_array_write env fn arrs ft cmp =
     (if ft \<in> array_types then
        (case be_check env fn arrs (borealis_tables env ft) of
           Inl e \<Rightarrow> (Inl e, [])
         | Inr _ \<Rightarrow> (map_sum id (\<lambda>_. \<lparr>baw_filename = fn, baw_arrays = arrs, baw_filetype = ft,
                                        baw_compression = cmp\<rparr>) (be_save env fn arrs cmp),
                    [Save fn cmp]))
      else (Inl NameError, []))"
proof (cases "ft \<in> array_types")
  case True
  then show ?thesis
    by (auto simp: borealis_array_write_def write_file_types write_borealis_arrays_def
             split: sum.splits prod.splits)
next
  case False
  then show ?thesis
    by (auto simp: borealis_array_write_def write_file_def)
qed

end
