(* ===== verification/Superdarn_Exceptions.thy ===== *)
theory Superdarn_Exceptions
  imports Dmap_Prelude
begin

text \<open>
  The exceptions of \<open>pydarn/exceptions/superdarn_exceptions.py\<close>: each class
  keeps the arguments it is built with and formats a \<open>message\<close>.  An
  exception is a constructor of \<open>superdarn_exception\<close> over the type \<open>'f\<close> of
  its field collection; \<open>str()\<close> of that collection is Python's container
  printing and is the parameter \<open>show_fields\<close>.  An integer is printed by
  \<open>str.format\<close> as \<open>py_str_int\<close>, the prelude's model of \<open>str\<close> of an
  \<open>int\<close>.
\<close>

datatype 'f superdarn_exception =
  SuperDARNFileTypeError pystr pystr
| SuperDARNFieldMissingError pystr int 'f
| SuperDARNExtraFieldError pystr int 'f
| SuperDARNDataFormatTypeError 'f int

text \<open>The attributes the constructors set (\<open>self.filename\<close>,
  \<open>self.record_number\<close>).\<close>

fun exc_filename :: "'f superdarn_exception \<Rightarrow> pystr option" where
  "exc_filename (SuperDARNFileTypeError filename _) = Some filename"
| "exc_filename (SuperDARNFieldMissingError filename _ _) = Some filename"
| "exc_filename (SuperDARNExtraFieldError filename _ _) = Some filename"
| "exc_filename (SuperDARNDataFormatTypeError _ _) = None"

fun exc_record_number :: "'f superdarn_exception \<Rightarrow> int option" where
  "exc_record_number (SuperDARNFileTypeError _ _) = None"
| "exc_record_number (SuperDARNFieldMissingError _ num _) = Some num"
| "exc_record_number (SuperDARNExtraFieldError _ num _) = Some num"
| "exc_record_number (SuperDARNDataFormatTypeError _ num) = Some num"

text \<open>\<open>self.message\<close>, the adjacent string literals joined as Python joins
  them.\<close>

fun exc_message :: "('f \<Rightarrow> pystr) \<Rightarrow> 'f superdarn_exception \<Rightarrow> pystr" where
  "exc_message show_fields (SuperDARNFileTypeError filename file_type) =
     py ''Error: '' @ file_type @ py '' is not a DMAP file format type.'' @ filename @
     py '' was not created. Please check the spelling of the file type is correct or is implemented.''"
| "exc_message show_fields (SuperDARNFieldMissingError filename num fields) =
     py ''Error: Cannot write to '' @ filename @ py ''. The following fields in record '' @
     py_str_int num @ py '' are missing: '' @ show_fields fields"
| "exc_message show_fields (SuperDARNExtraFieldError filename num fields) =
     py ''Error: Cannot write to '' @ filename @ py ''. The following fields in record '' @
     py_str_int num @ py '' are not allowed: '' @ show_fields fields"
| "exc_message show_fields (SuperDARNDataFormatTypeError incorrect num) =
     py ''Error: In record '' @ py_str_int num @ py '', following parameters need to be the data type: '' @
     show_fields incorrect"

end
