(* ===== verification/Spec2Isabelle.thy ===== *)
theory Spec2Isabelle
  imports Dmap_Roundtrip Dmap_Read_Props Dmap_Read_Loop Grid_Plot Borealis_Array Superdarn_Exceptions
begin

text \<open>
  A verification development of the DMAP codec of pyDARN
  (\<open>src/pydarn/pydmap/io.py\<close>): the reader \<open>DmapRead\<close>, which decodes a byte
  stream of SuperDARN DMAP records, and the writer \<open>DmapWrite\<close>, which checks
  records against a product's field tables and encodes them.  The two meet in
  the byte format: a file is a sequence of blocks, each a 16-byte header
  (encoding identifier, block size, scalar count, array count) followed by
  the scalars and arrays of one record.  Beside the codec, the development
  models the Borealis array-file reader and writer
  (\<open>src/pydarn/io/borealis/borealis_array.py\<close>), the record selection and
  set-up of \<open>Grid.plot_grid\<close> (\<open>src/pydarn/plotting/grid.py\<close>) and the
  exceptions of \<open>src/pydarn/exceptions/superdarn_exceptions.py\<close>.

  \<^bold>\<open>Theories.\<close>
  \<^item> \<open>Dmap_Prelude\<close>: bytes, Python strings as code-point lists, Python
    indexing, little-endian integers, the UTF-8 codec, \<open>OrderedDict\<close> insertion.
  \<^item> \<open>Dmap_Types\<close>: \<open>DMAP_DATA_TYPES\<close> (\<open>dmap_data_types\<close>), Python values,
    \<open>DmapScalar\<close>/\<open>DmapArray\<close> (\<open>dmap_scalar\<close>, \<open>dmap_array\<close>), records,
    the error type, and models of the library calls the module makes
    (\<open>struct.pack\<close>/\<open>unpack_from\<close>, \<open>numpy.frombuffer\<close>/\<open>array\<close>/\<open>tostring\<close>).
  \<^item> \<open>Dmap_Read\<close>: the reader state \<open>dmap_read\<close> (cursor, end, buffer,
    records) and \<open>read_data\<close>, \<open>read_scalar\<close>, \<open>read_array\<close>,
    \<open>read_string_array\<close>, \<open>read_numerical_array\<close>, \<open>read_record\<close>, with the
    checks \<open>zero_negative_check\<close>, \<open>bytes_check\<close>, \<open>check_data_type\<close>.
  \<^item> \<open>Dmap_File\<close>: \<open>read_records\<close> and \<open>test_initial_data_integrity\<close>, the
    loops over the whole buffer, and \<open>blocks_from\<close>, the specification of the
    prescan.
  \<^item> \<open>Dmap_Write\<close>: the writer state \<open>dmap_write\<close>, the field checks
    (\<open>extra_field_check\<close>, \<open>missing_field_check\<close>, \<open>incorrect_types_check\<close>
    and their helpers), the encoders (\<open>dmap_scalar_to_bytes\<close>,
    \<open>dmap_array_to_bytes\<close>, \<open>dmap_record_to_bytes\<close>), the loops
    \<open>superDARN_file_structure_to_bytes\<close> and \<open>dmap_records_to_bytes\<close>, and the
    public writers (\<open>write_*_stream\<close>, \<open>write_dmap\<close>, the file writers); with
    the validator's contract (\<open>schema_fields\<close>, \<open>partial_missing\<close>,
    \<open>record_conforms\<close>) and the writer's output as a specification
    (\<open>encode_all\<close>).
  \<^item> \<open>Dmap_Roundtrip\<close>: the reader run on the writer's bytes.  \<open>bytes_at st bs\<close>
    says that \<open>bs\<close> lies at the cursor of a well-formed reader; the reading
    lemmas (\<open>read_data_at_str\<close>, \<open>read_scalar_at\<close>, \<open>read_array_at\<close>,
    \<open>read_record_at\<close>, \<open>read_records_loop_at\<close>) compose along
    \<open>bytes_at_append\<close>.  \<open>record_ok\<close> names the records both sides agree on.
  \<^item> \<open>Dmap_Read_Props\<close>: properties of the reader alone: the
    type discipline \<open>value_has_fmt\<close>, the key invariant \<open>keys_ok\<close> of a record
    read, the array bounds, the NUL scan.
  \<^item> \<open>Grid_Plot\<close>: \<open>Grid.plot_grid\<close> up to the drawing: \<open>start_search\<close> and
    \<open>select_record\<close> (the record to plot), \<open>grid_setup\<close>, \<open>grid_zrange\<close>,
    \<open>grid_data\<close>, \<open>grid_title_of\<close>, composed as \<open>plot_grid\<close>; \<open>Fan.plot_fov\<close>
    is the parameter \<open>plot_fov\<close>.
  \<^item> \<open>Borealis_Array\<close>: \<open>BorealisArrayRead\<close> (\<open>borealis_array_read\<close>,
    \<open>read_file\<close>, \<open>read_bfiq\<close>, ..., \<open>read_borealis_arrays\<close>) and
    \<open>BorealisArrayWrite\<close> (\<open>borealis_array_write\<close>, \<open>write_file\<close>, ...,
    \<open>write_borealis_arrays\<close>) over an environment \<open>borealis_env\<close> holding
    deepdish, \<open>check_arrays\<close> and the format tables; a writer returns its
    trace of \<open>file_op\<close>s.
  \<^item> \<open>Dmap_Read_Loop\<close>: the \<open>while\<close> loop of \<open>read_records\<close> as the
    inductive step relation \<open>read_step\<close> (one record read and appended) with
    its stopping states \<open>loop_final\<close>; runs are counted with
    \<open>read_step ^^ n\<close>.
  \<^item> \<open>Superdarn_Exceptions\<close>: the four exception classes as the datatype
    \<open>superdarn_exception\<close>, with their attributes and messages.
  \<^item> this theory: the sample records and the properties that span reader and
    writer.

  \<^bold>\<open>Correspondence.\<close>  Each method of \<open>DmapRead\<close> is a function from the reader
  state to \<open>error + (result \<times> state)\<close> (\<open>'a reader\<close>); a raise is an
  \<open>Inl\<close> carrying the exception, with the cursor where the exception does.
  Each method of \<open>DmapWrite\<close> takes and returns the writer state
  \<open>dmap_write\<close> (records, byte array, file name); a stream writer returns the
  bytes with the state, a file writer the file name with the bytes it would
  write; the constructor \<open>dmap_write_init\<close> returns what it left behind
  (\<open>write_effect\<close>).  Python's \<open>for\<close> loops over a count are \<open>repeat_read\<close>,
  \<open>read_scalars\<close>, \<open>read_arrays\<close>, \<open>read_dims\<close>, \<open>encode_fields\<close>,
  \<open>structure_to_bytes_loop\<close>, \<open>records_to_bytes_loop\<close>; the \<open>while\<close> loops
  over the buffer are \<open>read_records_loop\<close> and \<open>prescan_loop\<close>, total
  functions whose termination is the fact that every block the code accepts
  moves the cursor forward (\<open>read_record_progress\<close>, and the positive block
  size of the prescan).  The string scan of \<open>read_data\<close> is \<open>scan_nul\<close>,
  terminating because each step reads a byte inside the buffer.  No fuel is
  needed anywhere.  Python integers are \<open>int\<close>; the cursor is an \<open>int\<close>
  because the code can move it backwards; \<open>struct.pack\<close> range errors are
  modelled by \<open>int_range\<close>.  Dictionaries are association lists in insertion
  order, and the product tables \<open>superdarn_formats\<close>, which are not part of the
  repository, are a parameter.

  \<^bold>\<open>Properties.\<close>
  \<^item> Reader: a record read moves the cursor forward by the block size of
    its header and stays inside the buffer (C1); the prescan accepts exactly
    the chains of blocks (\<open>blocks_from\<close>, C2) and never reaches its dead
    \<open>AttributeError\<close> branch (C3); \<open>read_records\<close> consumes the buffer
    exactly (C4).  The frame lemmas (\<open>cursor_only\<close>) show every reader
    changes the cursor only, so \<open>reader_wf\<close> holds throughout.
  \<^item> Writer: a product writer succeeds exactly on conforming records and then
    returns their encodings (C5); validation of a record is the first failing
    check with exactly the offending fields (C6), the write stops at the
    first bad record with its index (C7); the raw writer checks nothing (C8).
  \<^item> Together: the round trip returns the written records with array shapes
    reversed (C9); written streams pass the prescan (C10); the block header
    is the identifier, the block length and the two counts (C14).
  \<^item> Divergences from the specification, proved: shapes do not survive the
    round trip (C11); records without arrays are written but not readable
    (C12); a stream cut at a record boundary reads without error (C13).
  \<^item> Reader alone: every scalar read has the type of its format (C15); a
    record read has distinct keys, each its field's name (C16); an array read
    obeys the bounds of the array invariant (C17); the NUL scan finds the
    first NUL (C18).
  \<^item> Grid plotting: without a start time \<open>plot_grid\<close> always fails (C19, a
    bug); the start-time search selects the first record starting at that
    time and otherwise the last record (C20); a parameter other than
    velocity, power and spectral width fails with \<open>KeyError\<close> unless the
    colour map and both ends of the range are given (C21).
  \<^item> Borealis: a reader succeeds exactly on a loaded, checked file of the
    three restructured types (C22); a writer saves exactly once and only
    after the check (C23).  These are the behaviours of the method bodies:
    in this revision the module's import statement does not parse, so the
    module cannot be loaded at all.
  \<^item> Writer: a file writer writes the bytes its stream writer returns (C24).
  \<^item> Record loop: every run of \<open>read_step\<close> reaches a stopping state within
    one step per byte (C25, liveness); along a run the buffer is fixed and
    one record is appended per step (C26).
  \<^item> Writer bounds and construction: a record is written exactly when its
    block is below \<open>2^31\<close> bytes, else \<open>struct.error\<close> (C27); the constructor
    writes files only under its own non-empty name, with records, for the
    six formats, and rejects other formats (C28).

  \<^bold>\<open>Not modelled.\<close>  File I/O (\<open>open\<close>, \<open>os.path.getsize\<close>) and logging; the
  messages of \<open>pydmap_exceptions\<close> (not in the repository); the HDF5 library, the format
  tables and the site conversion behind the Borealis classes (the property
  \<open>records\<close> only calls \<open>borealis_array_to_site_dict\<close>, outside the
  repository, and takes it as a parameter); the drawing of \<open>plot_grid\<close> (matplotlib, AACGM coordinates,
  the trigonometry of the vectors); the test data sets under
  \<open>src/test\<close>, which are data, not code.  Library behaviour (\<open>struct\<close>,
  \<open>numpy\<close>, UTF-8, \<open>str\<close> of an \<open>int\<close> as \<open>py_str_int\<close>) is given by support
  definitions, not verified.  The string-array mismatch (the writer emits
  \<open>tostring()\<close>, fixed-width UTF-32, the reader expects NUL-terminated
  strings) and the reader's all-scalars-first order are recorded as findings
  from evaluating the model, not as theorems.  The model of floats keeps their bit
  pattern at the width they were read with; conversions between float widths
  and the text formatting of floats are reported as \<open>OutsideModel\<close>.  The
  round trip is proved for numeric arrays; character and string arrays are
  read by \<open>read_string_array\<close> element by element and are modelled, but not
  covered by the round-trip theorem.
\<close>

section \<open>Sample records\<close>

text \<open>The record of the specification's round-trip scenario: an \<open>int16\<close>
  scalar \<open>stid = 7\<close> and a \<open>float32\<close> array of shape \<open>[2, 2]\<close> holding
  \<open>1, 2, 3, 4\<close> (as IEEE bit patterns), and the 58 bytes the writer makes of it.\<close>

abbreviation scenario_record :: dmap_record where
  "scenario_record \<equiv>
     [(py ''stid'', Scalar \<lparr>s_name = py ''stid'', s_value = PInt 7, s_data_type = 2, s_data_type_fmt = Fh\<rparr>),
      (py ''data'', Array \<lparr>a_name = py ''data'',
         a_value = NdNum Ff (concat (map (le_bytes 4) [1065353216, 1073741824, 1077936128, 1082130432])),
         a_data_type = 4, a_data_type_fmt = Ff, a_dimension = 2, a_shape = [2, 2]\<rparr>)]"

abbreviation scenario_block :: "byte list" where
  "scenario_block \<equiv> le_bytes 4 65537 @ le_bytes 4 58 @ le_bytes 4 1 @ le_bytes 4 1
     @ map word_of_int (py ''stid'') @ [0, 2] @ le_bytes 2 7
     @ map word_of_int (py ''data'') @ [0, 4] @ le_bytes 4 2 @ le_bytes 4 2 @ le_bytes 4 2
     @ concat (map (le_bytes 4) [1065353216, 1073741824, 1077936128, 1082130432])"

text \<open>An \<open>int32\<close> array of shape \<open>[2, 3]\<close> beside a scalar, and the same
  record as the reader returns it.\<close>

abbreviation shape_record :: "int list \<Rightarrow> dmap_record" where
  "shape_record sh \<equiv>
     [(py ''stid'', Scalar \<lparr>s_name = py ''stid'', s_value = PInt 7, s_data_type = 2, s_data_type_fmt = Fh\<rparr>),
      (py ''pwr'', Array \<lparr>a_name = py ''pwr'', a_value = NdNum Fi (concat (map (le_bytes 4) [1, 2, 3, 4, 5, 6])),
         a_data_type = 3, a_data_type_fmt = Fi, a_dimension = 2, a_shape = sh\<rparr>)]"

abbreviation shape_block :: "byte list" where
  "shape_block \<equiv> le_bytes 4 65537 @ le_bytes 4 65 @ le_bytes 4 1 @ le_bytes 4 1
     @ map word_of_int (py ''stid'') @ [0, 2] @ le_bytes 2 7
     @ map word_of_int (py ''pwr'') @ [0, 3] @ le_bytes 4 2 @ le_bytes 4 2 @ le_bytes 4 3
     @ concat (map (le_bytes 4) [1, 2, 3, 4, 5, 6])"

text \<open>A record with a scalar and no array, and its 24 bytes.\<close>

abbreviation scalar_only_record :: dmap_record where
  "scalar_only_record \<equiv>
     [(py ''stid'', Scalar \<lparr>s_name = py ''stid'', s_value = PInt 7, s_data_type = 2, s_data_type_fmt = Fh\<rparr>)]"

abbreviation scalar_only_block :: "byte list" where
  "scalar_only_block \<equiv> le_bytes 4 65537 @ le_bytes 4 24 @ le_bytes 4 1 @ le_bytes 4 0
     @ map word_of_int (py ''stid'') @ [0, 2] @ le_bytes 2 7"

abbreviation fresh_writer :: dmap_write where
  "fresh_writer \<equiv> \<lparr>w_records = [], w_bytearr = [], w_filename = []\<rparr>"

section \<open>The writer and the reader together\<close>

text \<open>C9: Round trip.  Whatever the raw writer \<open>write_dmap_stream\<close> makes of
  a list of records the reader can parse (\<open>record_ok\<close>: clean names, numeric
  arrays, scalars before arrays, at least one of each), \<open>DmapRead\<close> reads back
  as the same records in the same order, field for field, except that every
  array comes back with its shape reversed.\<close>

theorem write_read_roundtrip:
  assumes "\<forall>r \<in> set recs. record_ok r" and "recs \<noteq> []"
    and "write_dmap_stream recs \<lparr>w_records = [], w_bytearr = [], w_filename = fn\<rparr> = Inr (bs, st')"
  shows "read_dmap_stream bs = Inr (map (map (\<lambda>(k, fld). (k, rev_shape fld))) recs)"
  using read_dmap_stream_at [OF assms(1,2) write_dmap_stream_encode_all [OF assms(3)]] .

theorem write_read_roundtrip_witness:
  "write_dmap_stream [scenario_record] fresh_writer =
     Inr (scenario_block, \<lparr>w_records = [scenario_record], w_bytearr = scenario_block, w_filename = []\<rparr>)
   \<and> read_dmap_stream scenario_block = Inr [scenario_record]"
proof -
  have ok: "record_ok scenario_record"
    by code_simp
  have w: "write_dmap_stream [scenario_record] fresh_writer =
     Inr (scenario_block, \<lparr>w_records = [scenario_record], w_bytearr = scenario_block, w_filename = []\<rparr>)"
    by code_simp
  show ?thesis
    using write_read_roundtrip [of "[scenario_record]", OF _ _ w] ok w by simp
qed

text \<open>C10: Every byte stream the raw writer produces passes the integrity
  prescan \<open>test_initial_data_integrity\<close> of a reader opened on it, whatever
  the records (the product writers produce the same bytes, C6).\<close>

theorem written_stream_passes_prescan:
  assumes "write_dmap_stream recs \<lparr>w_records = [], w_bytearr = [], w_filename = fn\<rparr> = Inr (bs, st')"
    and "dmap_read_stream bs = Inr rd"
  shows "\<exists>rd'. test_initial_data_integrity rd = Inr rd'"
proof -
  have "blocks_from ([] @ bs) (int (length ([] :: byte list)))"
    using blocks_from_encode_all [OF write_dmap_stream_encode_all [OF assms(1)]] .
  moreover have "reader_wf rd" "cursor rd = 0" "dmap_bytearr rd = bs"
    using bytes_at_stream [OF assms(2)] by simp_all
  ultimately show ?thesis
    by (intro blocks_prescan_accepts) simp_all
qed

theorem written_stream_passes_prescan_witness:
  "\<exists>rd'. test_initial_data_integrity
           \<lparr>cursor = 0, dmap_end_bytes = 58, dmap_bytearr = scenario_block, dmap_records = []\<rparr> = Inr rd'"
proof -
  have w: "write_dmap_stream [scenario_record] fresh_writer =
     Inr (scenario_block, \<lparr>w_records = [scenario_record], w_bytearr = scenario_block, w_filename = []\<rparr>)"
    by code_simp
  have r: "dmap_read_stream scenario_block =
      Inr \<lparr>cursor = 0, dmap_end_bytes = 58, dmap_bytearr = scenario_block, dmap_records = []\<rparr>"
    by code_simp
  show ?thesis
    using written_stream_passes_prescan [OF w r] .
qed

text \<open>C11: The round trip is not the identity: the writer emits an array's
  shape in the order it holds it, the reader reverses what it reads, so a
  record with an array whose shape is not a palindrome never reads back as
  written (the specification asks for the reversal in both directions).\<close>

theorem roundtrip_changes_asymmetric_shape:
  assumes "record_ok r" and "(k, Array a) \<in> set r" and "rev (a_shape a) \<noteq> a_shape a"
    and "write_dmap_stream [r] \<lparr>w_records = [], w_bytearr = [], w_filename = fn\<rparr> = Inr (bs, st')"
  shows "read_dmap_stream bs \<noteq> Inr [r]"
proof
  assume rd: "read_dmap_stream bs = Inr [r]"
  have "read_dmap_stream bs = Inr [map (\<lambda>(k, fld). (k, rev_shape fld)) r]"
    using read_dmap_stream_at [of "[r]", OF _ _ write_dmap_stream_encode_all [OF assms(4)]] assms(1)
    by simp
  with rd have "map (\<lambda>(k, fld). (k, rev_shape fld)) r = map id r"
    by simp
  then have "(k, rev_shape (Array a)) = (k, Array a)"
    using assms(2) unfolding map_eq_conv by fastforce
  then have "a\<lparr>a_shape := rev (a_shape a)\<rparr> = a"
    by simp
  then have "a_shape (a\<lparr>a_shape := rev (a_shape a)\<rparr>) = a_shape a"
    by (rule arg_cong)
  with assms(3) show False
    by simp
qed

theorem roundtrip_changes_asymmetric_shape_witness:
  "read_dmap_stream shape_block = Inr [shape_record [3, 2]] \<and> read_dmap_stream shape_block \<noteq> Inr [shape_record [2, 3]]"
proof -
  have ok: "record_ok (shape_record [2, 3])"
    by code_simp
  have w: "write_dmap_stream [shape_record [2, 3]] fresh_writer =
      Inr (shape_block, \<lparr>w_records = [shape_record [2, 3]], w_bytearr = shape_block, w_filename = []\<rparr>)"
    by code_simp
  have r: "read_dmap_stream shape_block = Inr [shape_record [3, 2]]"
    by code_simp
  have "read_dmap_stream shape_block \<noteq> Inr [shape_record [2, 3]]"
    using roundtrip_changes_asymmetric_shape [OF ok _ _ w,
            of "py ''pwr''" "\<lparr>a_name = py ''pwr'', a_value = NdNum Fi (concat (map (le_bytes 4) [1, 2, 3, 4, 5, 6])),
               a_data_type = 3, a_data_type_fmt = Fi, a_dimension = 2, a_shape = [2, 3]\<rparr>"]
    by simp
  with r show ?thesis
    by simp
qed

text \<open>C12: A record without arrays (and the empty record, which every
  product's validator accepts when all groups are absent) is written without
  complaint, but the reader rejects the bytes with \<open>ZeroByteError\<close> at the
  array count (offset 16): the writer produces files its own reader refuses.\<close>

theorem arrayless_record_unreadable:
  assumes "write_dmap_stream [r] \<lparr>w_records = [], w_bytearr = [], w_filename = fn\<rparr> = Inr (bs, st')"
    and "\<forall>(k, fld) \<in> set r. is_scalar_field fld"
  shows "read_dmap_stream bs = Inl (ZeroByteError 16)"
proof -
  obtain b where "dmap_record_to_bytes r = Inr b" and "bs = b @ []"
    using write_dmap_stream_encode_all [OF assms(1)] by (auto split: sum.splits)
  then show ?thesis
    using read_dmap_stream_arrayless assms(2) by blast
qed

theorem arrayless_record_unreadable_witness:
  "write_dmap_stream [scalar_only_record] fresh_writer =
     Inr (scalar_only_block, \<lparr>w_records = [scalar_only_record], w_bytearr = scalar_only_block, w_filename = []\<rparr>)
   \<and> read_dmap_stream scalar_only_block = Inl (ZeroByteError 16)"
proof -
  have w: "write_dmap_stream [scalar_only_record] fresh_writer =
     Inr (scalar_only_block, \<lparr>w_records = [scalar_only_record], w_bytearr = scalar_only_block, w_filename = []\<rparr>)"
    by code_simp
  show ?thesis
    using arrayless_record_unreadable [OF w] w by simp
qed

text \<open>C13: Cutting a written stream at a record boundary is not detected:
  the reader returns the records before the cut without error, although the
  specification requires every truncation of a valid file by one or more
  trailing bytes to fail.\<close>

theorem truncated_stream_reads_silently:
  assumes "\<forall>r \<in> set (xs @ ys). record_ok r" and "xs \<noteq> []" and "ys \<noteq> []"
    and "write_dmap_stream (xs @ ys) \<lparr>w_records = [], w_bytearr = [], w_filename = fn\<rparr> = Inr (bs, st')"
  shows "\<exists>n < length bs. read_dmap_stream (take n bs) = Inr (map (map (\<lambda>(k, fld). (k, rev_shape fld))) xs)"
proof -
  obtain a b where ea: "encode_all xs = Inr a" and eb: "encode_all ys = Inr b" and bs: "bs = a @ b"
    using write_dmap_stream_encode_all [OF assms(4)] by (auto simp: encode_all_append split: sum.splits)
  have "16 \<le> length b"
    using encode_all_nonempty [OF eb assms(3)] .
  then have "b \<noteq> []"
    by auto
  moreover have "read_dmap_stream (take (length a) bs) = Inr (map (map (\<lambda>(k, fld). (k, rev_shape fld))) xs)"
    using read_dmap_stream_at [OF _ assms(2) ea] assms(1) bs by simp
  ultimately show ?thesis
    using bs by (intro exI [of _ "length a"]) simp
qed

theorem truncated_stream_reads_silently_witness:
  "\<exists>n < 116. read_dmap_stream (take n (scenario_block @ scenario_block)) = Inr [scenario_record]"
proof -
  have ok: "record_ok scenario_record"
    by code_simp
  have w: "write_dmap_stream ([scenario_record] @ [scenario_record]) fresh_writer =
     Inr (scenario_block @ scenario_block,
          \<lparr>w_records = [scenario_record, scenario_record], w_bytearr = scenario_block @ scenario_block,
           w_filename = []\<rparr>)"
    by code_simp
  show ?thesis
    using truncated_stream_reads_silently [OF _ _ _ w] ok by simp
qed

end
